(* ===== verification/Prelude.thy ===== *)
theory Prelude
  imports Main "HOL-Library.Char_ord" "HOL-Library.List_Lexorder"
begin

text \<open>
  Shared vocabulary of the development.

  Python values whose type the source checks at run time (parameters annotated \<open>Any\<close>,
  rows decoded from JSON) are \<open>pyval\<close>.  Raised exceptions are the left side of a sum.
  Python strings are \<open>string\<close>: the code reads them with ASCII-only regular expressions, so
  code points beyond one byte behave like any other rejected character.  Decimal and
  hexadecimal rendering and reading, and the SQL \<open>UPDATE ... WHERE\<close> statement with its
  row count, are modelled once here.
\<close>

section \<open>Dynamically typed values\<close>

datatype pyval =
    PNone
  | PBool bool
  | PInt int
  | PStr string
  | PList "pyval list"
  | PDict "(string \<times> pyval) list"
  | POther nat

type_synonym py_dict = "(string \<times> pyval) list"

text \<open>\<open>d.get(k)\<close> of a dict: a missing key reads as \<open>None\<close>.\<close>

definition dget :: "(string \<times> pyval) list \<Rightarrow> string \<Rightarrow> pyval" where
  "dget d k = (case map_of d k of None \<Rightarrow> PNone | Some v \<Rightarrow> v)"

text \<open>Optional values, and the dicts of a list.\<close>

definition of_string :: "string option \<Rightarrow> pyval" where
  "of_string v = (case v of None \<Rightarrow> PNone | Some s \<Rightarrow> PStr s)"

definition of_int :: "int option \<Rightarrow> pyval" where
  "of_int v = (case v of None \<Rightarrow> PNone | Some i \<Rightarrow> PInt i)"

definition dict_rows :: "pyval list \<Rightarrow> py_dict list" where
  "dict_rows vs = List.map_filter (\<lambda>v. case v of PDict d \<Rightarrow> Some d | _ \<Rightarrow> None) vs"

text \<open>\<open>d[k]\<close> of a field that holds text.\<close>

definition field :: "string \<Rightarrow> py_dict \<Rightarrow> string" where
  "field k d = (case dget d k of PStr s \<Rightarrow> s | _ \<Rightarrow> [])"

text \<open>\<open>d[k] = v\<close>: a present key keeps its place.\<close>

definition dict_set :: "string \<Rightarrow> pyval \<Rightarrow> py_dict \<Rightarrow> py_dict" where
  "dict_set k v d =
    (if map_of d k = None then d @ [(k, v)] else map (\<lambda>(j, w). if j = k then (j, v) else (j, w)) d)"

text \<open>A dict of key-value pairs: the last value of a key counts.\<close>

definition dict_of :: "py_dict \<Rightarrow> py_dict" where
  "dict_of ps = foldl (\<lambda>d (k, v). dict_set k v d) [] ps"

lemma dict_of_distinct: "distinct (map fst ps) \<Longrightarrow> dict_of ps = ps"
proof (induction ps rule: rev_induct)
  case (snoc p ps)
  have "map_of ps (fst p) = None" using snoc.prems by (auto simp: map_of_eq_None_iff)
  with snoc show ?case by (simp add: dict_of_def dict_set_def split_beta)
qed (simp add: dict_of_def)

fun as_str :: "pyval \<Rightarrow> string option" where
  "as_str (PStr s) = Some s"
| "as_str _ = None"

lemma as_str_Some [simp]: "as_str v = Some s \<longleftrightarrow> v = PStr s"
  by (cases v) auto

text \<open>
  \<open>==\<close> of Python values: \<open>True\<close> and \<open>False\<close> compare like the integers 1 and 0, and dicts
  compare without regard to the order of their keys.
\<close>

fun bool_int :: "bool \<Rightarrow> int" where
  "bool_int True = 1"
| "bool_int False = 0"

primrec py_norm :: "pyval \<Rightarrow> pyval" where
  "py_norm PNone = PNone"
| "py_norm (PBool b) = PInt (bool_int b)"
| "py_norm (PInt i) = PInt i"
| "py_norm (PStr s) = PStr s"
| "py_norm (PList vs) = PList (map py_norm vs)"
| "py_norm (PDict d) = PDict (sort_key fst (map (map_prod id py_norm) d))"
| "py_norm (POther n) = POther n"

definition py_eq :: "pyval \<Rightarrow> pyval \<Rightarrow> bool" where
  "py_eq a b \<longleftrightarrow> py_norm a = py_norm b"

lemma py_eq_PStr [simp]:
  "py_eq v (PStr s) \<longleftrightarrow> v = PStr s" "py_eq (PStr s) v \<longleftrightarrow> v = PStr s"
  by (cases v; auto simp: py_eq_def)+

lemma py_eq_refl [simp]: "py_eq v v"
  by (simp add: py_eq_def)

text \<open>\<open>bool(v)\<close>, as \<open>or\<close> reads it.\<close>

fun truthy :: "pyval \<Rightarrow> bool" where
  "truthy PNone = False"
| "truthy (PBool b) = b"
| "truthy (PInt i) = (i \<noteq> 0)"
| "truthy (PStr s) = (s \<noteq> [])"
| "truthy (PList vs) = (vs \<noteq> [])"
| "truthy (PDict d) = (d \<noteq> [])"
| "truthy (POther n) = True"

text \<open>\<open>list(dict.fromkeys(value))\<close>: the first occurrences, in order.\<close>

definition first_occurrences :: "'a list \<Rightarrow> 'a list" where
  "first_occurrences xs = rev (remdups (rev xs))"

section \<open>Results\<close>

type_synonym ('e, 'a) result = "'e + 'a"

text \<open>Exceptions of the Python runtime that the code lets escape.\<close>

datatype py_error = ValueError | TypeError | KeyError | OverflowError

text \<open>
  Python refuses to convert decimal text of more than 4300 digits
  (\<open>sys.int_info.default_max_str_digits\<close>).
\<close>

definition max_str_digits :: nat where "max_str_digits = 4300"

definition bind_result :: "'e + 'a \<Rightarrow> ('a \<Rightarrow> 'e + 'b) \<Rightarrow> 'e + 'b" where
  "bind_result r f = (case r of Inl e \<Rightarrow> Inl e | Inr a \<Rightarrow> f a)"

text \<open>\<open>if not c: raise e\<close>, then continue.\<close>

definition ensure :: "bool \<Rightarrow> 'e \<Rightarrow> 'e + 'a \<Rightarrow> 'e + 'a" where
  "ensure c e r = (if c then r else Inl e)"

lemma bind_result_simps [simp]:
  "bind_result (Inl e) f = Inl e"
  "bind_result (Inr a) f = f a"
  by (simp_all add: bind_result_def)

lemma bind_result_Inr:
  "bind_result r f = Inr b \<longleftrightarrow> (\<exists>a. r = Inr a \<and> f a = Inr b)"
  by (cases r) auto

lemma ensure_Inr [simp]: "ensure c e r = Inr a \<longleftrightarrow> c \<and> r = Inr a"
  by (simp add: ensure_def)

lemma ensure_simps [simp]: "ensure True e r = r" "ensure False e r = Inl e"
  by (simp_all add: ensure_def)

lemma bind_result_Inl: "bind_result r f = Inl e \<longleftrightarrow> r = Inl e \<or> (\<exists>a. r = Inr a \<and> f a = Inl e)"
  by (cases r) auto

text \<open>A function that may raise, applied to the elements in order.\<close>

fun each :: "('a \<Rightarrow> 'e + 'b) \<Rightarrow> 'a list \<Rightarrow> 'e + 'b list" where
  "each f [] = Inr []"
| "each f (x # xs) = bind_result (f x) (\<lambda>y. bind_result (each f xs) (\<lambda>ys. Inr (y # ys)))"

lemma each_Inr: "each f xs = Inr ys \<Longrightarrow> length ys = length xs \<and> (\<forall>y \<in> set ys. \<exists>x \<in> set xs. f x = Inr y)"
  by (induction xs arbitrary: ys) (simp, fastforce simp: bind_result_Inr)

lemma each_Inl: "each f xs = Inl e \<Longrightarrow> \<exists>x. f x = Inl e"
  by (induction xs) (auto simp: bind_result_Inl)

lemma map_filter_append: "List.map_filter f (xs @ ys) = List.map_filter f xs @ List.map_filter f ys"
  by (simp add: List.map_filter_def)

section \<open>ASCII characters, decimal and hexadecimal text\<close>

definition dec_digits :: string where "dec_digits = ''0123456789''"
definition hex_digits :: string where "hex_digits = ''0123456789abcdef''"

definition is_digit :: "char \<Rightarrow> bool" where
  "is_digit c \<longleftrightarrow> c \<in> set dec_digits"

definition is_lower_hex :: "char \<Rightarrow> bool" where
  "is_lower_hex c \<longleftrightarrow> c \<in> set hex_digits"

definition is_hex :: "char \<Rightarrow> bool" where
  "is_hex c \<longleftrightarrow> c \<in> set ''0123456789abcdefABCDEF''"

text \<open>\<open>str.lower\<close> on the hexadecimal alphabet, the only text the code lowers here.\<close>

fun hex_lower :: "char \<Rightarrow> char" where
  "hex_lower c =
    (if c = CHR ''A'' then CHR ''a'' else if c = CHR ''B'' then CHR ''b''
     else if c = CHR ''C'' then CHR ''c'' else if c = CHR ''D'' then CHR ''d''
     else if c = CHR ''E'' then CHR ''e'' else if c = CHR ''F'' then CHR ''f'' else c)"

declare hex_lower.simps [simp del]

lemma is_lower_hex_is_hex: "is_lower_hex c \<Longrightarrow> is_hex c"
  by (auto simp: is_lower_hex_def is_hex_def hex_digits_def)

lemma hex_lower_is_lower: "is_hex c \<Longrightarrow> is_lower_hex (hex_lower c)"
  by (auto simp: is_lower_hex_def is_hex_def hex_digits_def hex_lower.simps)

lemma hex_lower_id: "is_lower_hex c \<Longrightarrow> hex_lower c = c"
  by (auto simp: is_lower_hex_def hex_digits_def hex_lower.simps)

lemma map_hex_lower_id: "list_all is_lower_hex s \<Longrightarrow> map hex_lower s = s"
  by (induction s) (auto simp: hex_lower_id)

lemma list_all_hex_lower: "list_all is_hex s \<Longrightarrow> list_all is_lower_hex (map hex_lower s)"
  by (induction s) (auto simp: hex_lower_is_lower)

definition digit_char :: "nat \<Rightarrow> char" where
  "digit_char n = dec_digits ! n"

definition digit_val :: "char \<Rightarrow> nat" where
  "digit_val c = of_char c - 48"

lemma less_10_cases: "(n::nat) < 10 \<Longrightarrow> n \<in> {0,1,2,3,4,5,6,7,8,9}"
  by (auto simp: less_Suc_eq eval_nat_numeral)

lemma digit_val_char [simp]: "n < 10 \<Longrightarrow> digit_val (digit_char n) = n"
  by (drule less_10_cases) (auto simp: digit_val_def digit_char_def dec_digits_def)

lemma is_digit_char [simp]: "n < 10 \<Longrightarrow> is_digit (digit_char n)"
  by (drule less_10_cases) (auto simp: digit_char_def is_digit_def dec_digits_def)

lemma digit_val_less [simp]: "is_digit c \<Longrightarrow> digit_val c < 10"
  by (auto simp: is_digit_def dec_digits_def digit_val_def)

lemma digit_char_val [simp]: "is_digit c \<Longrightarrow> digit_char (digit_val c) = c"
  by (auto simp: is_digit_def dec_digits_def digit_val_def digit_char_def)

lemma digit_char_eq_zero: "n < 10 \<Longrightarrow> digit_char n = CHR ''0'' \<longleftrightarrow> n = 0"
  by (drule less_10_cases) (auto simp: digit_char_def dec_digits_def)

fun show_nat :: "nat \<Rightarrow> string" where
  "show_nat n = (if n < 10 then [digit_char n] else show_nat (n div 10) @ [digit_char (n mod 10)])"

declare show_nat.simps [simp del]

definition read_nat :: "string \<Rightarrow> nat" where
  "read_nat s = foldl (\<lambda>a c. 10 * a + digit_val c) 0 s"

lemma read_nat_simps [simp]:
  "read_nat [] = 0"
  "read_nat (s @ [c]) = 10 * read_nat s + digit_val c"
  by (simp_all add: read_nat_def)

lemma read_show_nat [simp]: "read_nat (show_nat n) = n"
proof (induction n rule: show_nat.induct)
  case (1 n)
  show ?case
  proof (cases "n < 10")
    case True
    then show ?thesis by (simp add: show_nat.simps [of n] read_nat_def)
  next
    case False
    with 1 have "read_nat (show_nat (n div 10)) = n div 10" by simp
    with False show ?thesis by (simp add: show_nat.simps [of n])
  qed
qed

lemma show_nat_digits: "list_all is_digit (show_nat n)"
proof (induction n rule: show_nat.induct)
  case (1 n)
  then show ?case by (cases "n < 10") (simp_all add: show_nat.simps [of n])
qed

lemma show_nat_nonempty [simp]: "show_nat n \<noteq> []"
  by (subst show_nat.simps) simp

lemma show_nat_hd: "0 < n \<Longrightarrow> hd (show_nat n) \<noteq> CHR ''0''"
proof (induction n rule: show_nat.induct)
  case (1 n)
  show ?case
  proof (cases "n < 10")
    case True
    with 1 show ?thesis by (simp add: show_nat.simps [of n] digit_char_eq_zero)
  next
    case False
    with 1 have "hd (show_nat (n div 10)) \<noteq> CHR ''0''" by simp
    with False show ?thesis by (simp add: show_nat.simps [of n] hd_append)
  qed
qed

lemma show_nat_length: "n < 10 ^ k \<Longrightarrow> 0 < k \<Longrightarrow> length (show_nat n) \<le> k"
proof (induction n arbitrary: k rule: show_nat.induct)
  case (1 n)
  show ?case
  proof (cases "n < 10")
    case True
    with 1 show ?thesis by (simp add: show_nat.simps [of n])
  next
    case False
    with "1.prems" obtain m where k: "k = Suc m" and m: "0 < m"
      by (cases k; cases "k - 1") auto
    with "1.prems" have "n div 10 < 10 ^ m" by auto
    with 1 False m have "length (show_nat (n div 10)) \<le> m" by simp
    with False k show ?thesis by (simp add: show_nat.simps [of n])
  qed
qed

text \<open>The canonical decimal numerals: \<open>0\<close>, or digits without a leading zero.\<close>

definition is_canonical_nat :: "string \<Rightarrow> bool" where
  "is_canonical_nat s \<longleftrightarrow> s = ''0'' \<or> (s \<noteq> [] \<and> hd s \<noteq> CHR ''0'' \<and> list_all is_digit s)"

lemma canonical_show_nat: "is_canonical_nat (show_nat n)"
proof (cases "n = 0")
  case True
  then show ?thesis by (simp add: is_canonical_nat_def show_nat.simps digit_char_def dec_digits_def)
next
  case False
  then show ?thesis
    using show_nat_hd [of n] show_nat_digits [of n] by (simp add: is_canonical_nat_def)
qed

lemma read_nat_pos:
  "s \<noteq> [] \<Longrightarrow> hd s \<noteq> CHR ''0'' \<Longrightarrow> list_all is_digit s \<Longrightarrow> 0 < read_nat s"
proof (induction s rule: rev_induct)
  case Nil
  then show ?case by simp
next
  case (snoc c s)
  show ?case
  proof (cases "s = []")
    case True
    with snoc.prems have "is_digit c" "c \<noteq> CHR ''0''" by auto
    then have "0 < digit_val c"
      by (auto simp: is_digit_def dec_digits_def digit_val_def)
    with True show ?thesis using read_nat_simps(2) [of "[]" c] by simp
  next
    case False
    with snoc show ?thesis by (auto simp: hd_append)
  qed
qed

lemma show_read_nat: "is_canonical_nat s \<Longrightarrow> show_nat (read_nat s) = s"
proof (induction s rule: rev_induct)
  case Nil
  then show ?case by (simp add: is_canonical_nat_def)
next
  case (snoc c s)
  show ?case
  proof (cases "s = []")
    case True
    with snoc.prems have "is_digit c"
      by (auto simp: is_canonical_nat_def is_digit_def dec_digits_def)
    with True show ?thesis
      using read_nat_simps(2) [of "[]" c] by (simp add: show_nat.simps)
  next
    case False
    with snoc.prems have d: "hd s \<noteq> CHR ''0''" "list_all is_digit s" "is_digit c"
      by (auto simp: is_canonical_nat_def hd_append)
    with False have ih: "show_nat (read_nat s) = s" and pos: "0 < read_nat s"
      using snoc.IH read_nat_pos [of s] by (auto simp: is_canonical_nat_def)
    from d have "digit_val c < 10" by simp
    with pos have "(10 * read_nat s + digit_val c) div 10 = read_nat s"
      and "(10 * read_nat s + digit_val c) mod 10 = digit_val c"
      and "\<not> 10 * read_nat s + digit_val c < 10" by auto
    with ih d show ?thesis by (simp add: show_nat.simps [of "10 * read_nat s + digit_val c"])
  qed
qed

definition show_int :: "int \<Rightarrow> string" where
  "show_int i = (if i < 0 then CHR ''-'' # show_nat (nat (- i)) else show_nat (nat i))"

definition read_int :: "string \<Rightarrow> int" where
  "read_int s =
    (if s \<noteq> [] \<and> hd s = CHR ''-'' then - int (read_nat (tl s)) else int (read_nat s))"

lemma hd_show_nat_no_minus: "hd (show_nat n) \<noteq> CHR ''-''"
proof -
  have "is_digit (hd (show_nat n))"
    using show_nat_digits [of n] by (cases "show_nat n") auto
  then show ?thesis by (auto simp: is_digit_def dec_digits_def)
qed

lemma read_show_int [simp]: "read_int (show_int i) = i"
  by (auto simp: read_int_def show_int_def hd_show_nat_no_minus)

text \<open>Lists and dicts are unhashable: looking them up in a dict or a frozenset raises.\<close>

fun hashable :: "pyval \<Rightarrow> bool" where
  "hashable (PList _) = False"
| "hashable (PDict _) = False"
| "hashable _ = True"

text \<open>White space as \<open>str.strip\<close> removes it (Latin-1 range).\<close>

definition is_space :: "char \<Rightarrow> bool" where
  "is_space c \<longleftrightarrow>
    (let n = of_char c :: nat in
     (9 \<le> n \<and> n \<le> 13) \<or> (28 \<le> n \<and> n \<le> 32) \<or> n = 133 \<or> n = 160)"

definition strip :: "string \<Rightarrow> string" where
  "strip s = rev (dropWhile is_space (rev (dropWhile is_space s)))"

text \<open>
  \<open>int(value)\<close>: text may carry white space, a sign and single underscores between digits;
  other objects (\<open>POther\<close>) stand for values without a numeric conversion.
\<close>

definition int_of_text :: "string \<Rightarrow> (py_error, int) result" where
  "int_of_text s =
    (let t = strip s; signed = (t \<noteq> [] \<and> hd t \<in> {CHR ''+'', CHR ''-''});
         body = (if signed then tl t else t); n = int (read_nat (filter is_digit body)) in
     ensure (body \<noteq> [] \<and> list_all (\<lambda>c. is_digit c \<or> c = CHR ''_'') body \<and> is_digit (hd body) \<and>
         is_digit (last body) \<and> successively (\<lambda>x y. x \<noteq> CHR ''_'' \<or> y \<noteq> CHR ''_'') body \<and>
         length (filter is_digit body) \<le> max_str_digits) ValueError
       (Inr (if signed \<and> hd t = CHR ''-'' then - n else n)))"

definition int_of :: "pyval \<Rightarrow> (py_error, int) result" where
  "int_of v =
    (case v of PInt i \<Rightarrow> Inr i | PBool b \<Rightarrow> Inr (bool_int b) | PStr s \<Rightarrow> int_of_text s
     | _ \<Rightarrow> Inl TypeError)"

text \<open>Two-digit lower-case hexadecimal rendering of bytes (\<open>bytes.hex\<close>).\<close>

definition hex_of_byte :: "nat \<Rightarrow> string" where
  "hex_of_byte b = [hex_digits ! (b div 16), hex_digits ! (b mod 16)]"

definition bytes_hex :: "nat list \<Rightarrow> string" where
  "bytes_hex bs = concat (map hex_of_byte bs)"

lemma hex_digit_lower: "n < 16 \<Longrightarrow> is_lower_hex (hex_digits ! n)"
  unfolding is_lower_hex_def by (rule nth_mem) (simp add: hex_digits_def)

lemma bytes_hex_length [simp]: "length (bytes_hex bs) = 2 * length bs"
  by (induction bs) (auto simp: bytes_hex_def hex_of_byte_def)

lemma bytes_hex_lower: "list_all (\<lambda>b. b < 256) bs \<Longrightarrow> list_all is_lower_hex (bytes_hex bs)"
  by (induction bs) (auto simp: bytes_hex_def hex_of_byte_def hex_digit_lower)

section \<open>SQL statements over a table\<close>

text \<open>
  A table is the list of its rows.  \<open>sql_update p f rows\<close> is
  \<open>UPDATE ... SET f WHERE p\<close>: the new table and the statement's row count.
\<close>

definition sql_update :: "('r \<Rightarrow> bool) \<Rightarrow> ('r \<Rightarrow> 'r) \<Rightarrow> 'r list \<Rightarrow> 'r list \<times> nat" where
  "sql_update p f rows = (map (\<lambda>r. if p r then f r else r) rows, length (filter p rows))"

definition sql_find :: "('r \<Rightarrow> bool) \<Rightarrow> 'r list \<Rightarrow> 'r option" where
  "sql_find p rows = find p rows"

lemma fst_sql_update: "fst (sql_update p f rows) = map (\<lambda>r. if p r then f r else r) rows"
  by (simp add: sql_update_def)

lemma snd_sql_update: "snd (sql_update p f rows) = length (filter p rows)"
  by (simp add: sql_update_def)

lemma sql_update_none: "snd (sql_update p f rows) = 0 \<Longrightarrow> fst (sql_update p f rows) = rows"
  by (induction rows) (auto simp: sql_update_def split: if_splits)

lemma sql_find_Some: "sql_find p rows = Some r \<Longrightarrow> r \<in> set rows \<and> p r"
  by (auto simp: sql_find_def find_Some_iff)

lemma sql_find_None: "sql_find p rows = None \<longleftrightarrow> (\<forall>r \<in> set rows. \<not> p r)"
  by (auto simp: sql_find_def find_None_iff)

end
