(* ===== verification/Ton_Address.thy ===== *)
theory Ton_Address
  imports Prelude
begin

unbundle bit_operations_syntax

text \<open>
  \<open>backend/services/ton_address_identity.py\<close>: the strict parser of TON addresses.
  Raw addresses \<open>workchain:hex\<close> are unscoped; user-friendly addresses are 48 base64
  characters holding a tag byte, a signed workchain byte, 32 account bytes and a
  CRC16-CCITT checksum.  Bytes are \<open>nat\<close> below 256 and the checksum register is a
  \<open>nat\<close> below 65536 with the shift's wrap-around written out.
\<close>

section \<open>The identity record\<close>

datatype ton_network = Ton_Mainnet | Ton_Testnet | Ton_Unknown
datatype ton_address_format = User_Friendly | Raw_Format | Unrecognized
datatype ton_identity_status = Network_Scoped | Unscoped | Unavailable

fun ton_network_text :: "ton_network \<Rightarrow> string" where
  "ton_network_text Ton_Mainnet = ''ton-mainnet''"
| "ton_network_text Ton_Testnet = ''ton-testnet''"
| "ton_network_text Ton_Unknown = ''ton-unknown''"

definition version_std :: string where "version_std = ''ton_std_address_v1''"
definition version_raw :: string where "version_raw = ''ton_raw_address_v1''"
definition version_unavailable :: string where "version_unavailable = ''unavailable''"

record ton_identity =
  status :: ton_identity_status
  version :: string
  network :: ton_network
  canonical_address :: "string option"
  workchain_id :: "int option"
  account_id_hex :: "string option"
  submitted_format :: ton_address_format
  bounceable :: "bool option"
  testnet_only :: "bool option"

text \<open>The property \<open>TonAddressIdentity.scoped_key\<close>: an empty canonical address is falsy.\<close>

definition scoped_key :: "ton_identity \<Rightarrow> (ton_network \<times> string) option" where
  "scoped_key i =
    (if status i \<noteq> Network_Scoped then None
     else case canonical_address i of
       None \<Rightarrow> None
     | Some a \<Rightarrow> if a = [] then None else Some (network i, a))"

section \<open>Raw addresses\<close>

definition min_workchain :: int where "min_workchain = - (2 ^ 31)"
definition max_workchain :: int where "max_workchain = 2 ^ 31 - 1"

text \<open>First group of \<open>_RAW_ADDRESS_RE\<close>: \<open>0|[1-9][0-9]*|-[1-9][0-9]*\<close>.\<close>

definition is_raw_workchain :: "string \<Rightarrow> bool" where
  "is_raw_workchain s \<longleftrightarrow>
     is_canonical_nat s
     \<or> (s \<noteq> [] \<and> hd s = CHR ''-'' \<and> is_canonical_nat (tl s) \<and> tl s \<noteq> ''0'')"

definition raw_match :: "string \<Rightarrow> (string \<times> string) option" where
  "raw_match value =
    (let wc = takeWhile (\<lambda>c. c \<noteq> CHR '':'') value in
     case dropWhile (\<lambda>c. c \<noteq> CHR '':'') value of
       [] \<Rightarrow> None
     | _ # account \<Rightarrow>
         if is_raw_workchain wc \<and> length account = 64 \<and> list_all is_hex account
         then Some (wc, account) else None)"

definition raw_address :: "int \<Rightarrow> string \<Rightarrow> string" where
  "raw_address wc account = show_int wc @ CHR '':'' # account"

definition parse_raw :: "string \<Rightarrow> ton_identity option" where
  "parse_raw value =
    (case raw_match value of
       None \<Rightarrow> None
     | Some (wc_text, account_text) \<Rightarrow>
         let wc = read_int wc_text; account = map hex_lower account_text in
         if \<not> (min_workchain \<le> wc \<and> wc \<le> max_workchain) then None
         else Some \<lparr> status = Unscoped, version = version_raw, network = Ton_Unknown,
           canonical_address = Some (raw_address wc account), workchain_id = Some wc,
           account_id_hex = Some account, submitted_format = Raw_Format,
           bounceable = None, testnet_only = None \<rparr>)"

section \<open>Base64\<close>

definition std_alphabet :: string where
  "std_alphabet = ''ABCDEFGHIJKLMNOPQRSTUVWXYZabcdefghijklmnopqrstuvwxyz0123456789+/''"

definition url_alphabet :: string where
  "url_alphabet = ''ABCDEFGHIJKLMNOPQRSTUVWXYZabcdefghijklmnopqrstuvwxyz0123456789-_''"

fun index_of :: "'a list \<Rightarrow> 'a \<Rightarrow> nat option" where
  "index_of [] x = None"
| "index_of (y # ys) x = (if y = x then Some 0 else map_option Suc (index_of ys x))"

text \<open>Four sextets hold three bytes; \<open>base64.b64decode(validate=True)\<close> without padding.\<close>

fun sextets_to_bytes :: "nat list \<Rightarrow> nat list" where
  "sextets_to_bytes (a # b # c # d # rest) =
     (4 * a + b div 16) # (16 * (b mod 16) + c div 4) # (64 * (c mod 4) + d)
       # sextets_to_bytes rest"
| "sextets_to_bytes _ = []"

definition b64decode :: "string \<Rightarrow> string \<Rightarrow> nat list option" where
  "b64decode alphabet value =
    (if list_all (\<lambda>c. c \<in> set alphabet) value
     then Some (sextets_to_bytes (map (\<lambda>c. the (index_of alphabet c)) value))
     else None)"

definition decode_user_friendly :: "string \<Rightarrow> nat list option" where
  "decode_user_friendly value =
    (if length value \<noteq> 48 then None
     else
       let decoded =
         (if list_all (\<lambda>c. c \<in> set std_alphabet) value then b64decode std_alphabet value
          else if list_all (\<lambda>c. c \<in> set url_alphabet) value then b64decode url_alphabet value
          else None)
       in case decoded of
            None \<Rightarrow> None
          | Some bs \<Rightarrow> if length bs = 36 then Some bs else None)"

section \<open>CRC16-CCITT\<close>

definition crc_bit :: "nat \<Rightarrow> nat" where
  "crc_bit c = (if 32768 \<le> c then (2 * c - 65536) XOR 4129 else 2 * c)"

definition crc_byte :: "nat \<Rightarrow> nat \<Rightarrow> nat" where
  "crc_byte c b =
    crc_bit (crc_bit (crc_bit (crc_bit (crc_bit (crc_bit (crc_bit (crc_bit
      (c XOR (256 * b)))))))))"

fun crc_hqx :: "nat list \<Rightarrow> nat \<Rightarrow> nat" where
  "crc_hqx [] c = c"
| "crc_hqx (b # bs) c = crc_hqx bs (crc_byte c b)"

definition crc16_ccitt :: "nat list \<Rightarrow> nat" where
  "crc16_ccitt data = crc_hqx data 0"

definition be16 :: "nat \<Rightarrow> nat list" where
  "be16 n = [n div 256, n mod 256]"

section \<open>User-friendly addresses\<close>

definition signed_byte :: "nat \<Rightarrow> int" where
  "signed_byte b = (if b < 128 then int b else int b - 256)"

definition friendly_identity :: "nat list \<Rightarrow> ton_identity" where
  "friendly_identity payload =
    (let tag = payload ! 0; testnet = (tag AND 128 \<noteq> 0);
         wc = signed_byte (payload ! 1);
         account = bytes_hex (take 32 (drop 2 payload)) in
     \<lparr> status = Network_Scoped, version = version_std,
       network = (if testnet then Ton_Testnet else Ton_Mainnet),
       canonical_address = Some (raw_address wc account), workchain_id = Some wc,
       account_id_hex = Some account, submitted_format = User_Friendly,
       bounceable = Some (\<not> (tag AND 64 \<noteq> 0)), testnet_only = Some testnet \<rparr>)"

definition parse_user_friendly :: "string \<Rightarrow> ton_identity option" where
  "parse_user_friendly value =
    (case decode_user_friendly value of
       None \<Rightarrow> None
     | Some decoded \<Rightarrow>
         let payload = take 34 decoded; checksum = drop 34 decoded in
         if checksum \<noteq> be16 (crc16_ccitt payload) then None
         else if (payload ! 0) AND 63 \<noteq> 17 then None
         else Some (friendly_identity payload))"

section \<open>The entry points\<close>

definition parse_ton_address :: "pyval \<Rightarrow> ton_identity option" where
  "parse_ton_address v =
    (case v of
       PStr value \<Rightarrow>
         if value \<noteq> strip value \<or> value = [] then None
         else (case parse_raw value of Some i \<Rightarrow> Some i | None \<Rightarrow> parse_user_friendly value)
     | _ \<Rightarrow> None)"

definition unavailable_ton_identity :: ton_identity where
  "unavailable_ton_identity =
    \<lparr> status = Unavailable, version = version_unavailable, network = Ton_Unknown,
      canonical_address = None, workchain_id = None, account_id_hex = None,
      submitted_format = Unrecognized, bounceable = None, testnet_only = None \<rparr>"

definition derive_ton_wallet_identity :: "pyval \<Rightarrow> ton_network option \<Rightarrow> ton_identity" where
  "derive_ton_wallet_identity v network_context =
    (case parse_ton_address v of
       None \<Rightarrow> unavailable_ton_identity
     | Some i \<Rightarrow>
         (case network_context of
            Some n \<Rightarrow>
              if status i = Unscoped then i\<lparr>status := Network_Scoped, network := n\<rparr> else i
          | None \<Rightarrow> i))"

section \<open>The checksum detects every single-byte change\<close>

lemma xor_less: "(a::nat) < 2 ^ n \<Longrightarrow> b < 2 ^ n \<Longrightarrow> a XOR b < 2 ^ n"
  by (metis take_bit_nat_eq_self_iff take_bit_xor)

lemma xor_cancel: "(a::nat) XOR k = b XOR k \<Longrightarrow> a = b"
  by (metis xor.assoc xor_self_eq xor.right_neutral)

lemma xor_cancel_left: "(k::nat) XOR a = k XOR b \<Longrightarrow> a = b"
  by (metis xor.commute xor_cancel)

lemma crc_bit_less: "c < 65536 \<Longrightarrow> crc_bit c < 65536"
  using xor_less [of "2 * c - 65536" 16 4129] by (simp add: crc_bit_def)

text \<open>The low bit of the polynomial records which branch was taken, so a step is invertible.\<close>

lemma crc_bit_odd: "odd (crc_bit c) \<longleftrightarrow> 32768 \<le> c"
  by (auto simp: crc_bit_def even_xor_iff)

lemma crc_bit_inj: "crc_bit x = crc_bit y \<Longrightarrow> x < 65536 \<Longrightarrow> y < 65536 \<Longrightarrow> x = y"
  using crc_bit_odd [of x] crc_bit_odd [of y]
  by (auto simp: crc_bit_def split: if_splits dest!: xor_cancel)

lemma crc_state_less: "c < 65536 \<Longrightarrow> b < 256 \<Longrightarrow> c XOR (256 * b) < (65536 :: nat)"
  using xor_less [of c 16 "256 * b"] by simp

lemma crc_byte_less: "c < 65536 \<Longrightarrow> b < 256 \<Longrightarrow> crc_byte c b < 65536"
  by (simp add: crc_byte_def crc_bit_less crc_state_less)

lemma crc_byte_eqD:
  assumes eq: "crc_byte x a = crc_byte y b"
    and b: "x < 65536" "y < 65536" "a < 256" "b < 256"
  shows "x XOR (256 * a) = y XOR (256 * b)"
proof -
  have xa: "x XOR (256 * a) < 65536" and yb: "y XOR (256 * b) < 65536"
    using b by (auto intro: crc_state_less)
  show ?thesis
    by (rule crc_bit_inj [OF _ xa yb],
        (rule crc_bit_inj, use eq xa yb in \<open>auto simp: crc_byte_def crc_bit_less\<close>)+)
qed

lemma crc_byte_inj_state:
  "crc_byte x a = crc_byte y a \<Longrightarrow> x < 65536 \<Longrightarrow> y < 65536 \<Longrightarrow> a < 256 \<Longrightarrow> x = y"
  by (drule crc_byte_eqD) (auto dest: xor_cancel)

lemma crc_byte_inj_byte:
  "crc_byte x a = crc_byte x b \<Longrightarrow> x < 65536 \<Longrightarrow> a < 256 \<Longrightarrow> b < 256 \<Longrightarrow> a = b"
  by (drule crc_byte_eqD) (auto dest: xor_cancel_left)

lemma crc_hqx_less:
  "c < 65536 \<Longrightarrow> list_all (\<lambda>b. b < 256) bs \<Longrightarrow> crc_hqx bs c < 65536"
  by (induction bs arbitrary: c) (auto simp: crc_byte_less)

lemma crc_hqx_append: "crc_hqx (xs @ ys) c = crc_hqx ys (crc_hqx xs c)"
  by (induction xs arbitrary: c) auto

lemma crc_hqx_inj_state:
  "crc_hqx bs x = crc_hqx bs y \<Longrightarrow> x < 65536 \<Longrightarrow> y < 65536 \<Longrightarrow>
   list_all (\<lambda>b. b < 256) bs \<Longrightarrow> x = y"
proof (induction bs arbitrary: x y)
  case Nil
  then show ?case by simp
next
  case (Cons b bs)
  have b: "b < 256" and bs: "list_all (\<lambda>b. b < 256) bs"
    using Cons.prems(4) by simp_all
  have "crc_byte x b = crc_byte y b"
    using Cons.prems(1) Cons.prems(2,3) [THEN crc_byte_less, OF b] bs
    unfolding crc_hqx.simps by (rule Cons.IH)
  then show ?case by (rule crc_byte_inj_state [OF _ Cons.prems(2,3) b])
qed

lemma crc16_single_byte:
  assumes "list_all (\<lambda>b. b < 256) bs" "i < length bs" "x < 256" "x \<noteq> bs ! i"
  shows "crc16_ccitt (bs[i := x]) \<noteq> crc16_ccitt bs"
proof
  assume eq: "crc16_ccitt (bs[i := x]) = crc16_ccitt bs"
  let ?p = "take i bs" and ?s = "drop (Suc i) bs"
  have split: "bs = ?p @ (bs ! i) # ?s" and split': "bs[i := x] = ?p @ x # ?s"
    using assms(2) by (rule id_take_nth_drop, rule upd_conv_take_nth_drop)
  have ok: "list_all (\<lambda>b. b < 256) ?p" "list_all (\<lambda>b. b < 256) ?s" "bs ! i < 256"
    using assms(1,2) by (auto simp: list_all_length)
  let ?c = "crc_hqx ?p 0"
  have c: "?c < 65536" by (rule crc_hqx_less) (use ok in auto)
  have "crc_hqx ?s (crc_byte ?c x) = crc_hqx ?s (crc_byte ?c (bs ! i))"
  proof -
    have "crc_hqx (?p @ x # ?s) 0 = crc_hqx (?p @ (bs ! i) # ?s) 0"
      using eq unfolding crc16_ccitt_def split' split [symmetric] .
    then show ?thesis by (simp add: crc_hqx_append)
  qed
  then have "crc_byte ?c x = crc_byte ?c (bs ! i)"
    by (rule crc_hqx_inj_state) (use c ok assms(3) in \<open>simp_all add: crc_byte_less\<close>)
  then have "x = bs ! i"
    by (rule crc_byte_inj_byte) (use c ok assms(3) in simp_all)
  with assms(4) show False by simp
qed

lemma be16_inj: "be16 a = be16 b \<Longrightarrow> a = b"
  unfolding be16_def by (metis div_mult_mod_eq list.inject)

section \<open>The standard encoding\<close>

text \<open>
  Specification-level encoder: the 36 bytes of an address (payload and checksum) written
  in a base64 alphabet.
\<close>

fun bytes_to_sextets :: "nat list \<Rightarrow> nat list" where
  "bytes_to_sextets (x # y # z # rest) =
     (x div 4) # (16 * (x mod 4) + y div 16) # (4 * (y mod 16) + z div 64) # (z mod 64)
       # bytes_to_sextets rest"
| "bytes_to_sextets _ = []"

definition friendly_text :: "string \<Rightarrow> nat list \<Rightarrow> string" where
  "friendly_text alphabet payload =
     map ((!) alphabet) (bytes_to_sextets (payload @ be16 (crc16_ccitt payload)))"

lemma sextets_roundtrip:
  "length bs mod 3 = 0 \<Longrightarrow> list_all (\<lambda>b. b < 256) bs \<Longrightarrow>
   sextets_to_bytes (bytes_to_sextets bs) = bs"
proof (induction bs rule: bytes_to_sextets.induct)
  case (1 x y z rest)
  have "4 * (x div 4) + (16 * (x mod 4) + y div 16) div 16 = x"
    and "16 * ((16 * (x mod 4) + y div 16) mod 16) + (4 * (y mod 16) + z div 64) div 4 = y"
    and "64 * ((4 * (y mod 16) + z div 64) mod 4) + z mod 64 = z"
    using "1.prems"(2) by (auto simp: div_mult_self1 less_mult_imp_div_less)
  with 1 show ?case by simp
qed auto

lemma sextets_less:
  "list_all (\<lambda>b. b < 256) bs \<Longrightarrow> list_all (\<lambda>b. b < 64) (bytes_to_sextets bs)"
  by (induction bs rule: bytes_to_sextets.induct) auto

lemma sextets_length: "length bs mod 3 = 0 \<Longrightarrow> length (bytes_to_sextets bs) = 4 * (length bs div 3)"
  by (induction bs rule: bytes_to_sextets.induct) auto

lemma index_of_nth: "distinct xs \<Longrightarrow> n < length xs \<Longrightarrow> index_of xs (xs ! n) = Some n"
proof (induction xs arbitrary: n)
  case Nil
  then show ?case by simp
next
  case (Cons x xs)
  then show ?case by (cases n) auto
qed

lemma alphabet_facts:
  "length std_alphabet = 64" "distinct std_alphabet"
  "length url_alphabet = 64" "distinct url_alphabet"
  by (simp_all add: std_alphabet_def url_alphabet_def)

lemma alphabets_agree:
  "c \<in> set std_alphabet \<Longrightarrow> c \<in> set url_alphabet \<Longrightarrow>
   index_of std_alphabet c = index_of url_alphabet c"
proof -
  have "\<forall>c \<in> set std_alphabet. c \<in> set url_alphabet \<longrightarrow>
      index_of std_alphabet c = index_of url_alphabet c"
    by (simp add: std_alphabet_def url_alphabet_def)
  then show "c \<in> set std_alphabet \<Longrightarrow> c \<in> set url_alphabet \<Longrightarrow> ?thesis" by blast
qed

lemma alphabet_plain:
  "c \<in> set std_alphabet \<union> set url_alphabet \<Longrightarrow> c \<noteq> CHR '':'' \<and> \<not> is_space c"
proof -
  have "\<forall>c \<in> set std_alphabet \<union> set url_alphabet. c \<noteq> CHR '':'' \<and> \<not> is_space c"
    by (simp add: std_alphabet_def url_alphabet_def is_space_def)
  then show "c \<in> set std_alphabet \<union> set url_alphabet \<Longrightarrow> ?thesis" by blast
qed

definition is_alphabet :: "string \<Rightarrow> bool" where
  "is_alphabet al \<longleftrightarrow> al = std_alphabet \<or> al = url_alphabet"

lemma is_alphabet_facts:
  "is_alphabet al \<Longrightarrow> length al = 64 \<and> distinct al"
  by (auto simp: is_alphabet_def alphabet_facts)

lemma b64decode_nths:
  assumes al: "is_alphabet al" and s: "list_all (\<lambda>n. n < 64) ns"
  shows "b64decode al (map ((!) al) ns) = Some (sextets_to_bytes ns)"
proof -
  have "map (\<lambda>c. the (index_of al c)) (map ((!) al) ns) = ns"
    using s is_alphabet_facts [OF al] by (induction ns) (auto simp: index_of_nth)
  moreover have "list_all (\<lambda>c. c \<in> set al) (map ((!) al) ns)"
    using s is_alphabet_facts [OF al] by (induction ns) auto
  ultimately show ?thesis by (simp add: b64decode_def)
qed

lemma b64decode_agree:
  "list_all (\<lambda>c. c \<in> set std_alphabet) s \<Longrightarrow> list_all (\<lambda>c. c \<in> set url_alphabet) s \<Longrightarrow>
   b64decode std_alphabet s = b64decode url_alphabet s"
  using alphabets_agree by (auto simp: b64decode_def list_all_iff intro!: arg_cong [where f = sextets_to_bytes])

lemma decode_user_friendly_nths:
  assumes al: "is_alphabet al" and ns: "list_all (\<lambda>n. n < 64) ns" "length ns = 48"
    and out: "length (sextets_to_bytes ns) = 36"
  shows "decode_user_friendly (map ((!) al) ns) = Some (sextets_to_bytes ns)"
proof -
  let ?s = "map ((!) al) ns"
  have mem: "list_all (\<lambda>c. c \<in> set al) ?s"
    using ns is_alphabet_facts [OF al] by (auto simp: list_all_iff)
  have dec: "b64decode al ?s = Some (sextets_to_bytes ns)"
    by (rule b64decode_nths [OF al ns(1)])
  show ?thesis
    using al mem dec ns(2) out b64decode_agree [of ?s]
    by (auto simp: decode_user_friendly_def is_alphabet_def)
qed

text \<open>What the decoder accepts is 36 bytes.\<close>

lemma sextets_to_bytes_less:
  "list_all (\<lambda>n. n < 64) ns \<Longrightarrow> list_all (\<lambda>b. b < 256) (sextets_to_bytes ns)"
  by (induction ns rule: sextets_to_bytes.induct) auto

lemma index_of_Some: "x \<in> set xs \<Longrightarrow> \<exists>n < length xs. index_of xs x = Some n"
  by (induction xs) auto

lemma b64decode_less:
  assumes "b64decode al s = Some bs" "is_alphabet al"
  shows "list_all (\<lambda>b. b < 256) bs"
proof -
  have "the (index_of al c) < 64" if "c \<in> set s" for c
    using assms that index_of_Some [of c al] is_alphabet_facts [of al]
    by (auto simp: b64decode_def list_all_iff split: if_splits)
  then have "list_all (\<lambda>n. n < 64) (map (\<lambda>c. the (index_of al c)) s)"
    by (auto simp: list_all_iff)
  then show ?thesis
    using assms sextets_to_bytes_less by (auto simp: b64decode_def split: if_splits)
qed

lemma decode_user_friendly_bytes:
  "decode_user_friendly s = Some bs \<Longrightarrow> length bs = 36 \<and> list_all (\<lambda>b. b < 256) bs"
  by (auto simp: decode_user_friendly_def Let_def is_alphabet_def b64decode_less
      split: if_splits option.splits)

text \<open>\<open>b < 256\<close> for every byte of a 34-byte payload, and a tag the parser knows.\<close>

definition valid_payload :: "nat list \<Rightarrow> bool" where
  "valid_payload p \<longleftrightarrow>
     length p = 34 \<and> list_all (\<lambda>b. b < 256) p \<and> (p ! 0) AND 63 = 17"

lemma be16_bytes: "n < 65536 \<Longrightarrow> list_all (\<lambda>b. b < 256) (be16 n) \<and> length (be16 n) = 2"
  by (auto simp: be16_def)

lemma friendly_text_decodes:
  assumes "is_alphabet al" "valid_payload p"
  shows "decode_user_friendly (friendly_text al p) = Some (p @ be16 (crc16_ccitt p))"
proof -
  let ?d = "p @ be16 (crc16_ccitt p)"
  have p: "length p = 34" "list_all (\<lambda>b. b < 256) p" using assms(2) by (auto simp: valid_payload_def)
  then have "crc16_ccitt p < 65536" by (simp add: crc16_ccitt_def crc_hqx_less)
  with p be16_bytes have d: "length ?d = 36" "list_all (\<lambda>b. b < 256) ?d" by auto
  then have rt: "sextets_to_bytes (bytes_to_sextets ?d) = ?d"
    and len: "length (bytes_to_sextets ?d) = 48"
    by (simp_all add: sextets_roundtrip sextets_length)
  show ?thesis
    using decode_user_friendly_nths [OF assms(1) sextets_less [OF d(2)] len] rt d(1)
    by (simp add: friendly_text_def)
qed

lemma parse_friendly_text:
  assumes "is_alphabet al" "valid_payload p"
  shows "parse_user_friendly (friendly_text al p) = Some (friendly_identity p)"
  using friendly_text_decodes [OF assms] assms(2)
  by (simp add: parse_user_friendly_def valid_payload_def)

lemma raw_match_no_colon:
  assumes "CHR '':'' \<notin> set s"
  shows "raw_match s = None"
proof -
  have "dropWhile (\<lambda>c. c \<noteq> CHR '':'') s = []"
    using assms by (auto simp: dropWhile_eq_Nil_conv)
  then show ?thesis unfolding raw_match_def Let_def by (simp only: list.case)
qed

lemma dropWhile_none: "\<forall>c \<in> set s. \<not> P c \<Longrightarrow> dropWhile P s = s"
  by (cases s) auto

lemma strip_plain: "\<forall>c \<in> set s. \<not> is_space c \<Longrightarrow> strip s = s"
  by (simp add: strip_def dropWhile_none)

lemma friendly_text_chars:
  assumes "is_alphabet al" "valid_payload p"
  shows "set (friendly_text al p) \<subseteq> set std_alphabet \<union> set url_alphabet"
    and "length (friendly_text al p) = 48"
proof -
  have "length (friendly_text al p) = 48 \<and>
     list_all (\<lambda>c. c \<in> set std_alphabet \<union> set url_alphabet) (friendly_text al p)"
    using friendly_text_decodes [OF assms]
    by (auto simp: decode_user_friendly_def list_all_iff split: if_splits)
  then show "set (friendly_text al p) \<subseteq> set std_alphabet \<union> set url_alphabet"
    and "length (friendly_text al p) = 48" by (auto simp: list_all_iff)
qed


section \<open>Canonical addresses\<close>

definition in_workchain_range :: "int \<Rightarrow> bool" where
  "in_workchain_range wc \<longleftrightarrow> min_workchain \<le> wc \<and> wc \<le> max_workchain"

definition raw_identity :: "int \<Rightarrow> string \<Rightarrow> ton_identity" where
  "raw_identity wc account =
     \<lparr> status = Unscoped, version = version_raw, network = Ton_Unknown,
       canonical_address = Some (raw_address wc account), workchain_id = Some wc,
       account_id_hex = Some account, submitted_format = Raw_Format,
       bounceable = None, testnet_only = None \<rparr>"

lemma show_int_canonical: "is_raw_workchain (show_int i)"
proof (cases "i < 0")
  case True
  then have "show_nat (nat (- i)) \<noteq> ''0''"
    using read_show_nat [of "nat (- i)"] by (auto simp: read_nat_def digit_val_def)
  with True show ?thesis by (simp add: is_raw_workchain_def show_int_def canonical_show_nat)
next
  case False
  then show ?thesis by (simp add: is_raw_workchain_def show_int_def canonical_show_nat)
qed

lemma show_int_chars: "c \<in> set (show_int i) \<Longrightarrow> c \<noteq> CHR '':'' \<and> \<not> is_space c"
proof -
  assume c: "c \<in> set (show_int i)"
  have "c = CHR ''-'' \<or> is_digit c"
    using c show_nat_digits by (auto simp: show_int_def list_all_iff split: if_splits)
  then show ?thesis by (auto simp: is_digit_def dec_digits_def is_space_def)
qed

lemma is_hex_chars: "is_hex c \<Longrightarrow> c \<noteq> CHR '':'' \<and> \<not> is_space c"
  by (auto simp: is_hex_def is_space_def)

lemma raw_match_address:
  assumes "list_all is_hex account" "length account = 64"
  shows "raw_match (raw_address wc account) = Some (show_int wc, account)"
proof -
  have "takeWhile (\<lambda>c. c \<noteq> CHR '':'') (raw_address wc account) = show_int wc"
    and "dropWhile (\<lambda>c. c \<noteq> CHR '':'') (raw_address wc account) = CHR '':'' # account"
    using show_int_chars [of _ wc] by (auto simp: raw_address_def takeWhile_append dropWhile_append)
  then show ?thesis
    using assms show_int_canonical [of wc] unfolding raw_match_def Let_def by (simp only: list.case) simp
qed

lemma raw_address_strip:
  "list_all is_hex account \<Longrightarrow> strip (raw_address wc account) = raw_address wc account"
  using show_int_chars [of _ wc] is_hex_chars
  by (intro strip_plain) (auto simp: raw_address_def list_all_iff is_space_def)

lemma parse_raw_address:
  assumes "list_all is_lower_hex account" "length account = 64" "in_workchain_range wc"
  shows "parse_ton_address (PStr (raw_address wc account)) = Some (raw_identity wc account)"
proof -
  have hex: "list_all is_hex account"
    using assms(1) by (auto simp: list_all_iff is_lower_hex_is_hex)
  have "parse_raw (raw_address wc account) = Some (raw_identity wc account)"
    using assms by (simp add: parse_raw_def raw_match_address [OF hex] raw_identity_def
        map_hex_lower_id in_workchain_range_def)
  moreover have "raw_address wc account \<noteq> []" by (simp add: raw_address_def)
  ultimately show ?thesis by (simp add: parse_ton_address_def raw_address_strip [OF hex])
qed

text \<open>What every accepted address carries.\<close>

definition well_formed_identity :: "ton_identity \<Rightarrow> bool" where
  "well_formed_identity i \<longleftrightarrow>
     (\<exists>wc account. workchain_id i = Some wc \<and> account_id_hex i = Some account \<and>
        canonical_address i = Some (raw_address wc account) \<and> in_workchain_range wc \<and>
        length account = 64 \<and> list_all is_lower_hex account)"

lemma raw_match_Some:
  "raw_match s = Some (w, a) \<Longrightarrow> length a = 64 \<and> list_all is_hex a"
  unfolding raw_match_def Let_def
  by (cases "dropWhile (\<lambda>c. c \<noteq> CHR '':'') s") (simp_all split: if_splits)

lemma parse_raw_well_formed: "parse_raw s = Some i \<Longrightarrow> well_formed_identity i"
  by (auto simp: parse_raw_def well_formed_identity_def in_workchain_range_def Let_def
      list_all_hex_lower dest!: raw_match_Some split: option.splits if_splits)

lemma signed_byte_range: "b < 256 \<Longrightarrow> in_workchain_range (signed_byte b)"
  by (auto simp: signed_byte_def in_workchain_range_def min_workchain_def max_workchain_def)

lemma friendly_identity_well_formed:
  assumes "length p = 34" "list_all (\<lambda>b. b < 256) p"
  shows "well_formed_identity (friendly_identity p)"
proof -
  have "list_all is_lower_hex (bytes_hex (take 32 (drop 2 p)))"
    by (rule bytes_hex_lower) (use assms(2) in \<open>auto simp: list_all_iff dest: in_set_takeD in_set_dropD\<close>)
  moreover have "p ! 1 < 256" using assms by (simp add: list_all_length)
  ultimately show ?thesis
    using assms(1)
    by (simp add: friendly_identity_def Let_def well_formed_identity_def signed_byte_range)
qed

lemma parse_user_friendly_Some:
  "parse_user_friendly s = Some i \<Longrightarrow>
   \<exists>p. i = friendly_identity p \<and> length p = 34 \<and> list_all (\<lambda>b. b < 256) p \<and> p ! 0 AND 63 = 17"
  by (auto simp: parse_user_friendly_def Let_def dest!: decode_user_friendly_bytes
      split: option.splits if_splits intro!: exI [of _ "take 34 _"] simp: list_all_length)

lemma parse_ton_address_cases:
  "parse_ton_address v = Some i \<Longrightarrow>
   \<exists>s. v = PStr s \<and> (parse_raw s = Some i \<or> parse_raw s = None \<and> parse_user_friendly s = Some i)"
  by (auto simp: parse_ton_address_def split: pyval.splits if_splits option.splits)

lemma parse_well_formed: "parse_ton_address v = Some i \<Longrightarrow> well_formed_identity i"
  by (auto dest!: parse_ton_address_cases parse_user_friendly_Some
      intro: parse_raw_well_formed friendly_identity_well_formed)

lemma takeWhile_address:
  "takeWhile (\<lambda>c. c \<noteq> CHR '':'') (raw_address wc account) = show_int wc"
  using show_int_chars [of _ wc] by (simp add: raw_address_def takeWhile_append)

lemma raw_address_inj: "raw_address w a = raw_address w' a' \<longleftrightarrow> w = w' \<and> a = a'"
proof
  assume eq: "raw_address w a = raw_address w' a'"
  then have "show_int w = show_int w'" by (metis takeWhile_address)
  then have "w = w'" by (metis read_show_int)
  with eq show "w = w' \<and> a = a'" by (simp add: raw_address_def)
qed simp


section \<open>Properties\<close>

text \<open>C30: every standard encoding of an account, in either base64 alphabet, is accepted and
  parsed to exactly the flags, workchain and account bytes it encodes.\<close>

theorem parse_friendly_roundtrip:
  assumes "is_alphabet al" "valid_payload p"
  shows "parse_ton_address (PStr (friendly_text al p)) = Some (friendly_identity p)"
proof -
  have plain: "\<forall>c \<in> set (friendly_text al p). c \<noteq> CHR '':'' \<and> \<not> is_space c"
    using friendly_text_chars(1) [OF assms] alphabet_plain by blast
  then have "\<forall>c \<in> set (friendly_text al p). \<not> is_space c" by blast
  then have "strip (friendly_text al p) = friendly_text al p" by (rule strip_plain)
  moreover from plain have "CHR '':'' \<notin> set (friendly_text al p)" by blast
  then have "parse_raw (friendly_text al p) = None"
    by (simp add: parse_raw_def raw_match_no_colon)
  moreover have "friendly_text al p \<noteq> []"
    using friendly_text_chars(2) [OF assms] by auto
  ultimately show ?thesis
    by (simp add: parse_ton_address_def parse_friendly_text [OF assms])
qed

definition sample_payload :: "nat list" where
  "sample_payload = [17, 255, 51, 51, 51, 51, 51, 51, 51, 51, 51, 51, 51, 51, 51, 51, 51, 51,
     51, 51, 51, 51, 51, 51, 51, 51, 51, 51, 51, 51, 51, 51, 51, 51]"

lemma sample_payload_valid: "valid_payload sample_payload"
  by (simp add: valid_payload_def sample_payload_def)

lemma sample_payload_crc: "crc16_ccitt sample_payload = 19397"
  by (simp add: crc16_ccitt_def sample_payload_def crc_byte_def crc_bit_def)

lemma sample_payload_text:
  "friendly_text url_alphabet sample_payload = ''Ef8zMzMzMzMzMzMzMzMzMzMzMzMzMzMzMzMzMzMzMzMzM0vF''"
  unfolding friendly_text_def sample_payload_crc
  by (simp add: sample_payload_def be16_def url_alphabet_def)

lemma parse_friendly_roundtrip_witness:
  "\<exists>i. parse_ton_address (PStr ''Ef8zMzMzMzMzMzMzMzMzMzMzMzMzMzMzMzMzMzMzMzMzM0vF'') = Some i \<and>
     network i = Ton_Mainnet \<and> workchain_id i = Some (-1) \<and> bounceable i = Some True"
proof -
  have "parse_ton_address (PStr (friendly_text url_alphabet sample_payload))
      = Some (friendly_identity sample_payload)"
    by (rule parse_friendly_roundtrip) (simp_all add: is_alphabet_def sample_payload_valid)
  moreover have "network (friendly_identity sample_payload) = Ton_Mainnet"
    and "workchain_id (friendly_identity sample_payload) = Some (-1)"
    and "bounceable (friendly_identity sample_payload) = Some True"
    by (simp_all add: friendly_identity_def sample_payload_def signed_byte_def Let_def)
  ultimately show ?thesis unfolding sample_payload_text by blast
qed

text \<open>C31: an address that parses stays the only valid one among all strings whose decoded
  bytes differ from it in exactly one byte: the checksum rejects every such corruption.\<close>

theorem friendly_single_byte_rejected:
  assumes ok: "parse_user_friendly s = Some i" and dec: "decode_user_friendly s = Some d"
    and dec': "decode_user_friendly s' = Some (d[k := x])" and k: "k < 36" "x \<noteq> d ! k"
  shows "parse_user_friendly s' = None"
proof -
  have d: "length d = 36" "list_all (\<lambda>b. b < 256) d"
    and d': "list_all (\<lambda>b. b < 256) (d[k := x])"
    using decode_user_friendly_bytes [OF dec] decode_user_friendly_bytes [OF dec'] by auto
  have x: "x < 256" using d' d k by (auto simp: list_all_length)
  have sum: "drop 34 d = be16 (crc16_ccitt (take 34 d))"
    using ok dec by (auto simp: parse_user_friendly_def Let_def split: if_splits)
  have "drop 34 (d[k := x]) \<noteq> be16 (crc16_ccitt (take 34 (d[k := x])))"
  proof (cases "k < 34")
    case True
    have "crc16_ccitt ((take 34 d)[k := x]) \<noteq> crc16_ccitt (take 34 d)"
      using True d k x by (intro crc16_single_byte) (auto simp: list_all_length)
    with True sum show ?thesis by (auto simp: take_update_swap dest: be16_inj)
  next
    case False
    then have "take 34 (d[k := x]) = take 34 d" by simp
    moreover have "drop 34 (d[k := x]) \<noteq> drop 34 d"
    proof
      assume "drop 34 (d[k := x]) = drop 34 d"
      then have "drop 34 (d[k := x]) ! (k - 34) = drop 34 d ! (k - 34)" by simp
      with False d k show False by simp
    qed
    ultimately show ?thesis using sum by simp
  qed
  with dec' show ?thesis by (simp add: parse_user_friendly_def)
qed
lemma sample_payload_parses:
  "parse_ton_address (PStr (friendly_text url_alphabet sample_payload))
     = Some (friendly_identity sample_payload)"
  "parse_user_friendly (friendly_text url_alphabet sample_payload)
     = Some (friendly_identity sample_payload)"
  "decode_user_friendly (friendly_text url_alphabet sample_payload)
     = Some (sample_payload @ [75, 197])"
proof -
  have al: "is_alphabet url_alphabet" by (simp add: is_alphabet_def)
  show "parse_user_friendly (friendly_text url_alphabet sample_payload)
     = Some (friendly_identity sample_payload)"
    by (rule parse_friendly_text [OF al sample_payload_valid])
  then show "parse_ton_address (PStr (friendly_text url_alphabet sample_payload))
     = Some (friendly_identity sample_payload)"
    by (simp add: parse_ton_address_def sample_payload_text parse_raw_def raw_match_def
        strip_def is_space_def)
  show "decode_user_friendly (friendly_text url_alphabet sample_payload)
     = Some (sample_payload @ [75, 197])"
    using friendly_text_decodes [OF al sample_payload_valid]
    by (simp add: sample_payload_crc be16_def)
qed

lemma corrupted_payload_decodes:
  "decode_user_friendly ''Ef8zMzMzMzMzMzMzMzMzMzMzMzMzMzMzMzMzMzMzMzMzM0vE''
     = Some ((sample_payload @ [75, 197])[35 := 196])"
  by (simp add: decode_user_friendly_def std_alphabet_def b64decode_def sample_payload_def)

lemma friendly_single_byte_rejected_witness:
  "parse_user_friendly ''Ef8zMzMzMzMzMzMzMzMzMzMzMzMzMzMzMzMzMzMzMzMzM0vE'' = None"
  by (rule friendly_single_byte_rejected [OF sample_payload_parses(2,3) corrupted_payload_decodes])
    (simp_all add: sample_payload_def)

text \<open>the canonical address of every accepted address is itself an accepted raw address
  with the same workchain and account, and is its own canonical form.\<close>

theorem canonical_address_reparses:
  assumes "parse_ton_address v = Some i"
  shows "\<exists>a wc account. canonical_address i = Some a \<and> workchain_id i = Some wc \<and>
     account_id_hex i = Some account \<and>
     parse_ton_address (PStr a) = Some (raw_identity wc account) \<and>
     canonical_address (raw_identity wc account) = Some a"
  using parse_well_formed [OF assms] parse_raw_address
  by (auto simp: well_formed_identity_def raw_identity_def)

definition sample_account :: string where
  "sample_account = ''3333333333333333333333333333333333333333333333333333333333333333''"

lemma sample_raw_parses:
  "parse_ton_address (PStr (raw_address (-1) sample_account))
     = Some (raw_identity (-1) sample_account)"
  by (rule parse_raw_address)
    (simp_all add: sample_account_def is_lower_hex_def hex_digits_def in_workchain_range_def
      min_workchain_def max_workchain_def)

lemma canonical_address_reparses_witness:
  "\<exists>a wc account. canonical_address (friendly_identity sample_payload) = Some a \<and>
     workchain_id (friendly_identity sample_payload) = Some wc \<and>
     account_id_hex (friendly_identity sample_payload) = Some account \<and>
     parse_ton_address (PStr a) = Some (raw_identity wc account) \<and>
     canonical_address (raw_identity wc account) = Some a"
  by (rule canonical_address_reparses [OF sample_payload_parses(1)])

text \<open>two accepted addresses, however they were written, have the same canonical address
  exactly when they name the same workchain and account.\<close>

theorem canonical_address_determines_account:
  assumes "parse_ton_address v = Some i" "parse_ton_address v' = Some j"
  shows "canonical_address i = canonical_address j \<longleftrightarrow>
     workchain_id i = workchain_id j \<and> account_id_hex i = account_id_hex j"
  using parse_well_formed [OF assms(1)] parse_well_formed [OF assms(2)]
  by (auto simp: well_formed_identity_def raw_address_inj)
lemma canonical_address_determines_account_witness:
  "canonical_address (friendly_identity sample_payload)
     = canonical_address (raw_identity (-1) sample_account)"
  unfolding canonical_address_determines_account [OF sample_payload_parses(1) sample_raw_parses]
  by (simp add: friendly_identity_def raw_identity_def sample_payload_def sample_account_def
      signed_byte_def bytes_hex_def hex_of_byte_def hex_digits_def Let_def)

end
