(* ===== verification/Ton_Identity.thy ===== *)
theory Ton_Identity
  imports Ton_Address
begin

text \<open>
  \<open>backend/services/ton_transaction_identity.py\<close> and
  \<open>backend/services/ton_event_action_identity.py\<close>: the versioned identity keys of
  account transactions and of provider event actions.  Arguments are dynamically typed,
  as in the source; every failed check returns the explicit unavailable record.  Constant
  \<open>False\<close> fields of the two dataclasses are left out of the records.
\<close>

section \<open>Shared canonical fields\<close>

fun join :: "string \<Rightarrow> string list \<Rightarrow> string" where
  "join sep [] = []"
| "join sep [x] = x"
| "join sep (x # y # rest) = x @ sep @ join sep (y # rest)"

definition known_identity_version :: "pyval \<Rightarrow> bool" where
  "known_identity_version v \<longleftrightarrow>
     v = PStr ''ton_std_address_v1'' \<or> v = PStr ''ton_raw_address_v1''"

definition known_network :: "pyval \<Rightarrow> string option" where
  "known_network v =
    (if v = PStr ''ton-mainnet'' \<or> v = PStr ''ton-testnet'' then as_str v else None)"

text \<open>\<open>_canonical_account_address\<close> of the transaction identity.\<close>

definition canonical_account ::
  "pyval \<Rightarrow> pyval \<Rightarrow> pyval \<Rightarrow> pyval \<Rightarrow> pyval \<Rightarrow> string option" where
  "canonical_account v identity_status identity_version wc account =
    (if identity_status \<noteq> PStr ''network_scoped'' then None
     else if \<not> known_identity_version identity_version then None
     else case parse_ton_address v of
       None \<Rightarrow> None
     | Some i \<Rightarrow>
         if submitted_format i \<noteq> Raw_Format then None
         else if map_option PStr (canonical_address i) \<noteq> Some v then None
         else if \<not> py_eq (case workchain_id i of None \<Rightarrow> PNone | Some w \<Rightarrow> PInt w) wc then None
         else if map_option PStr (account_id_hex i) \<noteq> Some account then None
         else canonical_address i)"

definition max_logical_time :: nat where "max_logical_time = 2 ^ 64 - 1"

definition canonical_hash :: "pyval \<Rightarrow> string option" where
  "canonical_hash v =
    (case v of
       PStr s \<Rightarrow> if length s = 64 \<and> list_all is_hex s then Some (map hex_lower s) else None
     | _ \<Rightarrow> None)"

section \<open>Transactions\<close>

definition tx_version :: string where "tx_version = ''ton_account_tx_v1''"

text \<open>The regular expression does not bound the digits, so the conversion itself can raise.\<close>

definition tx_logical_time :: "pyval \<Rightarrow> (py_error, string option) result" where
  "tx_logical_time v =
    (case v of
       PStr s \<Rightarrow>
         if \<not> is_canonical_nat s then Inr None
         else if max_str_digits < length s then Inl ValueError
         else if read_nat s = 0 \<or> max_logical_time < read_nat s then Inr None
         else Inr (Some s)
     | _ \<Rightarrow> Inr None)"

record tx_identity =
  tx_status :: ton_identity_status
  tx_version_text :: string
  tx_network :: string
  tx_account :: "string option"
  tx_lt :: "string option"
  tx_hash :: "string option"
  tx_key :: "string option"
  tx_is_dedup :: bool

definition unavailable_tx_identity :: tx_identity where
  "unavailable_tx_identity =
    \<lparr> tx_status = Unavailable, tx_version_text = ''unavailable'', tx_network = ''ton-unknown'',
      tx_account = None, tx_lt = None, tx_hash = None, tx_key = None, tx_is_dedup = False \<rparr>"

definition tx_key_text :: "string \<Rightarrow> string \<Rightarrow> string \<Rightarrow> string \<Rightarrow> string" where
  "tx_key_text net account lt hash = join ''|'' [tx_version, net, account, lt, hash]"

text \<open>Keyword arguments of \<open>derive_ton_transaction_identity\<close>.\<close>

record tx_args =
  a_network :: pyval
  a_account :: pyval
  a_identity_status :: pyval
  a_identity_version :: pyval
  a_workchain :: pyval
  a_account_hex :: pyval
  a_logical_time :: pyval
  a_hash :: pyval
  a_data_mode :: pyval
  a_source_status :: pyval
  a_provider :: pyval
  a_raw :: pyval

text \<open>The checks before the fields are canonicalised.\<close>

definition tx_eligible :: "tx_args \<Rightarrow> bool" where
  "tx_eligible a \<longleftrightarrow>
     known_network (a_network a) \<noteq> None \<and>
     a_data_mode a = PStr ''real'' \<and> a_source_status a = PStr ''live'' \<and>
     a_provider a = PStr ''tonapi'' \<and>
     (case a_raw a of
        PDict raw \<Rightarrow>
          dget raw ''provider'' = PStr ''tonapi'' \<and> dget raw ''surface'' = PStr ''transactions'' \<and>
          py_eq (dget raw ''tx_hash'') (a_hash a) \<and>
          py_eq (dget raw ''logical_time'') (a_logical_time a)
      | _ \<Rightarrow> False)"

definition derive_ton_transaction_identity :: "tx_args \<Rightarrow> (py_error, tx_identity) result" where
  "derive_ton_transaction_identity a =
    (if \<not> tx_eligible a then Inr unavailable_tx_identity
     else bind_result (tx_logical_time (a_logical_time a)) (\<lambda>lt'.
       case (canonical_account (a_account a) (a_identity_status a) (a_identity_version a)
               (a_workchain a) (a_account_hex a), lt', canonical_hash (a_hash a)) of
         (Some account, Some lt, Some hash) \<Rightarrow>
           let net = the (known_network (a_network a)) in
           Inr \<lparr> tx_status = Network_Scoped, tx_version_text = tx_version, tx_network = net,
             tx_account = Some account, tx_lt = Some lt, tx_hash = Some hash,
             tx_key = Some (tx_key_text net account lt hash), tx_is_dedup = True \<rparr>
       | _ \<Rightarrow> Inr unavailable_tx_identity))"

definition truthy_text :: "string option \<Rightarrow> bool" where
  "truthy_text o' = (case o' of None \<Rightarrow> False | Some s \<Rightarrow> s \<noteq> [])"

definition tx_scoped_key :: "tx_identity \<Rightarrow> (string \<times> string \<times> string \<times> string) option" where
  "tx_scoped_key i =
    (if tx_status i \<noteq> Network_Scoped then None
     else if \<not> (truthy_text (tx_account i) \<and> truthy_text (tx_lt i) \<and> truthy_text (tx_hash i))
       then None
     else Some (tx_network i, the (tx_account i), the (tx_lt i), the (tx_hash i)))"

section \<open>Event actions\<close>

definition event_version :: string where "event_version = ''tonapi_event_action_obs_v1''"

definition max_action_index :: int where "max_action_index = 2 ^ 31 - 1"

text \<open>\<open>_ACTION_TYPES_BY_SURFACE\<close>; other surfaces have no entry.\<close>

definition action_types_by_surface :: "pyval \<Rightarrow> string list option" where
  "action_types_by_surface surface =
    (if surface = PStr ''transfers'' then Some [''TonTransfer'', ''JettonTransfer'']
     else if surface = PStr ''swaps'' then Some [''JettonSwap''] else None)"

definition event_account ::
  "pyval \<Rightarrow> pyval \<Rightarrow> pyval \<Rightarrow> pyval \<Rightarrow> pyval \<Rightarrow> string option" where
  "event_account v identity_status identity_version wc account =
    (case wc of
       PInt _ \<Rightarrow> canonical_account v identity_status identity_version wc account
     | _ \<Rightarrow> None)"

text \<open>\<open>[1-9][0-9]{0,19}\<close>, at most \<open>2^64 - 1\<close>.\<close>

definition event_logical_time :: "pyval \<Rightarrow> string option" where
  "event_logical_time v =
    (case v of
       PStr s \<Rightarrow>
         if \<not> (s \<noteq> [] \<and> length s \<le> 20 \<and> hd s \<noteq> CHR ''0'' \<and> list_all is_digit s) then None
         else if max_logical_time < read_nat s then None else Some s
     | _ \<Rightarrow> None)"

definition canonical_action_index :: "pyval \<Rightarrow> int option" where
  "canonical_action_index v =
    (case v of
       PInt i \<Rightarrow> if 0 \<le> i \<and> i \<le> max_action_index then Some i else None
     | _ \<Rightarrow> None)"

datatype event_status = Provider_Scoped | Event_Unavailable

record event_identity =
  ev_status :: event_status
  ev_version_text :: string
  ev_provider :: "string option"
  ev_network :: string
  ev_account :: "string option"
  ev_event_id :: "string option"
  ev_lt :: "string option"
  ev_action_index :: "int option"
  ev_action_type :: "string option"
  ev_key :: "string option"
  ev_is_observation :: bool

definition unavailable_event_identity :: event_identity where
  "unavailable_event_identity =
    \<lparr> ev_status = Event_Unavailable, ev_version_text = ''unavailable'', ev_provider = None,
      ev_network = ''ton-unknown'', ev_account = None, ev_event_id = None, ev_lt = None,
      ev_action_index = None, ev_action_type = None, ev_key = None,
      ev_is_observation = False \<rparr>"

record event_args = tx_args +
  a_event_id :: pyval
  a_action_index :: pyval
  a_action_type :: pyval
  a_surface :: pyval

definition event_key_text :: "string \<Rightarrow> string \<Rightarrow> string \<Rightarrow> string \<Rightarrow> int \<Rightarrow> string" where
  "event_key_text net account event lt index =
     join ''|'' [event_version, ''tonapi'', net, account, event, lt, show_int index]"

text \<open>The provider cross-checks of the raw row before any field is canonicalised.\<close>

definition event_raw_agrees :: "event_args \<Rightarrow> (string \<times> pyval) list \<Rightarrow> bool" where
  "event_raw_agrees a raw \<longleftrightarrow>
     dget raw ''provider'' = PStr ''tonapi'' \<and> py_eq (dget raw ''surface'') (a_surface a) \<and>
     dget raw ''source'' = PStr ''tonapi'' \<and>
     py_eq (dget raw ''event_id'') (a_event_id a) \<and> py_eq (dget raw ''lt'') (a_logical_time a) \<and>
     canonical_action_index (dget raw ''action_index'') \<noteq> None \<and>
     py_eq (dget raw ''action_index'') (a_action_index a) \<and>
     py_eq (dget raw ''action_type'') (a_action_type a)"

definition finish_event_identity ::
  "event_args \<Rightarrow> string \<Rightarrow> string \<Rightarrow> event_identity" where
  "finish_event_identity a net action_type =
    (case (event_account (a_account a) (a_identity_status a) (a_identity_version a)
             (a_workchain a) (a_account_hex a),
           canonical_hash (a_event_id a), event_logical_time (a_logical_time a),
           canonical_action_index (a_action_index a)) of
       (Some account, Some event, Some lt, Some index) \<Rightarrow>
         let key = event_key_text net account event lt index in
         if 256 < length key then unavailable_event_identity
         else \<lparr> ev_status = Provider_Scoped, ev_version_text = event_version,
           ev_provider = Some ''tonapi'', ev_network = net, ev_account = Some account,
           ev_event_id = Some event, ev_lt = Some lt, ev_action_index = Some index,
           ev_action_type = Some action_type, ev_key = Some key,
           ev_is_observation = True \<rparr>
     | _ \<Rightarrow> unavailable_event_identity)"

definition derive_ton_event_action_identity ::
  "event_args \<Rightarrow> (py_error, event_identity) result" where
  "derive_ton_event_action_identity a =
    (case (known_network (a_network a), a_raw a) of
       (Some net, PDict raw) \<Rightarrow>
         if a_data_mode a \<noteq> PStr ''real'' \<or> a_source_status a \<noteq> PStr ''live''
           \<or> a_provider a \<noteq> PStr ''tonapi'' then Inr unavailable_event_identity
         else if \<not> hashable (a_surface a) then Inl TypeError
         else (case action_types_by_surface (a_surface a) of
           None \<Rightarrow> Inr unavailable_event_identity
         | Some types \<Rightarrow>
             if \<not> hashable (a_action_type a) then Inl TypeError
             else (case a_action_type a of
               PStr action_type \<Rightarrow>
                 if action_type \<notin> set types \<or> \<not> event_raw_agrees a raw
                 then Inr unavailable_event_identity
                 else Inr (finish_event_identity a net action_type)
             | _ \<Rightarrow> Inr unavailable_event_identity))
     | _ \<Rightarrow> Inr unavailable_event_identity)"

definition ev_scoped_key ::
  "event_identity \<Rightarrow> (string \<times> string \<times> string \<times> string \<times> int) option" where
  "ev_scoped_key i =
    (if ev_status i \<noteq> Provider_Scoped \<or> ev_provider i \<noteq> Some ''tonapi'' then None
     else case (ev_account i, ev_event_id i, ev_lt i, ev_action_index i) of
       (Some account, Some event, Some lt, Some index) \<Rightarrow>
         Some (ev_network i, account, event, lt, index)
     | _ \<Rightarrow> None)"

section \<open>Keys are unambiguous\<close>

lemma join_split:
  assumes "c \<notin> set a" "c \<notin> set b" "a @ c # x = b @ c # y"
  shows "a = b \<and> x = y"
proof -
  have "takeWhile (\<lambda>d. d \<noteq> c) (a @ c # x) = a" "takeWhile (\<lambda>d. d \<noteq> c) (b @ c # y) = b"
    using assms(1,2) by (auto simp: takeWhile_append)
  with assms(3) show ?thesis by auto
qed

lemma join_Cons: "ys \<noteq> [] \<Longrightarrow> join sep (y # ys) = y @ sep @ join sep ys"
  by (cases ys) auto

lemma join_inj:
  "length xs = length ys \<Longrightarrow> list_all (\<lambda>s. c \<notin> set s) xs \<Longrightarrow> list_all (\<lambda>s. c \<notin> set s) ys \<Longrightarrow>
   join [c] xs = join [c] ys \<Longrightarrow> xs = ys"
proof (induction xs ys rule: list_induct2)
  case Nil
  then show ?case by simp
next
  case (Cons x xs y ys)
  show ?case
  proof (cases "xs = []")
    case True
    with Cons show ?thesis by simp
  next
    case False
    then have "ys \<noteq> []" using Cons.hyps by auto
    with False Cons.prems have "x @ c # join [c] xs = y @ c # join [c] ys"
      by (simp add: join_Cons)
    with Cons.prems have "x = y \<and> join [c] xs = join [c] ys" by (auto dest: join_split [rotated 2])
    with Cons show ?thesis by simp
  qed
qed

lemma bar_not_digit: "\<not> is_digit CHR ''|''" and bar_not_hex: "\<not> is_hex CHR ''|''"
  by (simp_all add: is_digit_def dec_digits_def is_hex_def)

lemma digits_no_bar: "list_all is_digit s \<Longrightarrow> CHR ''|'' \<notin> set s"
  using bar_not_digit unfolding list_all_iff by blast

lemma hex_no_bar: "list_all is_hex s \<Longrightarrow> CHR ''|'' \<notin> set s"
  using bar_not_hex unfolding list_all_iff by blast

lemma lower_hex_no_bar: "list_all is_lower_hex s \<Longrightarrow> CHR ''|'' \<notin> set s"
  using bar_not_hex is_lower_hex_is_hex unfolding list_all_iff by blast

lemma show_int_no_bar: "CHR ''|'' \<notin> set (show_int i)"
  using digits_no_bar [OF show_nat_digits] by (simp add: show_int_def)

lemma canonical_nat_no_bar: "is_canonical_nat s \<Longrightarrow> CHR ''|'' \<notin> set s"
  unfolding is_canonical_nat_def using digits_no_bar [of s] by auto

text \<open>A canonical account is a raw address in range.\<close>

lemma canonical_account_Some:
  assumes "canonical_account v st ver wc hex = Some account"
  shows "v = PStr account \<and> (\<exists>w h. account = raw_address w h \<and> in_workchain_range w \<and>
     length h = 64 \<and> list_all is_lower_hex h)"
proof -
  from assms obtain i where p: "parse_ton_address v = Some i"
    by (cases "parse_ton_address v") (simp_all add: canonical_account_def split: if_splits)
  with assms have c: "canonical_address i = Some account"
    and "map_option PStr (canonical_address i) = Some v"
    by (simp_all add: canonical_account_def split: if_splits)
  then have "v = PStr account" by simp
  with c show ?thesis using parse_well_formed [OF p] unfolding well_formed_identity_def by auto
qed

lemma raw_address_no_bar: "list_all is_lower_hex h \<Longrightarrow> CHR ''|'' \<notin> set (raw_address w h)"
  using show_int_no_bar [of w] lower_hex_no_bar [of h] by (simp add: raw_address_def)

lemma known_network_no_bar:
  "known_network v = Some n \<Longrightarrow> n = ''ton-mainnet'' \<or> n = ''ton-testnet''"
  by (auto simp: known_network_def split: if_splits)

lemma canonical_hash_Some:
  "canonical_hash v = Some h \<Longrightarrow> length h = 64 \<and> list_all is_lower_hex h"
  using list_all_hex_lower
  by (cases v) (auto simp: canonical_hash_def split: if_splits)

lemma tx_logical_time_Some:
  "tx_logical_time v = Inr (Some s) \<Longrightarrow>
   v = PStr s \<and> is_canonical_nat s \<and> 0 < read_nat s \<and> read_nat s \<le> max_logical_time"
  by (auto simp: tx_logical_time_def split: pyval.splits if_splits)

text \<open>The shape of every available transaction identity.\<close>

definition well_formed_tx :: "tx_identity \<Rightarrow> bool" where
  "well_formed_tx i \<longleftrightarrow>
     (\<exists>account lt hash. tx_account i = Some account \<and> tx_lt i = Some lt \<and> tx_hash i = Some hash \<and>
        tx_key i = Some (tx_key_text (tx_network i) account lt hash) \<and>
        (tx_network i = ''ton-mainnet'' \<or> tx_network i = ''ton-testnet'') \<and>
        (\<exists>w h. account = raw_address w h \<and> in_workchain_range w \<and> length h = 64 \<and>
           list_all is_lower_hex h) \<and>
        is_canonical_nat lt \<and> 0 < read_nat lt \<and> read_nat lt \<le> max_logical_time \<and>
        length hash = 64 \<and> list_all is_lower_hex hash)"

lemma derive_tx_Network_Scoped:
  assumes d: "derive_ton_transaction_identity a = Inr i" and s: "tx_status i = Network_Scoped"
  obtains account lt hash net where
    "canonical_account (a_account a) (a_identity_status a) (a_identity_version a)
       (a_workchain a) (a_account_hex a) = Some account"
    "tx_logical_time (a_logical_time a) = Inr (Some lt)" "canonical_hash (a_hash a) = Some hash"
    "known_network (a_network a) = Some net"
    "i = \<lparr> tx_status = Network_Scoped, tx_version_text = tx_version, tx_network = net,
       tx_account = Some account, tx_lt = Some lt, tx_hash = Some hash,
       tx_key = Some (tx_key_text net account lt hash), tx_is_dedup = True \<rparr>"
proof -
  have e: "tx_eligible a"
    using d s by (auto simp: derive_ton_transaction_identity_def unavailable_tx_identity_def
        split: if_splits)
  then obtain net where net: "known_network (a_network a) = Some net"
    by (auto simp: tx_eligible_def)
  obtain lt' where lt: "tx_logical_time (a_logical_time a) = Inr lt'"
    using d e by (cases "tx_logical_time (a_logical_time a)")
      (simp_all add: derive_ton_transaction_identity_def)
  show ?thesis
  proof (cases "canonical_account (a_account a) (a_identity_status a) (a_identity_version a)
       (a_workchain a) (a_account_hex a)")
    case None
    with d e s lt show ?thesis
      by (auto simp: derive_ton_transaction_identity_def unavailable_tx_identity_def)
  next
    case (Some account)
    with d e s lt net that show ?thesis
      by (cases lt'; cases "canonical_hash (a_hash a)")
        (auto simp: derive_ton_transaction_identity_def unavailable_tx_identity_def)
  qed
qed

lemma derive_tx_well_formed:
  assumes "derive_ton_transaction_identity a = Inr i" "tx_status i = Network_Scoped"
  shows "well_formed_tx i"
  using assms
proof (rule derive_tx_Network_Scoped)
  fix account lt hash net
  assume p: "canonical_account (a_account a) (a_identity_status a) (a_identity_version a)
       (a_workchain a) (a_account_hex a) = Some account"
    "tx_logical_time (a_logical_time a) = Inr (Some lt)" "canonical_hash (a_hash a) = Some hash"
    "known_network (a_network a) = Some net"
    and i: "i = \<lparr> tx_status = Network_Scoped, tx_version_text = tx_version, tx_network = net,
       tx_account = Some account, tx_lt = Some lt, tx_hash = Some hash,
       tx_key = Some (tx_key_text net account lt hash), tx_is_dedup = True \<rparr>"
  show ?thesis
    using canonical_account_Some [OF p(1)] tx_logical_time_Some [OF p(2)]
      canonical_hash_Some [OF p(3)] known_network_no_bar [OF p(4)]
    unfolding well_formed_tx_def i by auto
qed

lemma well_formed_tx_parts:
  assumes "well_formed_tx i"
  obtains account lt hash where
    "tx_account i = Some account" "tx_lt i = Some lt" "tx_hash i = Some hash"
    "tx_key i = Some (tx_key_text (tx_network i) account lt hash)"
    "list_all (\<lambda>s. CHR ''|'' \<notin> set s) [tx_version, tx_network i, account, lt, hash]"
    "account \<noteq> []" "lt \<noteq> []" "hash \<noteq> []"
proof -
  obtain account lt hash w h where p:
    "tx_account i = Some account" "tx_lt i = Some lt" "tx_hash i = Some hash"
    "tx_key i = Some (tx_key_text (tx_network i) account lt hash)"
    "tx_network i = ''ton-mainnet'' \<or> tx_network i = ''ton-testnet''"
    "account = raw_address w h" "list_all is_lower_hex h"
    "is_canonical_nat lt" "length hash = 64" "list_all is_lower_hex hash"
    using assms by (auto simp: well_formed_tx_def)
  have "account \<noteq> []" "lt \<noteq> []" "hash \<noteq> []"
    using p by (auto simp: raw_address_def is_canonical_nat_def)
  moreover have "CHR ''|'' \<notin> set (tx_network i)" "CHR ''|'' \<notin> set tx_version"
    using p(5) by (auto simp: tx_version_def)
  ultimately show ?thesis
    using p(1-4) raw_address_no_bar [OF p(7), of w] canonical_nat_no_bar [OF p(8)]
      lower_hex_no_bar [OF p(10)]
    by (intro that [of account lt hash]) (simp_all add: p(6))
qed

text \<open>two available transaction identities have the same key text exactly when their scoped
  keys (network, account, logical time, hash) agree: joining the fields with bars loses nothing.\<close>

theorem tx_key_identifies:
  assumes "derive_ton_transaction_identity a = Inr i" "tx_status i = Network_Scoped"
    and "derive_ton_transaction_identity b = Inr j" "tx_status j = Network_Scoped"
  shows "tx_key i = tx_key j \<longleftrightarrow> tx_scoped_key i = tx_scoped_key j"
proof -
  obtain acc lt h where i: "tx_account i = Some acc" "tx_lt i = Some lt" "tx_hash i = Some h"
    "tx_key i = Some (tx_key_text (tx_network i) acc lt h)"
    "list_all (\<lambda>s. CHR ''|'' \<notin> set s) [tx_version, tx_network i, acc, lt, h]"
    "acc \<noteq> []" "lt \<noteq> []" "h \<noteq> []"
    using derive_tx_well_formed [OF assms(1,2)] by (elim well_formed_tx_parts)
  obtain acc' lt' h' where j: "tx_account j = Some acc'" "tx_lt j = Some lt'" "tx_hash j = Some h'"
    "tx_key j = Some (tx_key_text (tx_network j) acc' lt' h')"
    "list_all (\<lambda>s. CHR ''|'' \<notin> set s) [tx_version, tx_network j, acc', lt', h']"
    "acc' \<noteq> []" "lt' \<noteq> []" "h' \<noteq> []"
    using derive_tx_well_formed [OF assms(3,4)] by (elim well_formed_tx_parts)
  let ?xs = "[tx_version, tx_network i, acc, lt, h]"
  let ?ys = "[tx_version, tx_network j, acc', lt', h']"
  have "tx_key i = tx_key j \<longleftrightarrow> join ''|'' ?xs = join ''|'' ?ys"
    unfolding i(4) j(4) tx_key_text_def by (simp only: option.inject)
  also have "\<dots> \<longleftrightarrow> ?xs = ?ys"
    using join_inj [OF _ i(5) j(5)] by (metis length_Cons)
  finally have "tx_key i = tx_key j \<longleftrightarrow> ?xs = ?ys" .
  then show ?thesis
    using i j assms(2,4) by (auto simp: tx_scoped_key_def truthy_text_def)
qed

lemma tx_logical_time_error:
  "tx_logical_time v = Inl e \<longleftrightarrow>
     e = ValueError \<and> (\<exists>s. v = PStr s \<and> is_canonical_nat s \<and> max_str_digits < length s)"
  by (cases v) (auto simp: tx_logical_time_def)

text \<open>C32: the derivation is total except in one case: an eligible row whose logical time is a
  canonical numeral of more than 4300 digits makes Python's integer conversion raise, and the
  exception escapes.\<close>

theorem tx_derivation_error:
  "derive_ton_transaction_identity a = Inl e \<longleftrightarrow>
     e = ValueError \<and> tx_eligible a \<and>
     (\<exists>s. a_logical_time a = PStr s \<and> is_canonical_nat s \<and> max_str_digits < length s)"
proof (cases "tx_logical_time (a_logical_time a)")
  case (Inl e')
  with tx_logical_time_error [of "a_logical_time a" e'] show ?thesis
    by (auto simp: derive_ton_transaction_identity_def)
next
  case (Inr lt)
  then have "\<not> (\<exists>s. a_logical_time a = PStr s \<and> is_canonical_nat s \<and> max_str_digits < length s)"
    using tx_logical_time_error [of "a_logical_time a" ValueError] by simp
  with Inr show ?thesis
    by (simp add: derive_ton_transaction_identity_def Let_def split: option.splits)
qed

lemma workchain_text_length:
  assumes "in_workchain_range w"
  shows "length (show_int w) \<le> 11"
proof -
  from assms have "nat w < 10 ^ 10" "nat (- w) < 10 ^ 10"
    unfolding in_workchain_range_def min_workchain_def max_workchain_def by simp_all linarith+
  then have "length (show_nat (nat w)) \<le> 10" "length (show_nat (nat (- w))) \<le> 10"
    by (auto intro!: show_nat_length simp del: power_numeral)
  then show ?thesis by (simp add: show_int_def)
qed

lemma action_index_text_length:
  assumes "canonical_action_index v = Some i"
  shows "length (show_int i) \<le> 10"
proof -
  from assms have i: "0 \<le> i" "nat i < 10 ^ 10"
    by (cases v; simp add: canonical_action_index_def max_action_index_def split: if_splits)+
  from i(2) have "length (show_nat (nat i)) \<le> 10" by (rule show_nat_length) simp
  with i(1) show ?thesis by (simp add: show_int_def)
qed

lemma event_logical_time_Some:
  "event_logical_time v = Some s \<Longrightarrow> v = PStr s \<and> is_canonical_nat s \<and> length s \<le> 20"
  by (cases v) (auto simp: event_logical_time_def is_canonical_nat_def split: if_splits)

lemma event_account_Some:
  assumes "event_account v st ver wc hex = Some account"
  shows "\<exists>w h. account = raw_address w h \<and> in_workchain_range w \<and> length h = 64
     \<and> list_all is_lower_hex h"
  using assms canonical_account_Some [of v st ver wc hex account]
  by (cases wc) (auto simp: event_account_def)

lemma event_key_length:
  assumes "net = ''ton-mainnet'' \<or> net = ''ton-testnet''"
    and "event_account v st ver wc hex = Some account" "canonical_hash e = Some event"
    and "event_logical_time l = Some lt" "canonical_action_index x = Some index"
  shows "length (event_key_text net account event lt index) \<le> 219"
proof -
  obtain w h where "account = raw_address w h" "in_workchain_range w" "length h = 64"
    using event_account_Some [OF assms(2)] by auto
  then have "length account \<le> 76" using workchain_text_length [of w] by (simp add: raw_address_def)
  moreover have "length event = 64" using canonical_hash_Some [OF assms(3)] by simp
  moreover have "length lt \<le> 20" using event_logical_time_Some [OF assms(4)] by simp
  moreover have "length (show_int index) \<le> 10" by (rule action_index_text_length [OF assms(5)])
  moreover have "length net = 11" using assms(1) by auto
  ultimately show ?thesis by (simp add: event_key_text_def event_version_def)
qed

text \<open>once every field of an event action is canonical the identity is available, its key has
  at most 219 characters, and so the guard on keys longer than 256 characters is never taken.\<close>

theorem event_key_guard_never_fires:
  assumes "known_network (a_network a) = Some net"
    and "event_account (a_account a) (a_identity_status a) (a_identity_version a)
           (a_workchain a) (a_account_hex a) = Some account"
    and "canonical_hash (a_event_id a) = Some event"
    and "event_logical_time (a_logical_time a) = Some lt"
    and "canonical_action_index (a_action_index a) = Some index"
  shows "ev_status (finish_event_identity a net t) = Provider_Scoped \<and>
     ev_scoped_key (finish_event_identity a net t) = Some (net, account, event, lt, index) \<and>
     ev_key (finish_event_identity a net t) = Some (event_key_text net account event lt index) \<and>
     length (event_key_text net account event lt index) \<le> 219"
proof -
  have "length (event_key_text net account event lt index) \<le> 219"
    by (rule event_key_length [OF known_network_no_bar [OF assms(1)] assms(2-5)])
  with assms show ?thesis by (simp add: finish_event_identity_def ev_scoped_key_def Let_def)
qed

section \<open>Sample rows\<close>

definition sample_hash :: string where
  "sample_hash = ''abababababababababababababababababababababababababababababababab''"

definition sample_tx_args :: tx_args where
  "sample_tx_args =
    \<lparr> a_network = PStr ''ton-mainnet'', a_account = PStr (raw_address (-1) sample_account),
      a_identity_status = PStr ''network_scoped'', a_identity_version = PStr ''ton_raw_address_v1'',
      a_workchain = PInt (-1), a_account_hex = PStr sample_account,
      a_logical_time = PStr ''47000000000001'', a_hash = PStr sample_hash,
      a_data_mode = PStr ''real'', a_source_status = PStr ''live'', a_provider = PStr ''tonapi'',
      a_raw = PDict [(''provider'', PStr ''tonapi''), (''surface'', PStr ''transactions''),
        (''tx_hash'', PStr sample_hash), (''logical_time'', PStr ''47000000000001'')] \<rparr>"

definition sample_tx :: tx_identity where
  "sample_tx =
    \<lparr> tx_status = Network_Scoped, tx_version_text = tx_version, tx_network = ''ton-mainnet'',
      tx_account = Some (raw_address (-1) sample_account), tx_lt = Some ''47000000000001'',
      tx_hash = Some sample_hash,
      tx_key = Some (tx_key_text ''ton-mainnet'' (raw_address (-1) sample_account)
        ''47000000000001'' sample_hash), tx_is_dedup = True \<rparr>"

lemma sample_canonical_account:
  "canonical_account (PStr (raw_address (-1) sample_account)) (PStr ''network_scoped'')
     (PStr ''ton_raw_address_v1'') (PInt (-1)) (PStr sample_account)
   = Some (raw_address (-1) sample_account)"
  by (simp add: canonical_account_def sample_raw_parses known_identity_version_def
      raw_identity_def)

lemma sample_canonical_hash: "canonical_hash (PStr sample_hash) = Some sample_hash"
  by (simp add: canonical_hash_def sample_hash_def is_hex_def hex_lower.simps)

lemma sample_tx_logical_time:
  "tx_logical_time (PStr ''47000000000001'') = Inr (Some ''47000000000001'')"
  by (simp add: tx_logical_time_def is_canonical_nat_def is_digit_def dec_digits_def
      max_str_digits_def read_nat_def digit_val_def max_logical_time_def)

lemma sample_tx_derived: "derive_ton_transaction_identity sample_tx_args = Inr sample_tx"
  by (simp add: derive_ton_transaction_identity_def tx_eligible_def sample_tx_args_def dget_def
      known_network_def sample_tx_logical_time sample_canonical_account sample_canonical_hash
      sample_tx_def Let_def)

definition sample_event_args :: "int \<Rightarrow> event_args" where
  "sample_event_args n = tx_args.extend
     (sample_tx_args\<lparr> a_raw := PDict [(''provider'', PStr ''tonapi''), (''surface'', PStr ''swaps''),
        (''source'', PStr ''tonapi''), (''event_id'', PStr sample_hash),
        (''lt'', PStr ''47000000000001''), (''action_index'', PInt n),
        (''action_type'', PStr ''JettonSwap'')] \<rparr>)
     \<lparr> a_event_id = PStr sample_hash, a_action_index = PInt n, a_action_type = PStr ''JettonSwap'',
       a_surface = PStr ''swaps'' \<rparr>"

lemma sample_event_fields:
  assumes "n = 3 \<or> n = 4"
  shows "known_network (a_network (sample_event_args n)) = Some ''ton-mainnet''"
  "event_account (a_account (sample_event_args n)) (a_identity_status (sample_event_args n))
     (a_identity_version (sample_event_args n)) (a_workchain (sample_event_args n))
     (a_account_hex (sample_event_args n)) = Some (raw_address (-1) sample_account)"
  "canonical_hash (a_event_id (sample_event_args n)) = Some sample_hash"
  "event_logical_time (a_logical_time (sample_event_args n)) = Some ''47000000000001''"
  "canonical_action_index (a_action_index (sample_event_args n)) = Some n"
  using assms
  by (auto simp add: sample_event_args_def sample_tx_args_def tx_args.defs known_network_def
      event_account_def sample_canonical_account sample_canonical_hash canonical_action_index_def
      max_action_index_def event_logical_time_def is_digit_def dec_digits_def
      read_nat_def digit_val_def max_logical_time_def)

definition sample_testnet_tx :: tx_identity where
  "sample_testnet_tx = sample_tx
     \<lparr> tx_network := ''ton-testnet'',
       tx_key := Some (tx_key_text ''ton-testnet'' (raw_address (-1) sample_account)
        ''47000000000001'' sample_hash) \<rparr>"

lemma sample_testnet_tx_derived:
  "derive_ton_transaction_identity (sample_tx_args\<lparr> a_network := PStr ''ton-testnet'' \<rparr>)
     = Inr sample_testnet_tx"
  by (simp add: derive_ton_transaction_identity_def tx_eligible_def sample_tx_args_def dget_def
      known_network_def sample_tx_logical_time sample_canonical_account sample_canonical_hash
      sample_tx_def sample_testnet_tx_def Let_def)

lemma tx_key_identifies_witness: "tx_key sample_tx \<noteq> tx_key sample_testnet_tx"
proof -
  have "tx_key sample_tx = tx_key sample_testnet_tx
      \<longleftrightarrow> tx_scoped_key sample_tx = tx_scoped_key sample_testnet_tx"
    by (rule tx_key_identifies [OF sample_tx_derived _ sample_testnet_tx_derived])
      (simp_all add: sample_tx_def sample_testnet_tx_def)
  then show ?thesis
    by (simp add: tx_scoped_key_def sample_tx_def sample_testnet_tx_def truthy_text_def
        raw_address_def sample_hash_def)
qed

lemma sample_event_derived:
  assumes n: "n = 3 \<or> n = 4"
  shows "derive_ton_event_action_identity (sample_event_args n)
     = Inr (finish_event_identity (sample_event_args n) ''ton-mainnet'' ''JettonSwap'')"
  by (simp add: derive_ton_event_action_identity_def sample_event_fields(1) [OF n])
    (use n in \<open>auto simp add: sample_event_args_def sample_tx_args_def tx_args.defs
      action_types_by_surface_def event_raw_agrees_def dget_def canonical_action_index_def
      max_action_index_def\<close>)

lemma event_key_guard_never_fires_witness:
  "ev_status (finish_event_identity (sample_event_args 3) ''ton-mainnet'' ''JettonSwap'')
     = Provider_Scoped"
proof -
  have "(3::int) = 3 \<or> (3::int) = 4" by simp
  from event_key_guard_never_fires [OF sample_event_fields [OF this]] show ?thesis by blast
qed

section \<open>Event keys are unambiguous\<close>

lemma finish_event_Provider_Scoped:
  assumes "ev_status (finish_event_identity a net t) = Provider_Scoped"
  obtains account event lt index where
    "event_account (a_account a) (a_identity_status a) (a_identity_version a)
       (a_workchain a) (a_account_hex a) = Some account"
    "canonical_hash (a_event_id a) = Some event" "event_logical_time (a_logical_time a) = Some lt"
    "canonical_action_index (a_action_index a) = Some index"
  using assms that
  by (cases "event_account (a_account a) (a_identity_status a) (a_identity_version a)
       (a_workchain a) (a_account_hex a)"; cases "canonical_hash (a_event_id a)";
      cases "event_logical_time (a_logical_time a)"; cases "canonical_action_index (a_action_index a)")
    (simp_all add: finish_event_identity_def unavailable_event_identity_def)

lemma derive_event_Provider_Scoped:
  assumes "derive_ton_event_action_identity a = Inr i" "ev_status i = Provider_Scoped"
  obtains net t where "known_network (a_network a) = Some net" "i = finish_event_identity a net t"
  using assms
  by (auto simp: derive_ton_event_action_identity_def unavailable_event_identity_def
      split: option.splits pyval.splits if_splits)

definition well_formed_event :: "event_identity \<Rightarrow> bool" where
  "well_formed_event i \<longleftrightarrow>
     (\<exists>account event lt index. ev_scoped_key i = Some (ev_network i, account, event, lt, index) \<and>
        ev_key i = Some (event_key_text (ev_network i) account event lt index) \<and>
        list_all (\<lambda>s. CHR ''|'' \<notin> set s)
          [event_version, ''tonapi'', ev_network i, account, event, lt, show_int index])"

lemma derive_event_well_formed:
  assumes "derive_ton_event_action_identity a = Inr i" "ev_status i = Provider_Scoped"
  shows "well_formed_event i"
proof -
  obtain net t where net: "known_network (a_network a) = Some net"
    and i: "i = finish_event_identity a net t"
    using derive_event_Provider_Scoped [OF assms] .
  obtain account event lt index where p:
    "event_account (a_account a) (a_identity_status a) (a_identity_version a)
       (a_workchain a) (a_account_hex a) = Some account"
    "canonical_hash (a_event_id a) = Some event" "event_logical_time (a_logical_time a) = Some lt"
    "canonical_action_index (a_action_index a) = Some index"
    using finish_event_Provider_Scoped [OF assms(2) [unfolded i]] .
  have g: "ev_scoped_key i = Some (net, account, event, lt, index)"
    "ev_key i = Some (event_key_text net account event lt index)" "ev_network i = net"
    using event_key_length [OF known_network_no_bar [OF net] p]
    by (simp_all add: i finish_event_identity_def p ev_scoped_key_def Let_def)
  have "CHR ''|'' \<notin> set account"
    using event_account_Some [OF p(1)] raw_address_no_bar by auto
  moreover have "CHR ''|'' \<notin> set event"
    using canonical_hash_Some [OF p(2)] lower_hex_no_bar by blast
  moreover have "CHR ''|'' \<notin> set lt"
    using event_logical_time_Some [OF p(3)] canonical_nat_no_bar by blast
  moreover have "CHR ''|'' \<notin> set net" "CHR ''|'' \<notin> set event_version"
    using known_network_no_bar [OF net] by (auto simp: event_version_def)
  moreover have "CHR ''|'' \<notin> set (show_int index)" by (rule show_int_no_bar)
  ultimately show ?thesis unfolding well_formed_event_def g by (auto simp: g)
qed

text \<open>two available event-action identities have the same key text exactly when their scoped
  keys (network, account, event, logical time, action index) agree.\<close>

theorem event_key_identifies:
  assumes "derive_ton_event_action_identity a = Inr i" "ev_status i = Provider_Scoped"
    and "derive_ton_event_action_identity b = Inr j" "ev_status j = Provider_Scoped"
  shows "ev_key i = ev_key j \<longleftrightarrow> ev_scoped_key i = ev_scoped_key j"
proof -
  obtain acc e lt x where i: "ev_scoped_key i = Some (ev_network i, acc, e, lt, x)"
    "ev_key i = Some (event_key_text (ev_network i) acc e lt x)"
    "list_all (\<lambda>s. CHR ''|'' \<notin> set s) [event_version, ''tonapi'', ev_network i, acc, e, lt, show_int x]"
    using derive_event_well_formed [OF assms(1,2)] unfolding well_formed_event_def by blast
  obtain acc' e' lt' x' where j: "ev_scoped_key j = Some (ev_network j, acc', e', lt', x')"
    "ev_key j = Some (event_key_text (ev_network j) acc' e' lt' x')"
    "list_all (\<lambda>s. CHR ''|'' \<notin> set s) [event_version, ''tonapi'', ev_network j, acc', e', lt', show_int x']"
    using derive_event_well_formed [OF assms(3,4)] unfolding well_formed_event_def by blast
  let ?xs = "[event_version, ''tonapi'', ev_network i, acc, e, lt, show_int x]"
  let ?ys = "[event_version, ''tonapi'', ev_network j, acc', e', lt', show_int x']"
  have "ev_key i = ev_key j \<longleftrightarrow> join ''|'' ?xs = join ''|'' ?ys"
    unfolding i(2) j(2) event_key_text_def by (simp only: option.inject)
  also have "\<dots> \<longleftrightarrow> ?xs = ?ys" using join_inj [OF _ i(3) j(3)] by (metis length_Cons)
  finally have k: "ev_key i = ev_key j \<longleftrightarrow> ?xs = ?ys" .
  have "show_int x = show_int x' \<longleftrightarrow> x = x'" by (metis read_show_int)
  then show ?thesis unfolding k i(1) j(1) by simp
qed

lemma sample_event_scoped:
  assumes "n = 3 \<or> n = 4"
  shows "ev_status (finish_event_identity (sample_event_args n) ''ton-mainnet'' ''JettonSwap'')
      = Provider_Scoped"
    and "ev_scoped_key (finish_event_identity (sample_event_args n) ''ton-mainnet'' ''JettonSwap'')
      = Some (''ton-mainnet'', raw_address (-1) sample_account, sample_hash, ''47000000000001'', n)"
  using event_key_length [OF known_network_no_bar [OF sample_event_fields(1) [OF assms]]
      sample_event_fields(2-5) [OF assms]]
  by (simp_all add: finish_event_identity_def ev_scoped_key_def sample_event_fields [OF assms] Let_def)

lemma event_key_identifies_witness:
  "ev_key (finish_event_identity (sample_event_args 3) ''ton-mainnet'' ''JettonSwap'')
     \<noteq> ev_key (finish_event_identity (sample_event_args 4) ''ton-mainnet'' ''JettonSwap'')"
proof -
  have n: "(3::int) = 3 \<or> (3::int) = 4" "(4::int) = 3 \<or> (4::int) = 4" by simp_all
  show ?thesis
    using event_key_identifies [OF sample_event_derived [OF n(1)] sample_event_scoped(1) [OF n(1)]
        sample_event_derived [OF n(2)] sample_event_scoped(1) [OF n(2)]]
    by (simp add: sample_event_scoped(2) n)
qed

end
