(* ===== verification/Interval_Coverage.thy ===== *)
theory Interval_Coverage
  imports Ton_Address "HOL-Library.Product_Lexorder" "HOL-Library.Multiset"
begin

text \<open>
  \<open>backend/services/wallet_interval_coverage.py\<close>: bounded interval arithmetic over the
  accepted evidence of several runs.  Instants are microseconds since 0001-01-01T00:00:00Z,
  the first instant of Python's \<open>datetime\<close>.  \<open>datetime.fromisoformat\<close> and
  \<open>datetime.isoformat\<close> are the argument \<open>C\<close> of the definitions that use them.  Constant
  fields of the public dictionaries are left out of the records.
\<close>

section \<open>Timestamps\<close>

text \<open>\<open>fromisoformat\<close>: an error, a naive time, or a local time with its UTC offset.\<close>

datatype iso_parse = Iso_Error | Iso_Naive int | Iso_Aware int int

record iso_codec =
  parse_iso :: "string \<Rightarrow> iso_parse"
  iso_text :: "int \<Rightarrow> string"

definition us_per_second :: int where "us_per_second = 1000000"
definition us_per_day :: int where "us_per_day = 86400 * us_per_second"

text \<open>One past the last microsecond of the year 9999.\<close>

definition datetime_end :: int where "datetime_end = 3652059 * us_per_day"

text \<open>\<open>astimezone(timezone.utc)\<close>.\<close>

definition to_utc :: "int \<Rightarrow> int \<Rightarrow> (py_error, int) result" where
  "to_utc local offset =
    (if 0 \<le> local - offset \<and> local - offset < datetime_end then Inr (local - offset)
     else Inl OverflowError)"

definition clean_iso :: "string \<Rightarrow> string" where
  "clean_iso s = (if s \<noteq> [] \<and> last s = CHR ''Z'' then butlast s @ ''+00:00'' else s)"

definition parse_timestamp :: "iso_codec \<Rightarrow> pyval \<Rightarrow> (py_error, int option) result" where
  "parse_timestamp C v =
    (case v of
       PStr s \<Rightarrow>
         if s = [] \<or> s \<noteq> strip s \<or> 40 < length s then Inr None
         else (case parse_iso C (clean_iso s) of
             Iso_Error \<Rightarrow> Inr None
           | Iso_Naive _ \<Rightarrow> Inr None
           | Iso_Aware local offset \<Rightarrow> bind_result (to_utc local offset) (\<lambda>t. Inr (Some t)))
     | _ \<Rightarrow> Inr None)"

definition duration_us :: "int \<Rightarrow> int \<Rightarrow> int" where
  "duration_us s e =
    (let delta = e - s; days = delta div us_per_day; rest = delta mod us_per_day in
     days * us_per_day + (rest div us_per_second) * us_per_second + rest mod us_per_second)"

lemma duration_us_eq [simp]: "duration_us s e = e - s"
  unfolding duration_us_def Let_def by (metis add.assoc div_mult_mod_eq)

section \<open>Run selection and evidence classification\<close>

definition max_runs :: nat where "max_runs = 50"

definition validate_selected_run_ids :: "pyval \<Rightarrow> (py_error, int list) result" where
  "validate_selected_run_ids v =
    (case v of
       PList vs \<Rightarrow>
         ensure (2 \<le> length vs \<and> length vs \<le> max_runs) ValueError
         (ensure (\<forall>x \<in> set vs. case x of PInt i \<Rightarrow> 1 \<le> i | _ \<Rightarrow> False) ValueError
         (let ids = map (\<lambda>x. case x of PInt i \<Rightarrow> i | _ \<Rightarrow> 0) vs in
          ensure (distinct ids) ValueError (Inr (sort ids))))
     | _ \<Rightarrow> Inl ValueError)"

record interval =
  iv_id :: int
  iv_start :: int
  iv_end :: int

type_synonym row = "(string \<times> pyval) list"

definition normalized_interval :: "iso_codec \<Rightarrow> int \<Rightarrow> row \<Rightarrow> (py_error, interval option) result" where
  "normalized_interval C run_id r =
    bind_result (parse_timestamp C (dget r ''interval_start'')) (\<lambda>s.
    bind_result (parse_timestamp C (dget r ''interval_end'')) (\<lambda>e.
      Inr (case (s, e) of
          (Some s, Some e) \<Rightarrow>
            if e \<le> s then None else Some \<lparr> iv_id = run_id, iv_start = s, iv_end = e \<rparr>
        | _ \<Rightarrow> None)))"

definition candidate_states :: "row list \<Rightarrow> string list" where
  "candidate_states rows = sort (List.map_filter (\<lambda>r. as_str (dget r ''state'')) rows)"

text \<open>Iterating a value: lists, the characters of a string, the keys of a dict.\<close>

fun iterate :: "pyval \<Rightarrow> (py_error, pyval list) result" where
  "iterate (PList vs) = Inr vs"
| "iterate (PStr s) = Inr (map (\<lambda>c. PStr [c]) s)"
| "iterate (PDict d) = Inr (map (\<lambda>p. PStr (fst p)) d)"
| "iterate _ = Inl TypeError"

text \<open>\<open>sorted({code for code in row.get("reason_codes", []) if isinstance(code, str) and code})\<close>.\<close>

definition reason_codes :: "row \<Rightarrow> (py_error, string list) result" where
  "reason_codes r =
    bind_result (case map_of r ''reason_codes'' of None \<Rightarrow> Inr [] | Some v \<Rightarrow> iterate v) (\<lambda>vs.
      Inr (sorted_list_of_set (set (filter (\<lambda>s. s \<noteq> []) (List.map_filter as_str vs)))))"

datatype classification = Included | Excluded | Not_Requested

record run_evidence =
  re_run_id :: int
  re_source_state :: "string option"
  re_candidate_states :: "string list"
  re_class :: classification
  re_reason :: "string option"
  re_reason_codes :: "string list"
  re_recorded_start :: "string option"
  re_recorded_end :: "string option"
  re_interval_start :: "string option"
  re_interval_end :: "string option"
  re_duration :: "string option"
  re_in_union :: bool

definition run_evidence_record ::
  "iso_codec \<Rightarrow> int \<Rightarrow> string option \<Rightarrow> classification \<Rightarrow> string option \<Rightarrow> string list \<Rightarrow>
   row option \<Rightarrow> interval option \<Rightarrow> (py_error, run_evidence) result" where
  "run_evidence_record C run_id source_state cls reason states r iv =
    bind_result (case r of None \<Rightarrow> Inr [] | Some r \<Rightarrow> reason_codes r) (\<lambda>codes.
      Inr \<lparr> re_run_id = run_id, re_source_state = source_state, re_candidate_states = states,
        re_class = cls, re_reason = reason, re_reason_codes = codes,
        re_recorded_start = Option.bind r (\<lambda>r. as_str (dget r ''interval_start'')),
        re_recorded_end = Option.bind r (\<lambda>r. as_str (dget r ''interval_end'')),
        re_interval_start = map_option (\<lambda>i. iso_text C (iv_start i)) iv,
        re_interval_end = map_option (\<lambda>i. iso_text C (iv_end i)) iv,
        re_duration = map_option (\<lambda>i. show_int (duration_us (iv_start i) (iv_end i))) iv,
        re_in_union = (iv \<noteq> None) \<rparr>)"

definition classify_run_evidence ::
  "iso_codec \<Rightarrow> int \<Rightarrow> row list \<Rightarrow> string \<Rightarrow> (py_error, run_evidence \<times> interval option) result" where
  "classify_run_evidence C run_id candidates eligible_state =
    (case candidates of
       [] \<Rightarrow> bind_result (run_evidence_record C run_id None Excluded
                (Some ''missing_evidence_record'') [] None None) (\<lambda>e. Inr (e, None))
     | [r] \<Rightarrow>
         let state = as_str (dget r ''state'');
             states = (case state of None \<Rightarrow> [] | Some s \<Rightarrow> [s]) in
         if state = Some ''not_requested'' then
           bind_result (run_evidence_record C run_id state Not_Requested None states (Some r) None)
             (\<lambda>e. Inr (e, None))
         else if state \<noteq> Some eligible_state then
           bind_result (run_evidence_record C run_id state Excluded
               (Some (if state \<noteq> None then ''state_not_eligible'' else ''invalid_state''))
               states (Some r) None) (\<lambda>e. Inr (e, None))
         else bind_result (normalized_interval C run_id r) (\<lambda>iv.
           case iv of
             None \<Rightarrow> bind_result (run_evidence_record C run_id state Excluded
                 (Some ''invalid_interval'') states (Some r) None) (\<lambda>e. Inr (e, None))
           | Some i \<Rightarrow> bind_result (run_evidence_record C run_id state Included None states
                 (Some r) (Some i)) (\<lambda>e. Inr (e, Some i)))
     | _ \<Rightarrow> bind_result (run_evidence_record C run_id None Excluded
                (Some ''ambiguous_evidence_record'') (candidate_states candidates) None None)
              (\<lambda>e. Inr (e, None)))"

section \<open>Cells\<close>

record cell =
  c_start :: int
  c_end :: int
  c_ids :: "int list"

definition boundaries :: "interval list \<Rightarrow> int list" where
  "boundaries is = sorted_list_of_set (set (concat (map (\<lambda>i. [iv_start i, iv_end i]) is)))"

definition active_ids :: "interval list \<Rightarrow> int \<Rightarrow> int \<Rightarrow> int list" where
  "active_ids is s e = sort (map iv_id (filter (\<lambda>i. iv_start i < e \<and> s < iv_end i) is))"

definition interval_cells :: "interval list \<Rightarrow> cell list" where
  "interval_cells is =
    map (\<lambda>(s, e). \<lparr> c_start = s, c_end = e, c_ids = active_ids is s e \<rparr>)
      (filter (\<lambda>(s, e). s < e) (zip (boundaries is) (tl (boundaries is))))"

section \<open>Segments\<close>

record segment =
  s_start :: int
  s_end :: int

text \<open>\<open>segments[-1]["end"] = cell["end"]\<close>.\<close>

definition extend_last :: "'a segment_scheme list \<Rightarrow> int \<Rightarrow> 'a segment_scheme list" where
  "extend_last segs e = butlast segs @ [(last segs)\<lparr> s_end := e \<rparr>]"

definition union_step :: "segment list \<Rightarrow> cell \<Rightarrow> segment list" where
  "union_step segs c =
    (if c_ids c = [] then segs
     else if segs \<noteq> [] \<and> s_end (last segs) = c_start c then extend_last segs (c_end c)
     else segs @ [\<lparr> s_start = c_start c, s_end = c_end c \<rparr>])"

definition union_intervals :: "cell list \<Rightarrow> segment list" where
  "union_intervals cells = foldl union_step [] cells"

record overlap = segment +
  o_ids :: "int list"

definition overlap_step :: "overlap list \<Rightarrow> cell \<Rightarrow> overlap list" where
  "overlap_step segs c =
    (if length (c_ids c) < 2 then segs
     else if segs \<noteq> [] \<and> s_end (last segs) = c_start c \<and> o_ids (last segs) = c_ids c
       then extend_last segs (c_end c)
     else segs @ [\<lparr> s_start = c_start c, s_end = c_end c, o_ids = c_ids c \<rparr>])"

definition overlap_intervals :: "cell list \<Rightarrow> overlap list" where
  "overlap_intervals cells = foldl overlap_step [] cells"

record gap = segment +
  g_left :: "int list"
  g_right :: "int list"

text \<open>The inner loop: the last index of the run of empty cells that contains \<open>i\<close>.\<close>

function last_empty :: "cell list \<Rightarrow> nat \<Rightarrow> nat" where
  "last_empty cells i =
    (if i + 1 < length cells \<and> c_ids (cells ! (i + 1)) = [] then last_empty cells (i + 1) else i)"
  by auto
termination by (relation "measure (\<lambda>(cells, i). length cells - i)") auto

declare last_empty.simps [simp del]

lemma last_empty_ge: "i \<le> last_empty cells i"
proof (induction cells i rule: last_empty.induct)
  case (1 cells i)
  then show ?case by (subst last_empty.simps) auto
qed

function gap_loop :: "cell list \<Rightarrow> nat \<Rightarrow> gap list" where
  "gap_loop cells i =
    (if length cells \<le> i then []
     else if c_ids (cells ! i) \<noteq> [] then gap_loop cells (i + 1)
     else let l = last_empty cells i in
       \<lparr> s_start = c_start (cells ! i), s_end = c_end (cells ! l),
         g_left = (if 0 < i then c_ids (cells ! (i - 1)) else []),
         g_right = (if l + 1 < length cells then c_ids (cells ! (l + 1)) else []) \<rparr>
       # gap_loop cells (l + 1))"
  by auto
termination
  by (relation "measure (\<lambda>(cells, i). length cells - i)")
    (use last_empty_ge in \<open>auto intro: le_less_trans diff_le_mono2 simp: diff_less_mono2 less_Suc_eq_le\<close>)

declare gap_loop.simps [simp del]

definition gap_intervals :: "cell list \<Rightarrow> gap list" where
  "gap_intervals cells = gap_loop cells 0"

section \<open>Coverage layers\<close>

record public_interval =
  p_start :: string
  p_end :: string
  p_duration :: string

definition public_interval_of :: "iso_codec \<Rightarrow> 'a segment_scheme \<Rightarrow> public_interval" where
  "public_interval_of C s =
    \<lparr> p_start = iso_text C (s_start s), p_end = iso_text C (s_end s),
      p_duration = show_int (duration_us (s_start s) (s_end s)) \<rparr>"

datatype coverage_state = No_Validated | Contiguous_Span | Gapped_Span
datatype run_coverage = Coverage_None | Coverage_Complete | Coverage_Partial

record layer =
  l_stream_key :: string
  l_coverage_kind :: string
  l_eligible_state :: string
  l_provider_semantics :: string
  l_state :: coverage_state
  l_selected_count :: nat
  l_requested_count :: nat
  l_included_ids :: "int list"
  l_excluded_ids :: "int list"
  l_not_requested_ids :: "int list"
  l_run_coverage :: run_coverage
  l_run_evidence :: "run_evidence list"
  l_accepted :: "(int \<times> public_interval) list"
  l_span :: "public_interval option"
  l_union :: "public_interval list"
  l_overlaps :: "(public_interval \<times> int list \<times> nat) list"
  l_gaps :: "(public_interval \<times> int list \<times> int list) list"
  l_span_us :: string
  l_covered_us :: string
  l_gap_us :: string
  l_overlapped_us :: string
  l_max_depth :: nat
  l_contiguous :: bool

definition rows_of_run :: "pyval \<Rightarrow> int \<Rightarrow> row list" where
  "rows_of_run evidence run_id =
    (case evidence of
       PList vs \<Rightarrow> List.map_filter (\<lambda>v. case v of
           PDict r \<Rightarrow> if dget r ''run_id'' = PInt run_id then Some r else None
         | _ \<Rightarrow> None) vs
     | _ \<Rightarrow> [])"

fun classify_all ::
  "iso_codec \<Rightarrow> pyval \<Rightarrow> string \<Rightarrow> int list \<Rightarrow>
   (py_error, (run_evidence \<times> interval option) list) result" where
  "classify_all C evidence eligible [] = Inr []"
| "classify_all C evidence eligible (run_id # ids) =
    bind_result (classify_run_evidence C run_id (rows_of_run evidence run_id) eligible) (\<lambda>c.
    bind_result (classify_all C evidence eligible ids) (\<lambda>cs. Inr (c # cs)))"

definition total_us :: "'a segment_scheme list \<Rightarrow> int" where
  "total_us segs = sum_list (map (\<lambda>s. duration_us (s_start s) (s_end s)) segs)"

definition max_depth :: "cell list \<Rightarrow> nat" where
  "max_depth cells = foldr (\<lambda>c m. max (length (c_ids c)) m) cells 0"

definition layer_of ::
  "iso_codec \<Rightarrow> int list \<Rightarrow> (run_evidence \<times> interval option) list \<Rightarrow>
   string \<Rightarrow> string \<Rightarrow> string \<Rightarrow> string \<Rightarrow> layer" where
  "layer_of C selected classified stream_key kind eligible semantics =
    (let evidence = map fst classified;
         is = sort_key (\<lambda>i. (iv_start i, iv_end i, iv_id i)) (List.map_filter snd classified);
         cells = interval_cells is;
         union = union_intervals cells;
         overlaps = overlap_intervals cells;
         gaps = gap_intervals cells;
         ids = (\<lambda>cls. map re_run_id (filter (\<lambda>e. re_class e = cls) evidence)) in
     \<lparr> l_stream_key = stream_key, l_coverage_kind = kind, l_eligible_state = eligible,
       l_provider_semantics = semantics,
       l_state = (if union = [] then No_Validated
         else if length union = 1 then Contiguous_Span else Gapped_Span),
       l_selected_count = length selected,
       l_requested_count = length (filter (\<lambda>e. re_source_state e \<noteq> None \<and>
         re_source_state e \<noteq> Some ''not_requested'') evidence),
       l_included_ids = ids Included, l_excluded_ids = ids Excluded,
       l_not_requested_ids = ids Not_Requested,
       l_run_coverage = (if ids Included = [] then Coverage_None
         else if length (ids Included) = length selected then Coverage_Complete
         else Coverage_Partial),
       l_run_evidence = evidence,
       l_accepted = map (\<lambda>i. (iv_id i, public_interval_of C
         \<lparr> s_start = iv_start i, s_end = iv_end i \<rparr>)) is,
       l_span = (if union = [] then None else Some (public_interval_of C
         \<lparr> s_start = s_start (hd union), s_end = s_end (last union) \<rparr>)),
       l_union = map (public_interval_of C) union,
       l_overlaps = map (\<lambda>s. (public_interval_of C s, o_ids s, length (o_ids s))) overlaps,
       l_gaps = map (\<lambda>s. (public_interval_of C s, g_left s, g_right s)) gaps,
       l_span_us = show_int (if union = [] then 0
         else duration_us (s_start (hd union)) (s_end (last union))),
       l_covered_us = show_int (total_us union), l_gap_us = show_int (total_us gaps),
       l_overlapped_us = show_int (total_us overlaps),
       l_max_depth = max_depth cells,
       l_contiguous = (length union = 1) \<rparr>)"

definition coverage_layer ::
  "iso_codec \<Rightarrow> int list \<Rightarrow> pyval \<Rightarrow> string \<Rightarrow> string \<Rightarrow> string \<Rightarrow> string \<Rightarrow>
   (py_error, layer) result" where
  "coverage_layer C selected evidence stream_key kind eligible semantics =
    bind_result (classify_all C evidence eligible selected) (\<lambda>classified.
      Inr (layer_of C selected classified stream_key kind eligible semantics))"

record coverage =
  cov_run_ids :: "int list"
  cov_transactions :: layer
  cov_events :: layer

definition build_wallet_interval_coverage ::
  "iso_codec \<Rightarrow> pyval \<Rightarrow> pyval \<Rightarrow> pyval \<Rightarrow> (py_error, coverage) result" where
  "build_wallet_interval_coverage C selected transactions events =
    bind_result (validate_selected_run_ids selected) (\<lambda>ids.
    bind_result (coverage_layer C ids transactions ''transactions''
      ''low_level_transaction_stream'' ''complete'' ''bounded_low_level_transaction_query'') (\<lambda>t.
    bind_result (coverage_layer C ids events ''account_events''
      ''provider_display_event_stream'' ''provider_stream_complete'' ''display_only_actions'')
      (\<lambda>e. Inr \<lparr> cov_run_ids = ids, cov_transactions = t, cov_events = e \<rparr>)))"

section \<open>Partitions into cells\<close>

definition seg_has :: "'a segment_scheme \<Rightarrow> int \<Rightarrow> bool" where
  "seg_has s t \<longleftrightarrow> s_start s \<le> t \<and> t < s_end s"

definition cell_has :: "cell \<Rightarrow> int \<Rightarrow> bool" where
  "cell_has c t \<longleftrightarrow> c_start c \<le> t \<and> t < c_end c"

definition iv_has :: "int \<Rightarrow> interval \<Rightarrow> bool" where
  "iv_has t i \<longleftrightarrow> iv_start i \<le> t \<and> t < iv_end i"

definition ids_at :: "interval list \<Rightarrow> int \<Rightarrow> int list" where
  "ids_at is t = sort (map iv_id (filter (iv_has t) is))"

definition chained :: "cell list \<Rightarrow> bool" where
  "chained cells \<longleftrightarrow> list_all (\<lambda>c. c_start c < c_end c) cells \<and>
     successively (\<lambda>c d. c_end c = c_start d) cells"

lemma chained_snoc:
  "chained (xs @ [c]) \<longleftrightarrow>
     chained xs \<and> c_start c < c_end c \<and> (xs \<noteq> [] \<longrightarrow> c_end (last xs) = c_start c)"
  by (auto simp: chained_def successively_append_iff)

lemma chained_Cons:
  "chained (c # xs) \<longleftrightarrow>
     c_start c < c_end c \<and> chained xs \<and> (xs \<noteq> [] \<longrightarrow> c_end c = c_start (hd xs))"
  by (cases xs) (auto simp: chained_def)

definition cells_us :: "cell list \<Rightarrow> int" where
  "cells_us cells = sum_list (map (\<lambda>c. c_end c - c_start c) cells)"

lemma cells_us_simps [simp]:
  "cells_us [] = 0" "cells_us (c # cs) = c_end c - c_start c + cells_us cs"
  "cells_us (cs @ ds) = cells_us cs + cells_us ds"
  by (simp_all add: cells_us_def)

lemma total_us_simps [simp]:
  "total_us [] = 0" "total_us (s # ss) = s_end s - s_start s + total_us ss"
  "total_us (ss @ rs) = total_us ss + total_us rs"
  by (simp_all add: total_us_def)

lemma chained_total: "chained cells \<Longrightarrow> cells \<noteq> [] \<Longrightarrow>
   cells_us cells = c_end (last cells) - c_start (hd cells)"
  by (induction cells) (auto simp: chained_Cons)

lemma cells_us_split: "cells_us (filter P cells) + cells_us (filter (\<lambda>c. \<not> P c) cells) = cells_us cells"
  by (induction cells) auto

section \<open>Merging selected cells into segments\<close>

text \<open>
  The union and the overlap loops share one contract: selected cells become segments, and a
  segment grows while the next selected cell touches it and carries the same key.
\<close>

locale segment_merge =
  fixes step :: "'a segment_scheme list \<Rightarrow> cell \<Rightarrow> 'a segment_scheme list"
    and select :: "cell \<Rightarrow> bool"
    and make :: "cell \<Rightarrow> 'a segment_scheme"
    and key :: "'a segment_scheme \<Rightarrow> 'k"
    and ckey :: "cell \<Rightarrow> 'k"
  assumes step: "step segs c =
      (if \<not> select c then segs
       else if segs \<noteq> [] \<and> s_end (last segs) = c_start c \<and> key (last segs) = ckey c
         then extend_last segs (c_end c)
       else segs @ [make c])"
    and make: "s_start (make c) = c_start c" "s_end (make c) = c_end c" "key (make c) = ckey c"
    and key_extend: "key (s\<lparr> s_end := e \<rparr>) = key s"
begin

lemma step_cases:
  obtains (skip) "\<not> select c" "step segs c = segs"
  | (extend) ss s where "select c" "segs = ss @ [s]" "s_end s = c_start c" "key s = ckey c"
      "step segs c = ss @ [s\<lparr> s_end := c_end c \<rparr>]"
  | (fresh) "select c" "step segs c = segs @ [make c]"
      "segs = [] \<or> s_end (last segs) \<noteq> c_start c \<or> key (last segs) \<noteq> ckey c"
proof (cases "select c")
  case True
  show ?thesis
  proof (cases "segs \<noteq> [] \<and> s_end (last segs) = c_start c \<and> key (last segs) = ckey c")
    case t: True
    then have "segs = butlast segs @ [last segs]" by simp
    with t True that(2) [of "butlast segs" "last segs"] show ?thesis
      by (simp add: step extend_last_def)
  next
    case False
    with True that(3) show ?thesis by (auto simp add: step)
  qed
qed (simp add: step that(1))

definition separated :: "'a segment_scheme list \<Rightarrow> bool" where
  "separated segs \<longleftrightarrow> list_all (\<lambda>s. s_start s < s_end s) segs \<and>
     successively (\<lambda>x y. s_end x < s_start y \<or> s_end x = s_start y \<and> key x \<noteq> key y) segs"

lemma merge_separated:
  "chained cells \<Longrightarrow> separated (foldl step [] cells) \<and>
     (foldl step [] cells \<noteq> [] \<longrightarrow>
        cells \<noteq> [] \<and> s_end (last (foldl step [] cells)) \<le> c_end (last cells))"
proof (induction cells rule: rev_induct)
  case Nil
  then show ?case by (simp add: separated_def)
next
  case (snoc c xs)
  let ?segs = "foldl step [] xs"
  have c: "c_start c < c_end c" "xs \<noteq> [] \<Longrightarrow> c_end (last xs) = c_start c"
    and ih: "separated ?segs" "?segs \<noteq> [] \<Longrightarrow> xs \<noteq> [] \<and> s_end (last ?segs) \<le> c_end (last xs)"
    using snoc by (auto simp: chained_snoc)
  show ?case
  proof (cases rule: step_cases [of c ?segs])
    case skip
    with c ih show ?thesis by auto
  next
    case (extend ss s)
    with c ih show ?thesis
      by (auto simp: separated_def successively_append_iff key_extend)
  next
    case fresh
    have "?segs \<noteq> [] \<Longrightarrow> s_end (last ?segs) \<le> c_start c"
      using ih(2) c(2) by auto
    with c ih fresh show ?thesis
      by (auto simp: separated_def successively_append_iff make)
  qed
qed

lemma merge_covers:
  "chained cells \<Longrightarrow>
     (\<exists>s \<in> set (foldl step [] cells). seg_has s t \<and> key s = k) \<longleftrightarrow>
     (\<exists>c \<in> set cells. select c \<and> cell_has c t \<and> ckey c = k)"
proof (induction cells rule: rev_induct)
  case Nil
  then show ?case by simp
next
  case (snoc c xs)
  let ?segs = "foldl step [] xs"
  have ih: "(\<exists>s \<in> set ?segs. seg_has s t \<and> key s = k) \<longleftrightarrow>
      (\<exists>c \<in> set xs. select c \<and> cell_has c t \<and> ckey c = k)"
    and lt: "c_start c < c_end c" and sep: "separated ?segs"
    using snoc merge_separated [of xs] by (auto simp: chained_snoc)
  show ?case
  proof (cases rule: step_cases [of c ?segs])
    case skip
    with ih show ?thesis by auto
  next
    case (extend ss s)
    with sep have "s_start s < c_start c" by (simp add: separated_def)
    with extend lt have "seg_has (s\<lparr> s_end := c_end c \<rparr>) t \<longleftrightarrow> seg_has s t \<or> cell_has c t"
      by (auto simp: seg_has_def cell_has_def)
    with extend ih show ?thesis by (auto simp: key_extend)
  next
    case fresh
    have "seg_has (make c) t \<longleftrightarrow> cell_has c t" by (simp add: seg_has_def cell_has_def make)
    with fresh ih show ?thesis by (auto simp: make)
  qed
qed

lemma merge_total: "total_us (foldl step [] cells) = cells_us (filter select cells)"
proof (induction cells rule: rev_induct)
  case Nil
  then show ?case by simp
next
  case (snoc c xs)
  show ?case
    by (cases rule: step_cases [of c "foldl step [] xs"]) (use snoc in \<open>auto simp: make\<close>)
qed

lemma merge_last_end: "select c \<Longrightarrow> s_end (last (foldl step [] (xs @ [c]))) = c_end c"
  by (cases rule: step_cases [of c "foldl step [] xs"]) (auto simp: make)

lemma merge_hd_start:
  "cells \<noteq> [] \<Longrightarrow> select (hd cells) \<Longrightarrow> foldl step [] cells \<noteq> [] \<and>
     s_start (hd (foldl step [] cells)) = c_start (hd cells)"
proof (induction cells rule: rev_induct)
  case Nil
  then show ?case by simp
next
  case (snoc c xs)
  show ?case
  proof (cases "xs = []")
    case True
    with snoc show ?thesis by (simp add: step make)
  next
    case False
    with snoc have "foldl step [] xs \<noteq> []" "s_start (hd (foldl step [] xs)) = c_start (hd xs)"
      by auto
    with False show ?thesis
      by (cases rule: step_cases [of c "foldl step [] xs"]) (auto simp: hd_append split: if_splits)
  qed
qed

end

interpretation um: segment_merge union_step "\<lambda>c. c_ids c \<noteq> []"
  "\<lambda>c. \<lparr> s_start = c_start c, s_end = c_end c \<rparr>" "\<lambda>_. ()" "\<lambda>_. ()"
  by unfold_locales (auto simp: union_step_def)

interpretation om: segment_merge overlap_step "\<lambda>c. 2 \<le> length (c_ids c)"
  "\<lambda>c. \<lparr> s_start = c_start c, s_end = c_end c, o_ids = c_ids c \<rparr>" o_ids c_ids
  by unfold_locales (auto simp: overlap_step_def)

section \<open>The cells of a set of intervals\<close>

lemma zip_tl_sorted:
  "sorted_wrt (<) bs \<Longrightarrow> filter (\<lambda>(s, e). s < e) (zip bs (tl bs)) = zip bs (tl bs)"
  by (induction bs rule: induct_list012) auto

lemma zip_tl_chained:
  "sorted_wrt (<) bs \<Longrightarrow>
   chained (map (\<lambda>(s, e). \<lparr> c_start = s, c_end = e, c_ids = f s e \<rparr>) (zip bs (tl bs)))"
proof (induction bs rule: induct_list012)
  case (3 x y zs)
  then show ?case by (cases zs) (auto simp: chained_Cons)
qed (simp_all add: chained_def)

lemma zip_tl_covers:
  "sorted_wrt (<) (bs :: int list) \<Longrightarrow> a \<in> set bs \<Longrightarrow> b \<in> set bs \<Longrightarrow> a \<le> t \<Longrightarrow> t < b \<Longrightarrow>
   \<exists>(s, e) \<in> set (zip bs (tl bs)). s \<le> t \<and> t < e"
proof (induction bs arbitrary: a rule: induct_list012)
  case (3 x y zs)
  show ?case
  proof (cases "t < y")
    case True
    with 3 have "x \<le> t" by auto
    with True show ?thesis by auto
  next
    case False
    with 3 have "b \<in> set (y # zs)" by auto
    with 3 False have "\<exists>(s, e) \<in> set (zip (y # zs) (tl (y # zs))). s \<le> t \<and> t < e"
      by (intro "3.IH"(2) [of y]) auto
    then show ?thesis by auto
  qed
qed auto

lemma zip_tl_outside:
  "sorted_wrt (<) (bs :: int list) \<Longrightarrow> (s, e) \<in> set (zip bs (tl bs)) \<Longrightarrow> b \<in> set bs \<Longrightarrow>
   b \<le> s \<or> e \<le> b"
proof (induction bs rule: induct_list012)
  case (3 x y zs)
  show ?case
  proof (cases "(s, e) = (x, y)")
    case True
    with 3 show ?thesis by auto
  next
    case False
    with "3.prems" have z: "(s, e) \<in> set (zip (y # zs) (tl (y # zs)))" by auto
    then have "s \<in> set (y # zs)" by (rule set_zip_leftD)
    with "3.prems" have "x \<le> s" by auto
    with 3 z show ?thesis by (cases "b = x") auto
  qed
qed simp_all

lemma boundaries_sorted: "sorted_wrt (<) (boundaries is)"
  by (simp add: boundaries_def)

lemma boundaries_set: "set (boundaries is) = iv_start ` set is \<union> iv_end ` set is"
  by (auto simp: boundaries_def)

lemma interval_cells_eq:
  "interval_cells is = map (\<lambda>(s, e). \<lparr> c_start = s, c_end = e, c_ids = active_ids is s e \<rparr>)
     (zip (boundaries is) (tl (boundaries is)))"
  by (simp add: interval_cells_def zip_tl_sorted boundaries_sorted)

lemma cells_chained [simp]: "chained (interval_cells is)"
  by (simp add: interval_cells_eq zip_tl_chained boundaries_sorted)

lemma active_ids_at:
  assumes "(s, e) \<in> set (zip (boundaries is) (tl (boundaries is)))" "s \<le> t" "t < e"
  shows "active_ids is s e = ids_at is t"
proof -
  have "iv_start i < e \<and> s < iv_end i \<longleftrightarrow> iv_has t i" if "i \<in> set is" for i
  proof -
    from that have "iv_start i \<in> set (boundaries is)" "iv_end i \<in> set (boundaries is)"
      by (auto simp: boundaries_set)
    with zip_tl_outside [OF boundaries_sorted assms(1)]
    have "iv_start i \<le> s \<or> e \<le> iv_start i" "iv_end i \<le> s \<or> e \<le> iv_end i" by auto
    with assms(2,3) show ?thesis by (auto simp: iv_has_def)
  qed
  then show ?thesis unfolding active_ids_def ids_at_def by (metis (no_types, lifting) filter_cong)
qed

lemma cell_ids_at: "c \<in> set (interval_cells is) \<Longrightarrow> cell_has c t \<Longrightarrow> c_ids c = ids_at is t"
  by (auto simp: interval_cells_eq cell_has_def active_ids_at)

lemma ids_at_Nil: "ids_at is t = [] \<longleftrightarrow> (\<forall>i \<in> set is. \<not> iv_has t i)"
  by (simp only: ids_at_def set_empty [symmetric] set_sort set_map set_filter) auto

lemma cell_exists:
  assumes "a \<in> set (boundaries is)" "b \<in> set (boundaries is)" "a \<le> t" "t < b"
  shows "\<exists>c \<in> set (interval_cells is). cell_has c t"
  using zip_tl_covers [OF boundaries_sorted assms]
  by (force simp: interval_cells_eq cell_has_def)

lemma cell_exists_at: "ids_at is t \<noteq> [] \<Longrightarrow> \<exists>c \<in> set (interval_cells is). cell_has c t"
proof -
  assume "ids_at is t \<noteq> []"
  then obtain i where i: "i \<in> set is" "iv_has t i" by (auto simp: ids_at_Nil)
  then show ?thesis
    by (intro cell_exists [of "iv_start i" "is" "iv_end i"]) (auto simp: iv_has_def boundaries_set)
qed

text \<open>The selected cells at an instant are read off the intervals that contain it.\<close>

lemma selected_cells_at:
  assumes "\<not> P []"
  shows "(\<exists>c \<in> set (interval_cells is). P (c_ids c) \<and> cell_has c t \<and> c_ids c = k)
     \<longleftrightarrow> P (ids_at is t) \<and> ids_at is t = k"
  using cell_ids_at [of _ "is" t] cell_exists_at [of "is" t] assms by metis

lemma cell_nonempty: "chained cells \<Longrightarrow> c \<in> set cells \<Longrightarrow> cell_has c (c_start c)"
  by (auto simp: chained_def list_all_iff cell_has_def)

lemma hd_sorted: "sorted_wrt (<) (bs :: int list) \<Longrightarrow> b \<in> set bs \<Longrightarrow> hd bs \<le> b"
  by (cases bs) auto

lemma last_sorted: "sorted_wrt (<) (bs :: int list) \<Longrightarrow> b \<in> set bs \<Longrightarrow> b \<le> last bs"
  by (induction bs rule: rev_induct) (auto simp: sorted_wrt_append)

definition valid_interval :: "interval \<Rightarrow> bool" where
  "valid_interval i \<longleftrightarrow> iv_start i < iv_end i"

lemma boundaries_two:
  assumes "is \<noteq> []" "list_all valid_interval is"
  obtains x y zs where "boundaries is = x # y # zs"
proof -
  obtain i where "i \<in> set is" "iv_start i < iv_end i"
    using assms by (cases "is") (auto simp: valid_interval_def)
  then have "iv_start i \<in> set (boundaries is)" "iv_end i \<in> set (boundaries is)"
    "iv_start i \<noteq> iv_end i" by (auto simp: boundaries_set)
  with that show thesis
    by (cases "boundaries is" rule: remdups_adj.cases) auto
qed

lemma boundaries_ends:
  assumes "is \<noteq> []" "list_all valid_interval is"
  obtains i j where "i \<in> set is" "hd (boundaries is) = iv_start i"
    "j \<in> set is" "last (boundaries is) = iv_end j"
    "\<forall>k \<in> set is. hd (boundaries is) \<le> iv_start k \<and> iv_end k \<le> last (boundaries is)"
proof -
  obtain x y zs where b: "boundaries is = x # y # zs" using boundaries_two [OF assms] .
  then have "hd (boundaries is) \<in> set (boundaries is)" "last (boundaries is) \<in> set (boundaries is)"
    by simp_all
  then obtain i j where i: "i \<in> set is" "hd (boundaries is) = iv_start i \<or> hd (boundaries is) = iv_end i"
    and j: "j \<in> set is" "last (boundaries is) = iv_start j \<or> last (boundaries is) = iv_end j"
    by (auto simp: boundaries_set)
  have le: "hd (boundaries is) \<le> iv_start k \<and> iv_end k \<le> last (boundaries is)" if "k \<in> set is" for k
    using that hd_sorted [OF boundaries_sorted, of "iv_start k" "is"]
      last_sorted [OF boundaries_sorted, of "iv_end k" "is"]
    by (simp add: boundaries_set)
  have v: "iv_start k < iv_end k" if "k \<in> set is" for k
    using that assms(2) by (auto simp: list_all_iff valid_interval_def)
  have "hd (boundaries is) = iv_start i" using i(2) le [OF i(1)] v [OF i(1)] by linarith
  moreover have "last (boundaries is) = iv_end j" using j(2) le [OF j(1)] v [OF j(1)] by linarith
  ultimately show thesis using that i(1) j(1) le by blast
qed

lemma snd_last_zip_tl: "snd (last (zip (x # y # zs) (y # zs))) = last (y # zs)"
  by (induction zs arbitrary: x y) auto

lemma cells_ends:
  assumes "is \<noteq> []" "list_all valid_interval is"
  shows "interval_cells is \<noteq> []" "c_ids (hd (interval_cells is)) \<noteq> []"
    "c_ids (last (interval_cells is)) \<noteq> []"
    "c_start (hd (interval_cells is)) = hd (boundaries is)"
    "c_end (last (interval_cells is)) = last (boundaries is)"
proof -
  obtain x y zs where b: "boundaries is = x # y # zs" using boundaries_two [OF assms] .
  let ?cells = "interval_cells is"
  show ne: "?cells \<noteq> []" by (simp add: interval_cells_eq b)
  show hd: "c_start (hd ?cells) = hd (boundaries is)" by (simp add: interval_cells_eq b)
  show last: "c_end (last ?cells) = last (boundaries is)"
    unfolding interval_cells_eq b list.sel
    by (subst last_map) (simp_all only: split_def cell.select_convs snd_last_zip_tl, simp_all)
  obtain i j where i: "i \<in> set is" and hi: "hd (boundaries is) = iv_start i"
    and j: "j \<in> set is" and lj: "last (boundaries is) = iv_end j"
    using boundaries_ends [OF assms] by metis
  have valid: "iv_start k < iv_end k" if "k \<in> set is" for k
    using that assms(2) by (auto simp: list_all_iff valid_interval_def)
  have "cell_has (hd ?cells) (iv_start i)"
    using cell_nonempty [of ?cells "hd ?cells"] ne hd hi by simp
  then have "c_ids (hd ?cells) = ids_at is (iv_start i)" using cell_ids_at ne by simp
  then show "c_ids (hd ?cells) \<noteq> []" using i valid [OF i] by (auto simp: ids_at_Nil iv_has_def)
  have c: "cell_has (last ?cells) (c_start (last ?cells))"
    using cell_nonempty [of ?cells "last ?cells"] ne by simp
  then have "cell_has (last ?cells) (iv_end j - 1)"
    using last lj by (auto simp: cell_has_def)
  then have "c_ids (last ?cells) = ids_at is (iv_end j - 1)" using cell_ids_at ne by simp
  then show "c_ids (last ?cells) \<noteq> []" using j valid [OF j] by (auto simp: ids_at_Nil iv_has_def)
qed

section \<open>The gap loop\<close>

lemma last_empty_props:
  "i < length cells \<Longrightarrow> c_ids (cells ! i) = [] \<Longrightarrow>
   last_empty cells i < length cells \<and>
   (\<forall>j. i \<le> j \<and> j \<le> last_empty cells i \<longrightarrow> c_ids (cells ! j) = []) \<and>
   (last_empty cells i + 1 < length cells \<longrightarrow> c_ids (cells ! (last_empty cells i + 1)) \<noteq> [])"
proof (induction cells i rule: last_empty.induct)
  case (1 cells i)
  show ?case
  proof (cases "i + 1 < length cells \<and> c_ids (cells ! (i + 1)) = []")
    case True
    with 1 have ih: "last_empty cells (i + 1) < length cells \<and>
      (\<forall>j. i + 1 \<le> j \<and> j \<le> last_empty cells (i + 1) \<longrightarrow> c_ids (cells ! j) = []) \<and>
      (last_empty cells (i + 1) + 1 < length cells \<longrightarrow>
         c_ids (cells ! (last_empty cells (i + 1) + 1)) \<noteq> [])" by blast
    from True have "last_empty cells i = last_empty cells (i + 1)"
      by (subst last_empty.simps) simp
    with ih "1.prems" show ?thesis by (metis Suc_eq_plus1 le_antisym not_less_eq_eq)
  next
    case False
    then have "last_empty cells i = i" by (subst last_empty.simps) (simp only: False if_False)
    with False 1 show ?thesis by (metis le_antisym)
  qed
qed

lemma drop_run:
  assumes "i \<le> l" "l < length cells"
  shows "drop i cells = take (l + 1 - i) (drop i cells) @ drop (l + 1) cells"
  by (metis (no_types, lifting) assms Suc_eq_plus1 append_take_drop_id drop_drop le_SucI
      le_add_diff_inverse2)

lemma chained_append: "chained (xs @ ys) \<Longrightarrow> chained xs \<and> chained ys"
  by (auto simp: chained_def successively_append_iff)

lemma chained_drop: "chained cells \<Longrightarrow> chained (drop i cells)"
  using chained_append [of "take i cells" "drop i cells"] by simp

lemma chained_take: "chained cells \<Longrightarrow> chained (take i cells)"
  using chained_append [of "take i cells" "drop i cells"] by simp

lemma cells_us_pos: "chained cells \<Longrightarrow> cells \<noteq> [] \<Longrightarrow> 0 < cells_us cells"
proof (induction cells)
  case (Cons c cells)
  then show ?case by (cases cells) (auto simp: chained_Cons)
qed simp

lemma chained_covers: "chained cells \<Longrightarrow> cells \<noteq> [] \<Longrightarrow>
   (\<exists>c \<in> set cells. cell_has c t) \<longleftrightarrow> c_start (hd cells) \<le> t \<and> t < c_end (last cells)"
proof (induction cells)
  case Nil
  then show ?case by simp
next
  case (Cons c cells)
  show ?case
  proof (cases "cells = []")
    case True
    then show ?thesis by (simp add: cell_has_def)
  next
    case False
    then have "c_start (hd cells) < c_end (last cells)"
      using chained_total [of cells] cells_us_pos [of cells] Cons.prems by (simp add: chained_Cons)
    with Cons False show ?thesis by (auto simp: chained_Cons cell_has_def)
  qed
qed

lemma gap_loop_spec:
  "chained cells \<Longrightarrow>
     ((\<exists>g \<in> set (gap_loop cells i). seg_has g t) \<longleftrightarrow>
        (\<exists>c \<in> set (drop i cells). c_ids c = [] \<and> cell_has c t)) \<and>
     total_us (gap_loop cells i) = cells_us (filter (\<lambda>c. c_ids c = []) (drop i cells))"
proof (induction cells i rule: gap_loop.induct)
  case (1 cells i)
  show ?case
  proof (cases "length cells \<le> i")
    case True
    then show ?thesis by (simp add: gap_loop.simps [of cells i])
  next
    case False
    then have d: "drop i cells = cells ! i # drop (i + 1) cells"
      by (simp add: Cons_nth_drop_Suc)
    show ?thesis
    proof (cases "c_ids (cells ! i) = []")
      case nonempty: False
      with False have g: "gap_loop cells i = gap_loop cells (i + 1)"
        by (subst gap_loop.simps) simp
      from 1 False nonempty show ?thesis unfolding g d by auto
    next
      case True
      let ?l = "last_empty cells i"
      let ?run = "take (?l + 1 - i) (drop i cells)"
      note le = last_empty_ge [of i cells]
      have p: "?l < length cells" "\<And>j. i \<le> j \<Longrightarrow> j \<le> ?l \<Longrightarrow> c_ids (cells ! j) = []"
        using last_empty_props [of i cells] False True by auto
      have split: "drop i cells = ?run @ drop (?l + 1) cells" by (rule drop_run [OF le p(1)])
      have run: "?run \<noteq> []" "chained ?run" "hd ?run = cells ! i" "last ?run = cells ! ?l"
        using p(1) le False "1.prems"
        by (auto simp: chained_take chained_drop hd_drop_conv_nth last_conv_nth)
      have empty: "\<forall>c \<in> set ?run. c_ids c = []"
        using p le by (auto simp: in_set_conv_nth)
      have cells: "(\<exists>c \<in> set ?run. cell_has c t) \<longleftrightarrow>
          c_start (cells ! i) \<le> t \<and> t < c_end (cells ! ?l)"
        using chained_covers [OF run(2,1)] run by simp
      have us: "cells_us ?run = c_end (cells ! ?l) - c_start (cells ! i)"
        using chained_total [OF run(2,1)] run by simp
      have "\<exists>gl gr. gap_loop cells i =
          \<lparr> s_start = c_start (cells ! i), s_end = c_end (cells ! ?l), g_left = gl, g_right = gr \<rparr>
          # gap_loop cells (?l + 1)"
        using False True by (subst gap_loop.simps) (simp add: Let_def)
      then obtain gl gr where g: "gap_loop cells i =
          \<lparr> s_start = c_start (cells ! i), s_end = c_end (cells ! ?l), g_left = gl, g_right = gr \<rparr>
          # gap_loop cells (?l + 1)" by blast
      have ih: "((\<exists>g \<in> set (gap_loop cells (?l + 1)). seg_has g t) \<longleftrightarrow>
          (\<exists>c \<in> set (drop (?l + 1) cells). c_ids c = [] \<and> cell_has c t))"
        "total_us (gap_loop cells (?l + 1)) = cells_us (filter (\<lambda>c. c_ids c = []) (drop (?l + 1) cells))"
        using "1.IH"(2) [OF False] True "1.prems" by auto
      have "filter (\<lambda>c. c_ids c = []) ?run = ?run" using empty by (simp add: filter_id_conv)
      then have filter: "filter (\<lambda>c. c_ids c = []) (drop i cells)
          = ?run @ filter (\<lambda>c. c_ids c = []) (drop (?l + 1) cells)"
        using arg_cong [OF split, of "filter (\<lambda>c. c_ids c = [])"] by (simp only: filter_append)
      have set: "set (drop i cells) = set ?run \<union> set (drop (?l + 1) cells)"
        using arg_cong [OF split, of set] by (simp only: set_append)
      have "total_us (gap_loop cells i) = cells_us (filter (\<lambda>c. c_ids c = []) (drop i cells))"
        unfolding filter cells_us_simps g us by (simp only: total_us_simps ih segment.simps)
      moreover have "(\<exists>g \<in> set (gap_loop cells i). seg_has g t) \<longleftrightarrow>
          (\<exists>c \<in> set (drop i cells). c_ids c = [] \<and> cell_has c t)"
        unfolding set g using cells empty ih(1) by (auto simp: seg_has_def)
      ultimately show ?thesis by blast
    qed
  qed
qed

section \<open>What the diagnostics mean\<close>

lemma union_covers:
  "(\<exists>s \<in> set (union_intervals (interval_cells is)). seg_has s t) \<longleftrightarrow> (\<exists>i \<in> set is. iv_has t i)"
proof -
  have "(\<exists>s \<in> set (union_intervals (interval_cells is)). seg_has s t)
      \<longleftrightarrow> (\<exists>c \<in> set (interval_cells is). c_ids c \<noteq> [] \<and> cell_has c t)"
    using um.merge_covers [OF cells_chained [of "is"], of t "()"] by (simp add: union_intervals_def)
  also have "\<dots> \<longleftrightarrow> ids_at is t \<noteq> []"
    using selected_cells_at [of "\<lambda>l. l \<noteq> []" "is" t] by auto
  finally show ?thesis by (simp add: ids_at_Nil)
qed

text \<open>C36: an instant lies in a union interval exactly when some accepted interval contains it,
  and the union intervals are nonempty, in order, and never touch.\<close>

theorem union_exact:
  "((\<exists>s \<in> set (union_intervals (interval_cells is)). seg_has s t) \<longleftrightarrow> (\<exists>i \<in> set is. iv_has t i)) \<and>
   list_all (\<lambda>s. s_start s < s_end s) (union_intervals (interval_cells is)) \<and>
   successively (\<lambda>x y. s_end x < s_start y) (union_intervals (interval_cells is))"
  using um.merge_separated [OF cells_chained [of "is"]]
  by (simp add: union_covers um.separated_def flip: union_intervals_def)

text \<open>an overlap interval with given run ids contains an instant exactly when these are the
  ids, in order, of the accepted intervals that contain it, and there are at least two.\<close>

theorem overlap_exact:
  "(\<exists>s \<in> set (overlap_intervals (interval_cells is)). seg_has s t \<and> o_ids s = ids) \<longleftrightarrow>
     ids = sort (map iv_id (filter (iv_has t) is)) \<and> 2 \<le> length ids"
proof -
  have "(\<exists>s \<in> set (overlap_intervals (interval_cells is)). seg_has s t \<and> o_ids s = ids)
      \<longleftrightarrow> (\<exists>c \<in> set (interval_cells is). 2 \<le> length (c_ids c) \<and> cell_has c t \<and> c_ids c = ids)"
    using om.merge_covers [OF cells_chained [of "is"], of t ids] by (simp add: overlap_intervals_def)
  also have "\<dots> \<longleftrightarrow> 2 \<le> length (ids_at is t) \<and> ids_at is t = ids"
    by (rule selected_cells_at) simp
  finally show ?thesis by (auto simp: ids_at_def)
qed

lemma cells_span:
  assumes "is \<noteq> []" "list_all valid_interval is"
  shows "(\<exists>c \<in> set (interval_cells is). cell_has c t) \<longleftrightarrow>
     (\<exists>i \<in> set is. iv_start i \<le> t) \<and> (\<exists>j \<in> set is. t < iv_end j)"
proof -
  note e = cells_ends [OF assms]
  obtain i j where i: "i \<in> set is" "hd (boundaries is) = iv_start i"
    and j: "j \<in> set is" "last (boundaries is) = iv_end j"
    and le: "\<forall>k \<in> set is. hd (boundaries is) \<le> iv_start k \<and> iv_end k \<le> last (boundaries is)"
    using boundaries_ends [OF assms] .
  have "hd (boundaries is) \<le> t \<longleftrightarrow> (\<exists>i \<in> set is. iv_start i \<le> t)"
    using i le by (metis order_trans)
  moreover have "t < last (boundaries is) \<longleftrightarrow> (\<exists>j \<in> set is. t < iv_end j)"
    using j le by (metis less_le_trans)
  ultimately show ?thesis
    using chained_covers [OF cells_chained e(1)] e by simp
qed

text \<open>an instant lies in a gap exactly when it is inside the span of the accepted
  intervals and no accepted interval contains it.\<close>

theorem gap_exact:
  assumes "list_all valid_interval is"
  shows "(\<exists>g \<in> set (gap_intervals (interval_cells is)). seg_has g t) \<longleftrightarrow>
     (\<exists>i \<in> set is. iv_start i \<le> t) \<and> (\<exists>j \<in> set is. t < iv_end j) \<and> (\<forall>i \<in> set is. \<not> iv_has t i)"
proof (cases "is = []")
  case True
  then show ?thesis by (simp add: gap_intervals_def interval_cells_def boundaries_def gap_loop.simps)
next
  case False
  have "(\<exists>g \<in> set (gap_intervals (interval_cells is)). seg_has g t)
      \<longleftrightarrow> (\<exists>c \<in> set (interval_cells is). c_ids c = [] \<and> cell_has c t)"
    using gap_loop_spec [OF cells_chained [of "is"], of 0 t] by (simp add: gap_intervals_def)
  also have "\<dots> \<longleftrightarrow> (\<exists>c \<in> set (interval_cells is). cell_has c t) \<and> ids_at is t = []"
    using cell_ids_at [of _ "is" t] by metis
  finally show ?thesis using cells_span [OF False assms, of t] by (auto simp: ids_at_Nil)
qed

lemma gap_exact_witness:
  "\<exists>g \<in> set (gap_intervals (interval_cells [\<lparr> iv_id = 7, iv_start = 0, iv_end = 10 \<rparr>,
     \<lparr> iv_id = 9, iv_start = 20, iv_end = 30 \<rparr>])). seg_has g 15"
  by (subst gap_exact) (simp_all add: valid_interval_def iv_has_def)

text \<open>the covered and the gap durations add up to the duration of the span.\<close>

theorem durations_partition_span:
  assumes "is \<noteq> []" "list_all valid_interval is"
  shows "union_intervals (interval_cells is) \<noteq> [] \<and>
     total_us (union_intervals (interval_cells is)) + total_us (gap_intervals (interval_cells is))
       = s_end (last (union_intervals (interval_cells is)))
         - s_start (hd (union_intervals (interval_cells is)))"
proof -
  let ?cells = "interval_cells is"
  note e = cells_ends [OF assms]
  have h: "union_intervals ?cells \<noteq> []" "s_start (hd (union_intervals ?cells)) = c_start (hd ?cells)"
    using um.merge_hd_start [OF e(1,2)] by (simp_all add: union_intervals_def)
  have l: "s_end (last (union_intervals ?cells)) = c_end (last ?cells)"
    using um.merge_last_end [of "last ?cells" "butlast ?cells"] e(1,3)
    by (simp add: union_intervals_def)
  have "total_us (union_intervals ?cells) + total_us (gap_intervals ?cells) = cells_us ?cells"
    using um.merge_total [of ?cells] gap_loop_spec [OF cells_chained [of "is"], of 0]
      cells_us_split [of "\<lambda>c. c_ids c = []" ?cells]
    by (simp add: union_intervals_def gap_intervals_def)
  with h l show ?thesis using chained_total [OF cells_chained e(1)] by simp
qed

lemma durations_partition_span_witness:
  "total_us (union_intervals (interval_cells [\<lparr> iv_id = 7, iv_start = 0, iv_end = 10 \<rparr>]))
   + total_us (gap_intervals (interval_cells [\<lparr> iv_id = 7, iv_start = 0, iv_end = 10 \<rparr>]))
   = s_end (last (union_intervals (interval_cells [\<lparr> iv_id = 7, iv_start = 0, iv_end = 10 \<rparr>])))
     - s_start (hd (union_intervals (interval_cells [\<lparr> iv_id = 7, iv_start = 0, iv_end = 10 \<rparr>])))"
  using durations_partition_span [of "[\<lparr> iv_id = 7, iv_start = 0, iv_end = 10 \<rparr>]"]
  by (simp add: valid_interval_def)

lemma before_all: "\<exists>t. \<forall>i \<in> set is. t < iv_start i"
proof (induction "is")
  case (Cons i "is")
  then obtain t where "\<forall>i \<in> set is. t < iv_start i" by blast
  then show ?case by (intro exI [of _ "min t (iv_start i - 1)"]) auto
qed simp

lemma max_depth_ge: "c \<in> set cells \<Longrightarrow> length (c_ids c) \<le> max_depth cells"
  by (induction cells) (auto simp: max_depth_def)

lemma max_depth_reached: "max_depth cells = 0 \<or> (\<exists>c \<in> set cells. length (c_ids c) = max_depth cells)"
  by (induction cells) (auto simp: max_depth_def max_def)

text \<open>the maximal depth bounds the number of accepted intervals at every instant, and some
  instant reaches it.\<close>

theorem max_depth_exact:
  "length (filter (iv_has t) is) \<le> max_depth (interval_cells is) \<and>
   (\<exists>t. length (filter (iv_has t) is) = max_depth (interval_cells is))"
proof
  have len: "length (ids_at is t) = length (filter (iv_has t) is)" for t by (simp add: ids_at_def)
  show "length (filter (iv_has t) is) \<le> max_depth (interval_cells is)"
  proof (cases "ids_at is t = []")
    case True
    then show ?thesis using len [of t] by simp
  next
    case False
    then show ?thesis
      using cell_exists_at [of "is" t] cell_ids_at [of _ "is" t] max_depth_ge len [of t] by fastforce
  qed
  show "\<exists>t. length (filter (iv_has t) is) = max_depth (interval_cells is)"
  proof (cases "max_depth (interval_cells is) = 0")
    case True
    obtain t where "\<forall>i \<in> set is. t < iv_start i" using before_all ..
    then have "filter (iv_has t) is = []" by (auto simp: filter_empty_conv iv_has_def)
    with True show ?thesis by (metis list.size(3))
  next
    case False
    then obtain c where c: "c \<in> set (interval_cells is)" "length (c_ids c) = max_depth (interval_cells is)"
      using max_depth_reached [of "interval_cells is"] by auto
    then have "c_ids c = ids_at is (c_start c)"
      using cell_ids_at cell_nonempty cells_chained by blast
    with c len show ?thesis by metis
  qed
qed

section \<open>Layers\<close>

text \<open>What a classified run tells: its run, and an interval exactly when it is included.\<close>

definition sound_evidence :: "int \<Rightarrow> run_evidence \<times> interval option \<Rightarrow> bool" where
  "sound_evidence run_id c \<longleftrightarrow> re_run_id (fst c) = run_id \<and>
     (re_class (fst c) = Included \<longleftrightarrow> snd c \<noteq> None) \<and>
     (\<forall>i. snd c = Some i \<longrightarrow> iv_id i = run_id \<and> valid_interval i)"

lemma run_evidence_record_Inr:
  "run_evidence_record C run_id s cls reason states r iv = Inr e \<Longrightarrow>
   re_run_id e = run_id \<and> re_class e = cls \<and> re_source_state e = s"
  by (auto simp: run_evidence_record_def bind_result_Inr)

lemma normalized_interval_Inr:
  assumes "normalized_interval C run_id r = Inr (Some i)"
  shows "iv_id i = run_id \<and> valid_interval i"
proof -
  obtain s e where "(case (s, e) of (Some s, Some e) \<Rightarrow>
      if e \<le> s then None else Some \<lparr> iv_id = run_id, iv_start = s, iv_end = e \<rparr> | _ \<Rightarrow> None) = Some i"
    using assms unfolding normalized_interval_def bind_result_Inr by blast
  then show ?thesis
    by (cases s; cases e) (auto simp: valid_interval_def split: if_split_asm)
qed

lemma classify_sound:
  assumes "classify_run_evidence C run_id candidates eligible = Inr c"
  shows "sound_evidence run_id c"
proof (cases candidates rule: remdups_adj.cases)
  case 1
  with assms show ?thesis
    by (auto simp: classify_run_evidence_def bind_result_Inr sound_evidence_def
        dest: run_evidence_record_Inr)
next
  case (2 r)
  let ?state = "as_str (dget r ''state'')"
  show ?thesis
  proof (cases "?state = Some ''not_requested'' \<or> ?state \<noteq> Some eligible")
    case True
    with 2 assms obtain e cls where "c = (e, None)" "cls \<noteq> Included"
      "re_run_id e = run_id" "re_class e = cls"
      by (auto simp: classify_run_evidence_def bind_result_Inr Let_def
          dest!: run_evidence_record_Inr split: if_split_asm)
    then show ?thesis by (simp add: sound_evidence_def)
  next
    case False
    with 2 assms obtain iv where n: "normalized_interval C run_id r = Inr iv"
      by (auto simp: classify_run_evidence_def bind_result_Inr Let_def)
    with False 2 assms obtain e where "c = (e, iv)" "re_run_id e = run_id"
      "re_class e = (if iv = None then Excluded else Included)"
      by (cases iv) (auto simp: classify_run_evidence_def bind_result_Inr Let_def
          dest!: run_evidence_record_Inr)
    with n show ?thesis
      by (cases iv) (auto simp: sound_evidence_def dest: normalized_interval_Inr)
  qed
next
  case (3 r r' rs)
  with assms show ?thesis
    by (auto simp: classify_run_evidence_def bind_result_Inr sound_evidence_def
        dest: run_evidence_record_Inr)
qed

lemma classify_all_sound:
  "classify_all C evidence eligible ids = Inr cs \<Longrightarrow> list_all2 sound_evidence ids cs"
  by (induction ids arbitrary: cs) (auto simp: bind_result_Inr classify_sound)

lemma sound_included:
  "list_all2 sound_evidence ids cs \<Longrightarrow>
     List.map_filter snd cs = [] \<longleftrightarrow> filter (\<lambda>e. re_class e = Included) (map fst cs) = []"
  by (induction rule: list_all2_induct)
    (auto simp: sound_evidence_def map_filter_simps split: option.splits)

lemma sound_valid:
  "list_all2 sound_evidence ids cs \<Longrightarrow> list_all valid_interval (List.map_filter snd cs)"
  by (induction rule: list_all2_induct)
    (auto simp: sound_evidence_def map_filter_simps split: option.splits)

lemma class_counts:
  "length (filter (\<lambda>e. re_class e = Included) es) + length (filter (\<lambda>e. re_class e = Excluded) es)
   + length (filter (\<lambda>e. re_class e = Not_Requested) es) = length es"
proof (induction es)
  case (Cons e es)
  then show ?case by (cases "re_class e") simp_all
qed simp

lemma gap_loop_Nil:
  "gap_loop cells i = [] \<longleftrightarrow> (\<forall>c \<in> set (drop i cells). c_ids c \<noteq> [])"
proof (induction cells i rule: gap_loop.induct)
  case (1 cells i)
  show ?case
  proof (cases "length cells \<le> i")
    case True
    then show ?thesis by (simp add: gap_loop.simps [of cells i])
  next
    case False
    then have d: "drop i cells = cells ! i # drop (i + 1) cells" by (simp add: Cons_nth_drop_Suc)
    show ?thesis
    proof (cases "c_ids (cells ! i) = []")
      case True
      with False have "gap_loop cells i \<noteq> []" by (subst gap_loop.simps) (simp add: Let_def)
      with True show ?thesis unfolding d by simp
    next
      case nonempty: False
      with False have "gap_loop cells i = gap_loop cells (i + 1)" by (subst gap_loop.simps) simp
      with 1 False nonempty show ?thesis unfolding d by simp
    qed
  qed
qed

lemma union_all_nonempty:
  "chained cells \<Longrightarrow> cells \<noteq> [] \<Longrightarrow> \<forall>c \<in> set cells. c_ids c \<noteq> [] \<Longrightarrow>
   length (foldl union_step [] cells) = 1 \<and>
   s_end (last (foldl union_step [] cells)) = c_end (last cells)"
proof (induction cells rule: rev_induct)
  case (snoc c xs)
  show ?case
  proof (cases "xs = []")
    case True
    with snoc show ?thesis by (simp add: union_step_def)
  next
    case False
    with snoc have "length (foldl union_step [] xs) = 1"
      "s_end (last (foldl union_step [] xs)) = c_start c" "c_ids c \<noteq> []"
      by (auto simp: chained_snoc)
    then obtain s where "foldl union_step [] xs = [s]" "s_end s = c_start c" "c_ids c \<noteq> []"
      by (cases "foldl union_step [] xs") simp_all
    then show ?thesis
      unfolding foldl_append foldl.simps by (simp add: union_step_def extend_last_def)
  qed
qed simp

lemma union_single_iff:
  assumes "is \<noteq> []" "list_all valid_interval is"
  shows "length (union_intervals (interval_cells is)) = 1 \<longleftrightarrow> gap_intervals (interval_cells is) = []"
proof
  let ?cells = "interval_cells is"
  note e = cells_ends [OF assms]
  assume "length (union_intervals ?cells) = 1"
  then obtain s where s: "union_intervals ?cells = [s]" by (auto simp: length_Suc_conv)
  have st: "s_start s = c_start (hd ?cells)" "s_end s = c_end (last ?cells)"
    using um.merge_hd_start [OF e(1,2)] um.merge_last_end [of "last ?cells" "butlast ?cells"] e(1,3) s
    by (simp_all add: union_intervals_def)
  have "c_ids c \<noteq> []" if c: "c \<in> set ?cells" for c
  proof -
    have has: "cell_has c (c_start c)" using cell_nonempty [OF cells_chained c] .
    then have "seg_has s (c_start c)"
      using chained_covers [OF cells_chained e(1), of "c_start c"] c st by (auto simp: seg_has_def)
    then have "ids_at is (c_start c) \<noteq> []"
      using union_covers [of "is" "c_start c"] s by (simp add: ids_at_Nil)
    with cell_ids_at [OF c has] show ?thesis by simp
  qed
  then show "gap_intervals ?cells = []" by (simp add: gap_intervals_def gap_loop_Nil)
next
  assume "gap_intervals (interval_cells is) = []"
  then show "length (union_intervals (interval_cells is)) = 1"
    using union_all_nonempty [OF cells_chained cells_ends(1) [OF assms]]
    by (simp add: gap_intervals_def gap_loop_Nil union_intervals_def)
qed

lemma union_Nil_iff:
  assumes "list_all valid_interval is"
  shows "union_intervals (interval_cells is) = [] \<longleftrightarrow> is = []"
proof (cases "is = []")
  case True
  then show ?thesis by (simp add: union_intervals_def interval_cells_def boundaries_def)
next
  case False
  then show ?thesis
    using um.merge_hd_start [OF cells_ends(1,2) [OF False assms]] by (simp add: union_intervals_def)
qed

text \<open>C37: the summary of a layer agrees with its evidence: every selected run is counted in
  exactly one class, the span is contiguous exactly when some run is included and no gap is
  reported, and no interval is reported exactly when no run is included.\<close>

theorem layer_summary_consistent:
  assumes "coverage_layer C selected evidence stream_key kind eligible semantics = Inr l"
  shows "map re_run_id (l_run_evidence l) = selected \<and>
     length (l_included_ids l) + length (l_excluded_ids l) + length (l_not_requested_ids l)
       = length selected \<and>
     (l_contiguous l \<longleftrightarrow> l_included_ids l \<noteq> [] \<and> l_gaps l = []) \<and>
     (l_state l = No_Validated \<longleftrightarrow> l_included_ids l = []) \<and>
     (l_state l = Contiguous_Span \<longleftrightarrow> l_contiguous l)"
proof -
  obtain cs where cs: "classify_all C evidence eligible selected = Inr cs"
    and l: "l = layer_of C selected cs stream_key kind eligible semantics"
    using assms by (auto simp: coverage_layer_def bind_result_Inr)
  note sound = classify_all_sound [OF cs]
  let ?is = "sort_key (\<lambda>i. (iv_start i, iv_end i, iv_id i)) (List.map_filter snd cs)"
  have ids: "map re_run_id (map fst cs) = selected"
    using sound by (induction rule: list_all2_induct) (auto simp: sound_evidence_def)
  then have len: "length cs = length selected" by (metis length_map)
  have valid: "list_all valid_interval ?is"
    using sound_valid [OF sound] by (simp add: list_all_iff)
  have nil: "?is = [] \<longleftrightarrow> filter (\<lambda>e. re_class e = Included) (map fst cs) = []"
    unfolding sound_included [OF sound, symmetric]
    by (simp only: length_0_conv [symmetric] length_sort)
  note facts = union_Nil_iff [OF valid] union_single_iff [OF _ valid] nil
  have contiguous: "length (union_intervals (interval_cells ?is)) = 1 \<longleftrightarrow>
      ?is \<noteq> [] \<and> gap_intervals (interval_cells ?is) = []"
    using facts(1,2) by (cases "?is = []") auto
  show ?thesis
    unfolding l layer_of_def Let_def
    using ids len class_counts [of "map fst cs"] contiguous facts(1,3) by simp
qed

section \<open>Independence of the input order\<close>

lemma mset_map_filter: "mset xs = mset ys \<Longrightarrow> mset (List.map_filter f xs) = mset (List.map_filter f ys)"
  by (simp add: List.map_filter_def flip: mset_filter)
     (metis mset_filter mset_map)

lemma sort_mset_cong: "mset xs = mset ys \<Longrightarrow> sort xs = sort (ys :: 'a :: linorder list)"
  by (metis properties_for_sort mset_sort sorted_sort)

lemma classify_mset:
  assumes "mset rs = mset rs'"
  shows "classify_run_evidence C run_id rs eligible = classify_run_evidence C run_id rs' eligible"
proof -
  have len: "length rs = length rs'" using assms by (metis size_mset)
  show ?thesis
  proof (cases rs rule: remdups_adj.cases)
    case 1
    with assms show ?thesis by simp
  next
    case (2 r)
    with assms have "rs' = [r]" by (metis mset_single_iff mset.simps)
    with 2 show ?thesis by simp
  next
    case (3 r s rest)
    with len obtain r' s' rest' where r': "rs' = r' # s' # rest'"
      by (cases rs' rule: remdups_adj.cases) auto
    have "candidate_states rs = candidate_states rs'"
      unfolding candidate_states_def by (intro sort_mset_cong mset_map_filter assms)
    with 3 r' show ?thesis by (simp add: classify_run_evidence_def)
  qed
qed

lemma classify_all_mset:
  assumes "mset vs = mset vs'"
  shows "classify_all C (PList vs) eligible ids = classify_all C (PList vs') eligible ids"
proof -
  have "mset (rows_of_run (PList vs) i) = mset (rows_of_run (PList vs') i)" for i
    unfolding rows_of_run_def pyval.case by (rule mset_map_filter [OF assms])
  then have "classify_run_evidence C i (rows_of_run (PList vs) i) eligible
      = classify_run_evidence C i (rows_of_run (PList vs') i) eligible" for i
    by (rule classify_mset)
  then show ?thesis by (induction ids) (simp_all only: classify_all.simps)
qed

lemma validate_mset:
  assumes "mset vs = mset vs'"
  shows "validate_selected_run_ids (PList vs) = validate_selected_run_ids (PList vs')"
proof -
  let ?f = "\<lambda>x. case x of PInt i \<Rightarrow> i | _ \<Rightarrow> (0::int)"
  have "mset (map ?f vs) = mset (map ?f vs')" using assms by (metis mset_map)
  then have "sort (map ?f vs) = sort (map ?f vs')" "distinct (map ?f vs) = distinct (map ?f vs')"
    by (rule sort_mset_cong, metis distinct_count_atmost_1 set_mset_mset)
  moreover have "length vs = length vs'" "set vs = set vs'"
    using assms by (metis size_mset, metis set_mset_mset)
  ultimately show ?thesis unfolding validate_selected_run_ids_def Let_def pyval.case by (simp only:)
qed

text \<open>C38: neither the order of the selected runs nor the order of the evidence rows changes
  the diagnostics or the error.\<close>

theorem coverage_order_independent:
  assumes "mset ids = mset ids'" "mset ts = mset ts'" "mset es = mset es'"
  shows "build_wallet_interval_coverage C (PList ids) (PList ts) (PList es)
     = build_wallet_interval_coverage C (PList ids') (PList ts') (PList es')"
  using assms
  by (simp add: build_wallet_interval_coverage_def coverage_layer_def validate_mset [OF assms(1)]
      classify_all_mset [OF assms(2)] classify_all_mset [OF assms(3)])

section \<open>Sample evidence\<close>

definition sample_codec :: iso_codec where
  "sample_codec =
    \<lparr> parse_iso = (\<lambda>s. if s = ''1970-01-01T00:00:00+00:00'' then Iso_Aware 62135596800000000 0
         else if s = ''1970-01-01T00:00:01+00:00'' then Iso_Aware 62135596801000000 0
         else Iso_Error),
      iso_text = show_int \<rparr>"

definition sample_row :: "int \<Rightarrow> pyval" where
  "sample_row i = PDict [(''run_id'', PInt i), (''state'', PStr ''complete''),
     (''interval_start'', PStr ''1970-01-01T00:00:00Z''),
     (''interval_end'', PStr ''1970-01-01T00:00:01Z'')]"

lemma sample_timestamps:
  "parse_timestamp sample_codec (PStr ''1970-01-01T00:00:00Z'') = Inr (Some 62135596800000000)"
  "parse_timestamp sample_codec (PStr ''1970-01-01T00:00:01Z'') = Inr (Some 62135596801000000)"
  by (simp_all add: parse_timestamp_def sample_codec_def strip_def is_space_def clean_iso_def
      to_utc_def datetime_end_def us_per_day_def us_per_second_def)

lemma sample_layer:
  "\<exists>l. coverage_layer sample_codec [1, 2] (PList [sample_row 2, sample_row 1]) ''transactions''
     ''low_level_transaction_stream'' ''complete'' ''bounded'' = Inr l"
  by (simp add: coverage_layer_def rows_of_run_def sample_row_def map_filter_simps dget_def
      classify_run_evidence_def normalized_interval_def sample_timestamps run_evidence_record_def
      reason_codes_def)

lemma layer_summary_consistent_witness:
  "\<exists>l. coverage_layer sample_codec [1, 2] (PList [sample_row 2, sample_row 1]) ''transactions''
     ''low_level_transaction_stream'' ''complete'' ''bounded'' = Inr l \<and>
     (l_contiguous l \<longleftrightarrow> l_included_ids l \<noteq> [] \<and> l_gaps l = [])"
  using sample_layer layer_summary_consistent by blast

lemma coverage_order_independent_witness:
  "build_wallet_interval_coverage sample_codec (PList [PInt 1, PInt 2])
     (PList [sample_row 2, sample_row 1]) (PList [])
   = build_wallet_interval_coverage sample_codec (PList [PInt 2, PInt 1])
     (PList [sample_row 1, sample_row 2]) (PList [])"
  by (rule coverage_order_independent) (simp_all add: add_mset_commute)
end
