(* ===== verification/Case_Store.thy ===== *)
theory Case_Store
  imports Prelude "HOL-Library.State_Monad"
begin

text \<open>
  The tables of \<open>backend/models.py\<close> that the Wallet Case jobs share, the CHECK constraints
  and unique indexes the database enforces, and the world a worker runs in.

  Instants are microseconds.  \<open>NULL\<close> columns are \<open>None\<close>.  Stages and states are the
  source's string constants as constructors.  Columns holding presentation text
  (\<open>message_safe\<close>, \<open>error_detail_safe\<close>) are left out.
\<close>

section \<open>Rows\<close>

datatype job_state = Queued | Running | Partial | Succeeded | Failed | Cancelled

fun active_state :: "job_state \<Rightarrow> bool" where
  "active_state Queued = True"
| "active_state Running = True"
| "active_state _ = False"

abbreviation terminal_state :: "job_state \<Rightarrow> bool" where
  "terminal_state s \<equiv> \<not> active_state s"

datatype job_stage =
    Stage_Queued | Stage_Retry_Wait | Stage_Validating | Stage_Ingesting | Stage_Finalizing
  | Stage_Cancelling | Stage_Completed | Stage_Completed_With_Limitations | Stage_Failed
  | Stage_Cancelled | Stage_Capturing_Trace | Stage_Verifying_Bocs | Stage_Proving_Inclusion
  | Stage_Building_Native_Ledger | Stage_Terminal

record case_row =
  wc_id :: int
  wc_public :: string
  wc_owner :: string
  wc_network :: string
  wc_environment :: string
  wc_key :: string
  wc_version :: string
  wc_display :: string
  wc_label :: "string option"
  wc_note :: "string option"
  wc_created :: int
  wc_updated :: int
  wc_archived :: "int option"
  wc_metadata_version :: int

record sync_row =
  sy_id :: int
  sy_public :: string
  sy_case :: int
  sy_run :: "int option"
  sy_provider :: string
  sy_start :: int
  sy_end :: int
  sy_surfaces :: "string list"
  sy_state :: job_state
  sy_stage :: job_stage
  sy_progress :: int
  sy_total :: "int option"
  sy_coverage :: string
  sy_result :: string
  sy_error :: "string option"
  sy_created :: int
  sy_updated :: int
  sy_started :: "int option"
  sy_completed :: "int option"
  sy_version :: int
  sy_idempotency :: "string option"
  sy_fingerprint :: "string option"
  sy_attempts :: int
  sy_max :: int
  sy_next :: "int option"
  sy_cancel :: "int option"
  sy_token :: "string option"
  sy_lease :: "int option"
  sy_heartbeat :: "int option"
  sy_checkpoint :: "string \<times> bool"

datatype evidence_level = Normalized | Locally_Verified | Chain_Inclusion_Proven

text \<open>The pinned Activity transaction a verification is about: columns no job operation writes.\<close>

record selection =
  sl_snapshot :: int
  sl_source_sync :: int
  sl_transaction :: int
  sl_activity :: string
  sl_semantics :: string
  sl_policy :: string
  sl_provider :: string
  sl_network :: string
  sl_account :: string
  sl_hash :: string
  sl_time :: string

text \<open>The columns that bind the four proof artifacts.\<close>

record artifacts =
  ac_trace :: "int option"
  ac_trace_digest :: "string option"
  ac_trace_done :: "int option"
  ac_boc :: "int option"
  ac_boc_digest :: "string option"
  ac_boc_done :: "int option"
  ac_inclusion :: "string option"
  ac_inclusion_done :: "int option"
  ac_ledger :: "int option"
  ac_ledger_digest :: "string option"
  ac_ledger_done :: "int option"

record evidence_row =
  cv_id :: int
  cv_public :: string
  cv_case :: int
  cv_selection :: selection
  cv_state :: job_state
  cv_stage :: job_stage
  cv_progress :: int
  cv_version :: int
  cv_level :: evidence_level
  cv_idempotency :: string
  cv_fingerprint :: string
  cv_attempts :: int
  cv_max :: int
  cv_next :: "int option"
  cv_cancel :: "int option"
  cv_token :: "string option"
  cv_lease :: "int option"
  cv_heartbeat :: "int option"
  cv_checkpoint :: "string \<times> bool"
  cv_artifacts :: artifacts
  cv_result :: "string option"
  cv_error :: "string option"
  cv_created :: int
  cv_updated :: int
  cv_started :: "int option"
  cv_completed :: "int option"

text \<open>
  The exceptions of the evidence worker, by the class its handlers tell apart:
  \<open>_WorkerStop\<close>, \<open>_EvidenceOperationCancelled\<close>, \<open>SQLAlchemyError\<close>,
  \<open>WalletTraceEvidenceProviderFailure\<close> with its code,
  \<open>WalletTransactionInclusionProofFailure\<close> with its code and retryability, the other storage
  failures of the proof services, their other domain errors,
  \<open>CaseEvidenceRuntimeUnavailable\<close> with its code, \<open>CaseEvidenceStoredConflict\<close>,
  \<open>CaseEvidenceInclusionTrustInsufficient\<close>, and everything else.
\<close>

datatype evidence_exn =
    Worker_Stop | Operation_Cancelled | Storage_Error
  | Provider_Failure string | Inclusion_Failure string bool | Operation_Failure
  | Domain_Error | Runtime_Unavailable string | Stored_Conflict | Trust_Insufficient | Other_Error

text \<open>
  What the readers of the four stored proof artifacts return for a run and a transaction hash:
  their conflict error, another exception, or a document (\<open>None\<close> when nothing is stored).
\<close>

datatype artifact_kind = Trace_Capture | Boc_Verification | Block_Inclusion | Native_Ledger
datatype artifact_read = Read_Conflict | Read_Raised evidence_exn | Read_Value pyval

record manifest_row =
  mf_public :: string
  mf_sync :: int

record checkpoint_row =
  ck_public :: string
  ck_case :: int
  ck_sync :: int
  ck_provider :: string
  ck_stream :: string

text \<open>
  \<open>WalletCaseCatalogEvent\<close>, the append-only positions of the Case catalog;
  \<open>WalletCaseReportRevision\<close>, of which only the owners are modelled; and
  \<open>WalletCaseLifecycleEvent\<close>, the receipt that outlives a deleted Case, with the counts of its
  \<open>details_json\<close>: syncs, ingestion runs, evidence verifications, report revisions.
\<close>

record catalog_row =
  ce_id :: int
  ce_case :: int
  ce_recorded :: int
  ce_visible :: bool

record report_row =
  rv_public :: string
  rv_case :: int
  rv_sync :: int

record receipt_row =
  lr_public :: string
  lr_owner :: string
  lr_case :: string
  lr_occurred :: int
  lr_removed :: "nat \<times> nat \<times> nat \<times> nat"

record store =
  st_cases :: "case_row list"
  st_syncs :: "sync_row list"
  st_evidence :: "evidence_row list"
  st_artifacts :: "artifact_kind \<Rightarrow> int \<Rightarrow> string \<Rightarrow> artifact_read"
  st_runs :: "int list"
  st_manifests :: "manifest_row list"
  st_checkpoints :: "checkpoint_row list"
  st_catalog :: "catalog_row list"
  st_reports :: "report_row list"
  st_receipts :: "receipt_row list"

text \<open>
  The tables are SQLite's with \<open>INTEGER PRIMARY KEY\<close> and no \<open>AUTOINCREMENT\<close>: an inserted row
  gets one more than the largest id in use.
\<close>

definition new_id :: "int list \<Rightarrow> int" where
  "new_id ids = (if ids = [] then 1 else Max (set ids) + 1)"

definition record_event :: "int \<Rightarrow> int \<Rightarrow> bool \<Rightarrow> catalog_row list \<Rightarrow> catalog_row list" where
  "record_event case_id recorded visible rows =
    rows @ [\<lparr> ce_id = new_id (map ce_id rows), ce_case = case_id, ce_recorded = recorded,
      ce_visible = visible \<rparr>]"

section \<open>Database constraints\<close>

text \<open>The CHECK constraints of \<open>wallet_case_syncs\<close> on the modelled columns.\<close>

definition sync_checks :: "sync_row \<Rightarrow> bool" where
  "sync_checks r \<longleftrightarrow>
     sy_start r < sy_end r \<and> 0 \<le> sy_progress r \<and>
     (case sy_total r of None \<Rightarrow> True | Some t \<Rightarrow> 0 \<le> t \<and> sy_progress r \<le> t)"

text \<open>\<open>uq_wallet_case_syncs_one_active\<close>: at most one queued or running sync per case.\<close>

definition one_active_sync :: "sync_row list \<Rightarrow> bool" where
  "one_active_sync rows \<longleftrightarrow> distinct (map sy_case (filter (\<lambda>r. active_state (sy_state r)) rows))"

text \<open>The CHECK constraints of \<open>wallet_case_evidence_verifications\<close>.\<close>

definition evidence_artifact_prefix :: "evidence_row \<Rightarrow> bool" where
  "evidence_artifact_prefix r \<longleftrightarrow>
     (let a = cv_artifacts r;
          trace = (ac_trace a \<noteq> None \<and> ac_trace_digest a \<noteq> None \<and> ac_trace_done a \<noteq> None);
          no_trace = (ac_trace a = None \<and> ac_trace_digest a = None \<and> ac_trace_done a = None);
          boc = (ac_boc a \<noteq> None \<and> ac_boc_digest a \<noteq> None \<and> ac_boc_done a \<noteq> None);
          no_boc = (ac_boc a = None \<and> ac_boc_digest a = None \<and> ac_boc_done a = None);
          inclusion = (ac_inclusion a \<noteq> None \<and> ac_inclusion_done a \<noteq> None);
          no_inclusion = (ac_inclusion a = None \<and> ac_inclusion_done a = None);
          ledger = (ac_ledger a \<noteq> None \<and> ac_ledger_digest a \<noteq> None \<and> ac_ledger_done a \<noteq> None);
          no_ledger = (ac_ledger a = None \<and> ac_ledger_digest a = None \<and> ac_ledger_done a = None)
      in (cv_progress r = 0 \<and> no_trace \<and> no_boc \<and> no_inclusion \<and> no_ledger \<and> cv_level r = Normalized)
       \<or> (cv_progress r = 1 \<and> trace \<and> no_boc \<and> no_inclusion \<and> no_ledger \<and> cv_level r = Normalized)
       \<or> (cv_progress r = 2 \<and> trace \<and> boc \<and> no_inclusion \<and> no_ledger \<and> cv_level r = Locally_Verified)
       \<or> (cv_progress r = 3 \<and> trace \<and> boc \<and> inclusion \<and> no_ledger \<and> cv_level r = Chain_Inclusion_Proven)
       \<or> (cv_progress r = 4 \<and> trace \<and> boc \<and> inclusion \<and> ledger \<and> cv_level r = Chain_Inclusion_Proven))"

definition evidence_lifecycle :: "evidence_row \<Rightarrow> bool" where
  "evidence_lifecycle r \<longleftrightarrow>
     (cv_state r = Queued \<and> cv_stage r \<in> {Stage_Queued, Stage_Retry_Wait} \<and> cv_next r \<noteq> None \<and>
        cv_token r = None \<and> cv_lease r = None \<and> cv_completed r = None)
   \<or> (cv_state r = Running \<and> cv_stage r \<in> {Stage_Validating, Stage_Capturing_Trace,
        Stage_Verifying_Bocs, Stage_Proving_Inclusion, Stage_Building_Native_Ledger,
        Stage_Finalizing} \<and> cv_next r = None \<and> cv_token r \<noteq> None \<and> cv_lease r \<noteq> None \<and>
        cv_started r \<noteq> None \<and> cv_completed r = None)
   \<or> (terminal_state (cv_state r) \<and> cv_stage r = Stage_Terminal \<and> cv_next r = None \<and>
        cv_token r = None \<and> cv_lease r = None \<and> cv_completed r \<noteq> None)"

definition evidence_cancel_state :: "evidence_row \<Rightarrow> bool" where
  "evidence_cancel_state r \<longleftrightarrow>
     (cv_state r = Cancelled \<and> cv_cancel r \<noteq> None) \<or> cv_state r = Running \<or>
     (cv_state r \<in> {Queued, Partial, Succeeded, Failed} \<and> cv_cancel r = None)"

definition evidence_state_progress :: "evidence_row \<Rightarrow> bool" where
  "evidence_state_progress r \<longleftrightarrow>
     (cv_state r \<noteq> Failed \<or> cv_progress r = 0) \<and>
     (cv_state r \<noteq> Partial \<or> 0 < cv_progress r) \<and>
     (cv_state r \<noteq> Succeeded \<or> cv_progress r = 4)"

definition evidence_checks :: "evidence_row \<Rightarrow> bool" where
  "evidence_checks r \<longleftrightarrow>
     cv_stage r \<notin> {Stage_Ingesting, Stage_Cancelling, Stage_Completed,
       Stage_Completed_With_Limitations, Stage_Failed, Stage_Cancelled} \<and>
     0 \<le> cv_progress r \<and> cv_progress r \<le> 4 \<and>
     0 \<le> cv_attempts r \<and> 1 \<le> cv_max r \<and> cv_attempts r \<le> cv_max r \<and>
     evidence_state_progress r \<and> evidence_cancel_state r \<and> evidence_lifecycle r \<and>
     evidence_artifact_prefix r"

section \<open>The world of a worker\<close>

text \<open>
  A worker is a sequence of short transactions.  Before each of them, and before each read
  of the stop flag, other sessions may have committed anything: a \<open>turn\<close> holds the clock the
  worker reads, the database server clock behind \<open>onupdate\<close>, the work others committed since
  the previous turn, the stop flag and the random token drawn, if any.  \<open>tn_later\<close> is a
  second reading of the clock inside the turn's transaction and \<open>tn_fault\<close> says that the database
  refuses that transaction with an \<open>SQLAlchemyError\<close>; the synchronization worker reads its clock
  once per transaction and does not handle refusals, so its model uses neither.
\<close>

record turn =
  tn_now :: int
  tn_later :: int
  tn_wall :: int
  tn_fault :: bool
  tn_env :: "store \<Rightarrow> store"
  tn_stop :: bool
  tn_token :: string

record world =
  w_store :: store
  w_turn :: nat
  w_sched :: "nat \<Rightarrow> turn"

type_synonym 'a prog = "(world, 'a) state"

definition next_turn :: "turn prog" where
  "next_turn = State (\<lambda>w. let t = w_sched w (w_turn w) in
     (t, w\<lparr> w_store := tn_env t (w_store w), w_turn := Suc (w_turn w) \<rparr>))"

definition with_store :: "(store \<Rightarrow> 'a \<times> store) \<Rightarrow> 'a prog" where
  "with_store f = State (\<lambda>w. let (a, s) = f (w_store w) in (a, w\<lparr> w_store := s \<rparr>))"

definition transact :: "(turn \<Rightarrow> store \<Rightarrow> 'a \<times> store) \<Rightarrow> 'a prog" where
  "transact f = State_Monad.bind next_turn (\<lambda>t. with_store (f t))"

definition stop_is_set :: "bool prog" where
  "stop_is_set = State_Monad.bind next_turn (\<lambda>t. State_Monad.return (tn_stop t))"

text \<open>
  A program keeps to a relation on stores when everything it and the others commit does.
  The tokens the turns draw come from a set \<open>A\<close>.
\<close>

definition sched_keeps :: "(store \<Rightarrow> store \<Rightarrow> bool) \<Rightarrow> string set \<Rightarrow> world \<Rightarrow> bool" where
  "sched_keeps R A w \<longleftrightarrow>
     (\<forall>n. tn_token (w_sched w n) \<in> A \<and> (\<forall>s. R\<^sup>*\<^sup>* s (tn_env (w_sched w n) s)))"

definition keeps :: "(store \<Rightarrow> store \<Rightarrow> bool) \<Rightarrow> string set \<Rightarrow> 'a prog \<Rightarrow> bool" where
  "keeps R A p \<longleftrightarrow> (\<forall>w. sched_keeps R A w \<longrightarrow>
     R\<^sup>*\<^sup>* (w_store w) (w_store (snd (run_state p w))) \<and>
     w_sched (snd (run_state p w)) = w_sched w)"

named_theorems keeps_intros

lemma keeps_return [keeps_intros]: "keeps R A (State_Monad.return a)"
  by (simp add: keeps_def)

lemma keeps_bind_strong:
  assumes "\<And>w. sched_keeps R A w \<Longrightarrow> R\<^sup>*\<^sup>* (w_store w) (w_store (snd (run_state p w))) \<and>
      w_sched (snd (run_state p w)) = w_sched w \<and> P (fst (run_state p w))"
    and "\<And>a. P a \<Longrightarrow> keeps R A (q a)"
  shows "keeps R A (State_Monad.bind p q)"
  unfolding keeps_def
proof (intro allI impI)
  fix w assume w: "sched_keeps R A w"
  obtain a w' where p: "run_state p w = (a, w')" by fastforce
  with assms(1) [OF w] have 1: "R\<^sup>*\<^sup>* (w_store w) (w_store w')" "w_sched w' = w_sched w" "P a" by auto
  with w have "sched_keeps R A w'" by (simp add: sched_keeps_def)
  with assms(2) [OF 1(3)] have "R\<^sup>*\<^sup>* (w_store w') (w_store (snd (run_state (q a) w')))"
    "w_sched (snd (run_state (q a) w')) = w_sched w'"
    by (auto simp: keeps_def)
  with 1 p show "R\<^sup>*\<^sup>* (w_store w) (w_store (snd (run_state (State_Monad.bind p q) w))) \<and>
      w_sched (snd (run_state (State_Monad.bind p q) w)) = w_sched w"
    by (auto simp: State_Monad.bind_def)
qed

lemma keeps_bind [keeps_intros]:
  "keeps R A p \<Longrightarrow> (\<And>a. keeps R A (q a)) \<Longrightarrow> keeps R A (State_Monad.bind p q)"
  by (rule keeps_bind_strong [of R A p "\<lambda>_. True"]) (auto simp: keeps_def)

lemma keeps_turn:
  "(\<And>t. tn_token t \<in> A \<Longrightarrow> keeps R A (q t)) \<Longrightarrow> keeps R A (State_Monad.bind next_turn q)"
  by (rule keeps_bind_strong [of R A next_turn "\<lambda>t. tn_token t \<in> A"])
    (auto simp: next_turn_def sched_keeps_def Let_def)

lemma keeps_next_turn [keeps_intros]: "keeps R A next_turn"
  by (auto simp: keeps_def next_turn_def sched_keeps_def Let_def)

lemma keeps_with_store [keeps_intros]:
  "(\<And>s. R\<^sup>*\<^sup>* s (snd (f s))) \<Longrightarrow> keeps R A (with_store f)"
  by (auto simp: keeps_def with_store_def split: prod.splits) (metis snd_conv)

lemma keeps_transact [keeps_intros]:
  "(\<And>t s. R\<^sup>*\<^sup>* s (snd (f t s))) \<Longrightarrow> keeps R A (transact f)"
  unfolding transact_def by (intro keeps_turn keeps_with_store)

lemma keeps_stop [keeps_intros]: "keeps R A stop_is_set"
  unfolding stop_is_set_def by (intro keeps_turn keeps_return)

lemma keeps_if [keeps_intros]: "(b \<Longrightarrow> keeps R A p) \<Longrightarrow> (\<not> b \<Longrightarrow> keeps R A q) \<Longrightarrow> keeps R A (if b then p else q)"
  by simp

section \<open>Triples\<close>

text \<open>\<open>P\<close> before, \<open>Q\<close> of the result after.\<close>

definition triple :: "(world \<Rightarrow> bool) \<Rightarrow> 'a prog \<Rightarrow> ('a \<Rightarrow> world \<Rightarrow> bool) \<Rightarrow> bool" where
  "triple P p Q \<longleftrightarrow> (\<forall>w. P w \<longrightarrow> Q (fst (run_state p w)) (snd (run_state p w)))"

lemma triple_return: "(\<And>w. P w \<Longrightarrow> Q a w) \<Longrightarrow> triple P (State_Monad.return a) Q"
  by (simp add: triple_def)

lemma triple_bind:
  assumes "triple P p R" "\<And>a. triple (R a) (q a) Q"
  shows "triple P (State_Monad.bind p q) Q"
  using assms by (simp add: triple_def State_Monad.bind_def split_def)

lemma triple_weaken:
  "triple P p Q \<Longrightarrow> (\<And>w. P' w \<Longrightarrow> P w) \<Longrightarrow> (\<And>a w. Q a w \<Longrightarrow> Q' a w) \<Longrightarrow> triple P' p Q'"
  by (auto simp: triple_def)

lemma triple_pre_bool: "(b \<Longrightarrow> triple P p Q) \<Longrightarrow> triple (\<lambda>w. b \<and> P w) p Q"
  by (auto simp: triple_def)

lemma triple_if:
  "(b \<Longrightarrow> triple P p Q) \<Longrightarrow> (\<not> b \<Longrightarrow> triple P q Q) \<Longrightarrow> triple P (if b then p else q) Q"
  by simp

lemma run_transact:
  "run_state (transact f) w =
    (let t = w_sched w (w_turn w); r = f t (tn_env t (w_store w)) in
     (fst r, w\<lparr> w_turn := Suc (w_turn w), w_store := snd r \<rparr>))"
  by (simp add: transact_def next_turn_def with_store_def State_Monad.bind_def split_def Let_def)

lemma run_next_turn:
  "run_state next_turn w =
    (w_sched w (w_turn w), w\<lparr> w_turn := Suc (w_turn w), w_store := tn_env (w_sched w (w_turn w)) (w_store w) \<rparr>)"
  by (simp add: next_turn_def Let_def)

lemma run_with_store:
  "run_state (with_store f) w = (fst (f (w_store w)), w\<lparr> w_store := snd (f (w_store w)) \<rparr>)"
  by (simp add: with_store_def split_def Let_def)

lemma triple_run: "triple P p Q \<Longrightarrow> P w \<Longrightarrow> run_state p w = (a, w') \<Longrightarrow> Q a w'"
  by (simp add: triple_def) (metis fst_conv snd_conv)

lemma triple_post: "triple P p Q \<Longrightarrow> P w \<Longrightarrow> Q (fst (run_state p w)) (snd (run_state p w))"
  by (simp add: triple_def)

lemma run_bind:
  "run_state (State_Monad.bind p q) w = run_state (q (fst (run_state p w))) (snd (run_state p w))"
  by (simp add: State_Monad.bind_def split_def)

end
