(* ===== verification/Leased_Jobs.thy ===== *)
theory Leased_Jobs
  imports Case_Store
begin

text \<open>
  What the two durable job tables have in common.  A job row changes by a row-level step;
  a claim is the only step that sets a lease token, and it draws the token from a given set.
  The interface is a locale; each worker's theory interprets it on its own rows.
\<close>

locale leased_rows =
  fixes step :: "string set \<Rightarrow> 'r \<Rightarrow> 'r \<Rightarrow> bool"
    and rid :: "'r \<Rightarrow> int"
    and rstate :: "'r \<Rightarrow> job_state"
    and token :: "'r \<Rightarrow> string option"
    and version :: "'r \<Rightarrow> int"
    and attempts :: "'r \<Rightarrow> int"
    and budget :: "'r \<Rightarrow> int"
    and ok :: "'r \<Rightarrow> bool"
  assumes step_ok: "step A r r' \<Longrightarrow> ok r \<Longrightarrow> ok r'"
    and step_id: "step A r r' \<Longrightarrow> rid r' = rid r"
    and step_active: "step A r r' \<Longrightarrow> active_state (rstate r)"
    and step_version: "step A r r' \<Longrightarrow> version r \<le> version r'"
    and step_token: "step A r r' \<Longrightarrow>
      token r' = token r \<or> token r' = None \<or> (\<exists>t \<in> A. token r' = Some t)"
    and step_attempts: "step A r r' \<Longrightarrow>
      attempts r \<le> attempts r' \<and> budget r' = budget r \<and>
      (token r' \<noteq> token r \<and> token r' \<noteq> None \<longrightarrow> attempts r' = attempts r + 1)"
    and ok_attempts: "ok r \<Longrightarrow> attempts r \<le> budget r"
begin

text \<open>One transaction on the table: every row stays or steps, and new rows are appended.\<close>

definition table_step :: "string set \<Rightarrow> 'r list \<Rightarrow> 'r list \<Rightarrow> bool" where
  "table_step A rows rows' \<longleftrightarrow>
     (\<exists>f fresh. rows' = map f rows @ fresh \<and> (\<forall>r \<in> set rows. f r = r \<or> step A r (f r)) \<and>
        (\<forall>r \<in> set fresh. ok r \<and> token r = None) \<and>
        distinct (map rid fresh) \<and> rid ` set fresh \<inter> rid ` set rows = {})"

definition table_ok :: "'r list \<Rightarrow> bool" where
  "table_ok rows \<longleftrightarrow> distinct (map rid rows) \<and> list_all ok rows"

lemma table_step_refl: "table_step A rows rows"
  unfolding table_step_def by (intro exI [of _ id] exI [of _ "[]"]) simp

lemma table_step_ok: "table_step A rows rows' \<Longrightarrow> table_ok rows \<Longrightarrow> table_ok rows'"
proof -
  assume s: "table_step A rows rows'" and t: "table_ok rows"
  then obtain f fresh where r: "rows' = map f rows @ fresh"
    and f: "\<forall>r \<in> set rows. f r = r \<or> step A r (f r)" and fr: "\<forall>r \<in> set fresh. ok r \<and> token r = None"
    "distinct (map rid fresh)" "rid ` set fresh \<inter> rid ` set rows = {}"
    by (auto simp: table_step_def)
  have ids: "map rid (map f rows) = map rid rows" using f step_id by (auto simp: comp_def)
  then have set: "rid ` set (map f rows) = rid ` set rows" by (metis set_map)
  have "distinct (map rid (map f rows))" unfolding ids using t by (simp add: table_ok_def)
  with fr set have "distinct (map rid rows')"
    by (simp only: r map_append distinct_append set_map) auto
  moreover have "list_all ok rows'"
    using t r f fr step_ok by (auto simp: table_ok_def list_all_iff)
  ultimately show "table_ok rows'" by (simp add: table_ok_def)
qed

text \<open>A row's later self: same identity, never an earlier version, attempts within budget.\<close>

lemma table_step_row:
  assumes "table_step A rows rows'" "r \<in> set rows"
  obtains r' where "r' \<in> set rows'" "r' = r \<or> step A r r'"
proof -
  obtain f fresh where "rows' = map f rows @ fresh" "f r = r \<or> step A r (f r)"
    using assms by (auto simp: table_step_def)
  with assms(2) that [of "f r"] show thesis by auto
qed

lemma table_step_back:
  assumes "table_step A rows rows'" "r' \<in> set rows'"
  obtains (new) "ok r'" "token r' = None" | (old) r where "r \<in> set rows" "r' = r \<or> step A r r'"
  using assms by (auto simp: table_step_def)

lemma tables_ok: "(table_step A)\<^sup>*\<^sup>* rows rows' \<Longrightarrow> table_ok rows \<Longrightarrow> table_ok rows'"
  by (induction rule: rtranclp_induct) (auto intro: table_step_ok)

lemma tables_row:
  assumes "(table_step A)\<^sup>*\<^sup>* rows rows'" "r \<in> set rows"
  shows "\<exists>r' \<in> set rows'. rid r' = rid r \<and> version r \<le> version r' \<and>
     attempts r \<le> attempts r' \<and> budget r' = budget r \<and> (terminal_state (rstate r) \<longrightarrow> r' = r)"
  using assms
proof (induction rule: rtranclp_induct)
  case (step rows1 rows2)
  then obtain r1 where r1: "r1 \<in> set rows1" "rid r1 = rid r" "version r \<le> version r1"
    "attempts r \<le> attempts r1" "budget r1 = budget r" "terminal_state (rstate r) \<longrightarrow> r1 = r" by blast
  obtain r2 where "r2 \<in> set rows2" "r2 = r1 \<or> step A r1 r2"
    using table_step_row [OF step.hyps(2) r1(1)] .
  with r1 show ?case
    using step_id step_version step_attempts step_active by (metis order_trans)
qed blast

text \<open>A terminal row never changes again.\<close>

lemma tables_terminal:
  assumes "(table_step A)\<^sup>*\<^sup>* rows rows'" "r \<in> set rows" "terminal_state (rstate r)"
  shows "r \<in> set rows'"
  using tables_row [OF assms(1,2)] assms(3) by blast

text \<open>Fencing: once no row of a job holds a token that no later claim draws, none ever will.\<close>

lemma tables_fenced:
  assumes "(table_step A)\<^sup>*\<^sup>* rows rows'" "t \<notin> A" "\<forall>r \<in> set rows. rid r = i \<longrightarrow> token r \<noteq> Some t"
  shows "\<forall>r \<in> set rows'. rid r = i \<longrightarrow> token r \<noteq> Some t"
  using assms(1,3)
proof (induction rule: rtranclp_induct)
  case (step rows1 rows2)
  show ?case
  proof (intro ballI impI)
    fix r assume r: "r \<in> set rows2" "rid r = i"
    show "token r \<noteq> Some t"
      using step.hyps(2) r(1)
    proof (cases rule: table_step_back)
      case (old r1)
      with r have "rid r1 = i" using step_id by metis
      with step old have "token r1 \<noteq> Some t" by blast
      with old assms(2) step_token show ?thesis by (metis option.distinct(1) option.inject)
    qed simp
  qed
qed blast

end

end
