(* ===== verification/Case_Sync_Jobs.thy ===== *)
theory Case_Sync_Jobs
  imports Leased_Jobs
begin

text \<open>
  \<open>backend/services/case_sync_jobs.py\<close>: the worker that claims, runs, retries and publishes
  Wallet Case synchronizations, with \<open>cancel_sync\<close> of \<open>backend/services/wallet_cases.py\<close>.

  Every SQL statement is a guard and a row update; a transaction is a function on the store
  at one turn; the worker's methods are programs over turns.  What the worker takes from
  outside (settings checks past the case scope, the provider crawl and the documents built
  from it, the digest behind the retry jitter) is an argument.
\<close>

section \<open>Configuration\<close>

record job_settings =
  js_lease :: int
  js_heartbeat :: int
  js_retry_base :: int
  js_retry_cap :: int

record worker_config =
  cf_lease :: int
  cf_heartbeat :: int
  cf_base :: int
  cf_cap :: int
  cf_digest :: "string \<Rightarrow> nat"
  cf_plan_ok :: "sync_row \<Rightarrow> bool"

text \<open>\<open>a or b\<close> of an optional number: \<open>None\<close> and \<open>0\<close> are falsy.\<close>

definition or_default :: "int option \<Rightarrow> int \<Rightarrow> int" where
  "or_default a b = (case a of None \<Rightarrow> b | Some x \<Rightarrow> if x = 0 then b else x)"

definition make_worker ::
  "job_settings \<Rightarrow> int option \<Rightarrow> int option \<Rightarrow> int option \<Rightarrow> int option \<Rightarrow>
   (string \<Rightarrow> nat) \<Rightarrow> (sync_row \<Rightarrow> bool) \<Rightarrow> worker_config" where
  "make_worker s lease heartbeat base cap digest plan_ok =
    (let l = max 30 (or_default lease (js_lease s));
         h = max 2 (or_default heartbeat (js_heartbeat s));
         b = max 1 (or_default base (js_retry_base s)) in
     \<lparr> cf_lease = l, cf_heartbeat = min h (max 2 (l div 3)), cf_base = b,
       cf_cap = max b (or_default cap (js_retry_cap s)),
       cf_digest = digest, cf_plan_ok = plan_ok \<rparr>)"

definition us :: "int \<Rightarrow> int" where "us seconds = seconds * 1000000"

section \<open>Guards\<close>

fun at_most :: "int option \<Rightarrow> int \<Rightarrow> bool" where
  "at_most None _ = False"
| "at_most (Some x) now = (x \<le> now)"

fun later_than :: "int option \<Rightarrow> int \<Rightarrow> bool" where
  "later_than None _ = False"
| "later_than (Some x) now = (now < x)"

definition expired :: "int \<Rightarrow> sync_row \<Rightarrow> bool" where
  "expired now r \<longleftrightarrow> sy_state r = Running \<and> at_most (sy_lease r) now"

definition claimable :: "int \<Rightarrow> sync_row \<Rightarrow> bool" where
  "claimable now r \<longleftrightarrow> sy_state r = Queued \<and> sy_cancel r = None \<and>
     sy_attempts r < sy_max r \<and> at_most (sy_next r) now"

text \<open>\<open>ClaimedCaseSync\<close>, without the columns that only reach the provider request.\<close>

record claimed_sync =
  cl_id :: int
  cl_public :: string
  cl_case :: int
  cl_case_public :: string
  cl_token :: string
  cl_attempt :: int
  cl_max :: int
  cl_network :: string
  cl_environment :: string
  cl_key :: string
  cl_display :: string

definition owned :: "claimed_sync \<Rightarrow> int \<Rightarrow> sync_row \<Rightarrow> bool" where
  "owned cl now r \<longleftrightarrow> sy_id r = cl_id cl \<and> sy_state r = Running \<and>
     sy_token r = Some (cl_token cl) \<and> later_than (sy_lease r) now"

section \<open>Row updates\<close>

definition close_row :: "job_state \<Rightarrow> job_stage \<Rightarrow> int \<Rightarrow> sync_row \<Rightarrow> sync_row" where
  "close_row state stage now r =
    r\<lparr> sy_state := state, sy_stage := stage, sy_completed := Some now, sy_updated := now,
       sy_token := None, sy_lease := None, sy_next := None, sy_version := sy_version r + 1 \<rparr>"

definition cancelled_row :: "int \<Rightarrow> sync_row \<Rightarrow> sync_row" where
  "cancelled_row now r =
    (close_row Cancelled Stage_Cancelled now r)\<lparr> sy_checkpoint := (''cancelled'', False) \<rparr>"

definition failed_row :: "string \<Rightarrow> bool \<Rightarrow> int \<Rightarrow> sync_row \<Rightarrow> sync_row" where
  "failed_row code retryable now r =
    (close_row Failed Stage_Failed now r)
      \<lparr> sy_error := Some code, sy_checkpoint := (''failed'', retryable) \<rparr>"

definition recovered_row :: "int \<Rightarrow> sync_row \<Rightarrow> sync_row" where
  "recovered_row now r =
    r\<lparr> sy_state := Queued, sy_stage := Stage_Retry_Wait, sy_progress := 0, sy_next := Some now,
       sy_updated := now, sy_token := None, sy_lease := None,
       sy_error := Some ''worker_lease_expired'', sy_checkpoint := (''retry_wait'', True),
       sy_version := sy_version r + 1 \<rparr>"

definition queue_exhausted_row :: "int \<Rightarrow> sync_row \<Rightarrow> sync_row" where
  "queue_exhausted_row now r =
    r\<lparr> sy_state := Failed, sy_stage := Stage_Failed, sy_completed := Some now, sy_updated := now,
       sy_next := None, sy_error := Some ''retry_budget_exhausted'',
       sy_checkpoint := (''failed'', True), sy_version := sy_version r + 1 \<rparr>"

definition claimed_row :: "worker_config \<Rightarrow> string \<Rightarrow> int \<Rightarrow> sync_row \<Rightarrow> sync_row" where
  "claimed_row cf token now r =
    r\<lparr> sy_state := Running, sy_stage := Stage_Validating, sy_progress := 0,
       sy_attempts := sy_attempts r + 1, sy_next := None, sy_token := Some token,
       sy_lease := Some (now + us (cf_lease cf)), sy_heartbeat := Some now,
       sy_started := (case sy_started r of None \<Rightarrow> Some now | s \<Rightarrow> s), sy_updated := now,
       sy_error := None, sy_checkpoint := (''validating'', False),
       sy_version := sy_version r + 1 \<rparr>"

definition advanced_row ::
  "worker_config \<Rightarrow> job_stage \<Rightarrow> string \<Rightarrow> int \<Rightarrow> int \<Rightarrow> sync_row \<Rightarrow> sync_row" where
  "advanced_row cf stage phase progress now r =
    r\<lparr> sy_stage := stage, sy_progress := progress, sy_heartbeat := Some now,
       sy_lease := Some (now + us (cf_lease cf)), sy_updated := now,
       sy_checkpoint := (phase, False), sy_version := sy_version r + 1 \<rparr>"

text \<open>The heartbeat names no \<open>updated_at\<close>: the column's \<open>onupdate\<close> sets it to the wall clock.\<close>

definition heartbeat_row :: "worker_config \<Rightarrow> int \<Rightarrow> int \<Rightarrow> sync_row \<Rightarrow> sync_row" where
  "heartbeat_row cf now wall r =
    r\<lparr> sy_heartbeat := Some now, sy_lease := Some (now + us (cf_lease cf)), sy_updated := wall \<rparr>"

definition retry_row :: "string \<Rightarrow> int \<Rightarrow> int \<Rightarrow> sync_row \<Rightarrow> sync_row" where
  "retry_row code retry_at now r =
    r\<lparr> sy_state := Queued, sy_stage := Stage_Retry_Wait, sy_progress := 0,
       sy_next := Some retry_at, sy_token := None, sy_lease := None, sy_heartbeat := Some now,
       sy_updated := now, sy_error := Some (take 64 code),
       sy_checkpoint := (''retry_wait'', True), sy_version := sy_version r + 1 \<rparr>"

record publication =
  pb_provider :: string
  pb_coverage :: string
  pb_summary :: string
  pb_manifest :: string
  pb_checkpoints :: "(string \<times> string \<times> string) list"

definition published_row ::
  "job_state \<Rightarrow> job_stage \<Rightarrow> string \<Rightarrow> publication \<Rightarrow> string option \<Rightarrow> bool \<Rightarrow> int \<Rightarrow> int \<Rightarrow>
   sync_row \<Rightarrow> sync_row" where
  "published_row state stage phase p error retryable run now r =
    r\<lparr> sy_run := Some run, sy_provider := pb_provider p, sy_state := state, sy_stage := stage,
       sy_progress := 3, sy_total := Some 3, sy_coverage := pb_coverage p,
       sy_result := pb_summary p, sy_error := error, sy_completed := Some now,
       sy_updated := now, sy_next := None, sy_token := None, sy_lease := None,
       sy_heartbeat := Some now, sy_checkpoint := (phase, retryable),
       sy_version := sy_version r + 1 \<rparr>"

section \<open>Recovery\<close>

definition update_syncs ::
  "(sync_row \<Rightarrow> bool) \<Rightarrow> (sync_row \<Rightarrow> sync_row) \<Rightarrow> store \<Rightarrow> nat \<times> store" where
  "update_syncs p f s =
    (snd (sql_update p f (st_syncs s)), s\<lparr> st_syncs := fst (sql_update p f (st_syncs s)) \<rparr>)"

definition recover_statements :: "int \<Rightarrow> store \<Rightarrow> nat \<times> store" where
  "recover_statements now s0 =
    (let (cancelled, s1) = update_syncs (\<lambda>r. expired now r \<and> sy_cancel r \<noteq> None)
           (cancelled_row now) s0;
         (exhausted, s2) = update_syncs
           (\<lambda>r. expired now r \<and> sy_cancel r = None \<and> sy_max r \<le> sy_attempts r)
           (failed_row ''worker_recovery_exhausted'' True now) s1;
         (retryable, s3) = update_syncs
           (\<lambda>r. expired now r \<and> sy_cancel r = None \<and> sy_attempts r < sy_max r)
           (recovered_row now) s2;
         (queued, s4) = update_syncs
           (\<lambda>r. sy_state r = Queued \<and> sy_stage r = Stage_Retry_Wait \<and> sy_max r \<le> sy_attempts r)
           (queue_exhausted_row now) s3
     in (cancelled + exhausted + retryable + queued, s4))"

definition recover_expired :: "nat prog" where
  "recover_expired = transact (\<lambda>t. recover_statements (tn_now t))"

section \<open>Claiming\<close>

definition claim_order :: "sync_row \<Rightarrow> int \<times> int \<times> int" where
  "claim_order r = (case sy_next r of None \<Rightarrow> 0 | Some n \<Rightarrow> n, sy_created r, sy_id r)"

fun precedes :: "int \<times> int \<times> int \<Rightarrow> int \<times> int \<times> int \<Rightarrow> bool" where
  "precedes (a, b, c) (x, y, z) = (a < x \<or> (a = x \<and> (b < y \<or> (b = y \<and> c < z))))"

text \<open>\<open>ORDER BY next_attempt_at, created_at, id LIMIT 1\<close>.\<close>

fun first_claimable :: "sync_row list \<Rightarrow> sync_row option" where
  "first_claimable [] = None"
| "first_claimable (r # rs) =
    (case first_claimable rs of
       None \<Rightarrow> Some r
     | Some q \<Rightarrow> Some (if precedes (claim_order q) (claim_order r) then q else r))"

definition select_candidate :: "int \<Rightarrow> store \<Rightarrow> int option" where
  "select_candidate now s = map_option sy_id (first_claimable (filter (claimable now) (st_syncs s)))"

definition claim_update :: "worker_config \<Rightarrow> int \<Rightarrow> string \<Rightarrow> int \<Rightarrow> store \<Rightarrow> bool \<times> store" where
  "claim_update cf now token candidate s =
    (let (n, s') = update_syncs (\<lambda>r. sy_id r = candidate \<and> claimable now r)
           (claimed_row cf token now) s
     in if n = 1 then (True, s') else (False, s))"

text \<open>The join with the case read after the commit.\<close>

definition claimed_of :: "int \<Rightarrow> string \<Rightarrow> store \<Rightarrow> (sync_row \<times> case_row) option" where
  "claimed_of candidate token s =
    (case sql_find (\<lambda>r. sy_id r = candidate \<and> sy_token r = Some token) (st_syncs s) of
       None \<Rightarrow> None
     | Some r \<Rightarrow>
         (case sql_find (\<lambda>c. wc_id c = sy_case r \<and> wc_archived c = None) (st_cases s) of
            None \<Rightarrow> None
          | Some c \<Rightarrow> Some (r, c)))"

definition close_unavailable_update :: "int \<Rightarrow> string \<Rightarrow> int \<Rightarrow> store \<Rightarrow> bool \<times> store" where
  "close_unavailable_update candidate token now s =
    (let (n, s') = update_syncs (\<lambda>r. sy_id r = candidate \<and> sy_state r = Running \<and>
            sy_token r = Some token \<and> later_than (sy_lease r) now)
          (failed_row ''case_unavailable'' False now) s
     in (n = 1, s'))"

definition close_unavailable_claim :: "int \<Rightarrow> string \<Rightarrow> bool prog" where
  "close_unavailable_claim candidate token =
    transact (\<lambda>t. close_unavailable_update candidate token (tn_now t))"

definition claim_record :: "string \<Rightarrow> sync_row \<Rightarrow> case_row \<Rightarrow> claimed_sync" where
  "claim_record token r c =
    \<lparr> cl_id = sy_id r, cl_public = sy_public r, cl_case = wc_id c, cl_case_public = wc_public c,
      cl_token = token, cl_attempt = sy_attempts r, cl_max = sy_max r,
      cl_network = wc_network c, cl_environment = wc_environment c, cl_key = wc_key c,
      cl_display = wc_display c \<rparr>"

text \<open>An exception that a method lets escape is \<open>Inl ()\<close>.\<close>

definition claim_next :: "worker_config \<Rightarrow> (unit + claimed_sync option) prog" where
  "claim_next cf = do {
     stop \<leftarrow> stop_is_set;
     if stop then State_Monad.return (Inr None) else do {
     t \<leftarrow> next_turn;
     candidate \<leftarrow> with_store (\<lambda>s. (select_candidate (tn_now t) s, s));
     case candidate of None \<Rightarrow> State_Monad.return (Inr None) | Some candidate \<Rightarrow> do {
     stop \<leftarrow> stop_is_set;
     if stop then State_Monad.return (Inr None) else do {
     u \<leftarrow> next_turn;
     ok \<leftarrow> with_store (claim_update cf (tn_now t) (tn_token u) candidate);
     if \<not> ok then State_Monad.return (Inr None) else do {
     row \<leftarrow> transact (\<lambda>_ s. (claimed_of candidate (tn_token u) s, s));
     case row of
       None \<Rightarrow> do { _ \<leftarrow> close_unavailable_claim candidate (tn_token u);
                    State_Monad.return (Inr None) }
     | Some (r, c) \<Rightarrow>
         if \<not> cf_plan_ok cf r then State_Monad.return (Inl ())
         else State_Monad.return (Inr (Some (claim_record (tn_token u) r c))) }}}}}"

section \<open>Fenced updates of a claimed job\<close>

definition finish_cancelled_update :: "claimed_sync \<Rightarrow> int \<Rightarrow> store \<Rightarrow> bool \<times> store" where
  "finish_cancelled_update cl now s =
    (let (n, s') = update_syncs (\<lambda>r. owned cl now r \<and> sy_cancel r \<noteq> None) (cancelled_row now) s
     in (n = 1, s'))"

definition finish_cancelled :: "claimed_sync \<Rightarrow> bool prog" where
  "finish_cancelled cl = transact (\<lambda>t. finish_cancelled_update cl (tn_now t))"

text \<open>An update under the fence; when it writes nothing, a requested cancellation is finished.\<close>

definition fenced_update ::
  "claimed_sync \<Rightarrow> (sync_row \<Rightarrow> bool) \<Rightarrow> (int \<Rightarrow> sync_row \<Rightarrow> sync_row) \<Rightarrow> int \<Rightarrow> store \<Rightarrow>
   bool \<times> store" where
  "fenced_update cl p f now s =
    (let (n, s') = update_syncs (\<lambda>r. owned cl now r \<and> sy_cancel r = None \<and> p r) (f now) s
     in (n = 1, s'))"

definition fenced ::
  "claimed_sync \<Rightarrow> (sync_row \<Rightarrow> bool) \<Rightarrow> (int \<Rightarrow> sync_row \<Rightarrow> sync_row) \<Rightarrow> bool prog" where
  "fenced cl p f = do {
     updated \<leftarrow> transact (\<lambda>t. fenced_update cl p f (tn_now t));
     if updated then State_Monad.return True
     else do { _ \<leftarrow> finish_cancelled cl; State_Monad.return False } }"

definition advance ::
  "worker_config \<Rightarrow> claimed_sync \<Rightarrow> job_stage \<Rightarrow> string \<Rightarrow> int \<Rightarrow> bool prog" where
  "advance cf cl stage phase progress =
     fenced cl (\<lambda>_. True) (advanced_row cf stage phase progress)"

definition advance_to_ingestion :: "worker_config \<Rightarrow> claimed_sync \<Rightarrow> bool prog" where
  "advance_to_ingestion cf cl = advance cf cl Stage_Ingesting ''ingesting'' 1"

definition advance_to_finalizing :: "worker_config \<Rightarrow> claimed_sync \<Rightarrow> bool prog" where
  "advance_to_finalizing cf cl = advance cf cl Stage_Finalizing ''finalizing'' 2"

definition fail_without_run :: "claimed_sync \<Rightarrow> string \<Rightarrow> bool \<Rightarrow> bool prog" where
  "fail_without_run cl code retryable =
     fenced cl (\<lambda>_. True) (failed_row (take 64 code) retryable)"

text \<open>\<open>_retry_delay\<close> in microseconds: \<open>exponential\<close> plus a jitter of at most a quarter, capped.
  Where the source rounds doubles to microseconds the model rounds the exact value.\<close>

definition retry_delay_us :: "worker_config \<Rightarrow> claimed_sync \<Rightarrow> int" where
  "retry_delay_us cf cl =
    (let exponential = min (cf_cap cf) (cf_base cf * 2 ^ nat (max 0 (cl_attempt cl - 1)));
         digest = int (cf_digest cf (cl_public cl @ '':'' @ show_int (cl_attempt cl)) mod 65536);
         jittered = us exponential + (us exponential * digest + 131070) div 262140
     in min (us (cf_cap cf)) jittered)"

definition schedule_retry :: "worker_config \<Rightarrow> claimed_sync \<Rightarrow> string \<Rightarrow> bool prog" where
  "schedule_retry cf cl code =
     fenced cl (\<lambda>r. sy_attempts r < sy_max r)
       (\<lambda>now. retry_row code (now + retry_delay_us cf cl) now)"

definition heartbeat :: "worker_config \<Rightarrow> claimed_sync \<Rightarrow> (bool \<times> bool) prog" where
  "heartbeat cf cl = do {
     t \<leftarrow> next_turn;
     row \<leftarrow> with_store (\<lambda>s. (sql_find (owned cl (tn_now t)) (st_syncs s), s));
     case row of
       None \<Rightarrow> State_Monad.return (False, False)
     | Some r \<Rightarrow> do {
         n \<leftarrow> transact (\<lambda>u. update_syncs (owned cl (tn_now t)) (heartbeat_row cf (tn_now t) (tn_wall u)));
         State_Monad.return (n = 1, sy_cancel r \<noteq> None) } }"

definition cancel_requested :: "claimed_sync \<Rightarrow> bool prog" where
  "cancel_requested cl =
    transact (\<lambda>t s. (case sql_find (owned cl (tn_now t)) (st_syncs s) of
        None \<Rightarrow> False | Some r \<Rightarrow> sy_cancel r \<noteq> None, s))"

section \<open>Publication\<close>

definition sync_state_of :: "string \<Rightarrow> job_state \<times> job_stage \<times> string" where
  "sync_state_of status =
    (if status = ''planned'' \<or> status = ''queued'' then (Queued, Stage_Queued, ''queued'')
     else if status = ''running'' then (Running, Stage_Ingesting, ''ingesting'')
     else if status = ''success'' then (Succeeded, Stage_Completed, ''completed'')
     else if status = ''partial'' then
       (Partial, Stage_Completed_With_Limitations, ''completed_with_limitations'')
     else (Failed, Stage_Failed, ''failed''))"

definition retryable_codes :: "string list" where
  "retryable_codes =
    [''provider_error'', ''provider_network_error'', ''provider_timeout'',
     ''provider_rate_limited'', ''provider_unavailable'', ''http_408'', ''http_425'',
     ''http_429'', ''http_500'', ''http_502'', ''http_503'', ''http_504'']"

definition permanent_codes :: "string list" where
  "permanent_codes =
    [''protocol_error'', ''provider_protocol_error'', ''provider_not_configured'',
     ''invalid_request'', ''scope_mismatch'']"

text \<open>What the worker reads of the response: its status, the error codes of its acquisition
  streams and the source statuses of its provider evidence.\<close>

record run_response =
  rr_status :: string
  rr_stream_codes :: "string list"
  rr_evidence :: "string list"

definition retry_signal :: "run_response \<Rightarrow> bool \<times> string" where
  "retry_signal r =
    (let permanent = filter (\<lambda>c. c \<in> set permanent_codes) (rr_stream_codes r);
         retryable = filter (\<lambda>c. c \<in> set retryable_codes) (rr_stream_codes r) in
     if permanent \<noteq> [] then (False, hd (sort permanent))
     else if retryable \<noteq> [] then (True, hd (sort retryable))
     else if rr_status r = ''error'' then (True, ''provider_error'')
     else if ''error'' \<in> set (rr_evidence r) then (True, ''provider_error'')
     else (False, ''''))"

text \<open>The unique indexes of the manifest and checkpoint tables.\<close>

definition publication_conflict :: "claimed_sync \<Rightarrow> publication \<Rightarrow> store \<Rightarrow> bool" where
  "publication_conflict cl p s \<longleftrightarrow>
     pb_manifest p \<in> mf_public ` set (st_manifests s) \<or> cl_id cl \<in> mf_sync ` set (st_manifests s) \<or>
     (\<exists>(public, provider, stream) \<in> set (pb_checkpoints p).
        public \<in> ck_public ` set (st_checkpoints s) \<or>
        (\<exists>c \<in> set (st_checkpoints s).
           ck_sync c = cl_id cl \<and> ck_provider c = provider \<and> ck_stream c = stream)) \<or>
     \<not> distinct (map fst (pb_checkpoints p)) \<or> \<not> distinct (map snd (pb_checkpoints p))"

datatype publish_result = Published | Fenced_Out | Case_Gone | Publish_Raised

definition publish_transaction ::
  "claimed_sync \<Rightarrow> string \<Rightarrow> run_response \<Rightarrow> publication \<Rightarrow> bool \<Rightarrow> int \<Rightarrow> store \<Rightarrow>
   publish_result \<times> store" where
  "publish_transaction cl status response p retryable now s =
    (let (state, stage, phase) = sync_state_of status;
         error = (if state = Failed then
             Some (let code = snd (retry_signal response) in
               if code = [] then ''ingestion_failed'' else code) else None);
         run = new_id (st_runs s);
         same_scope = (\<lambda>c. wc_id c = cl_case cl \<and> wc_public c = cl_case_public cl \<and>
           wc_archived c = None \<and> wc_network c = cl_network cl \<and>
           wc_environment c = cl_environment cl \<and> wc_key c = cl_key cl \<and>
           wc_display c = cl_display cl) in
     if sql_find same_scope (st_cases s) = None then (Case_Gone, s)
     else let (n, s') = update_syncs
             (\<lambda>r. owned cl now r \<and> sy_case r = cl_case cl \<and> sy_cancel r = None \<and> sy_run r = None)
             (published_row state stage phase p error retryable run now) s in
       if n \<noteq> 1 then (Fenced_Out, s)
       else if publication_conflict cl p s then (Publish_Raised, s)
       else (Published, s'
         \<lparr> st_runs := st_runs s @ [run],
           st_manifests := st_manifests s @ [\<lparr> mf_public = pb_manifest p, mf_sync = cl_id cl \<rparr>],
           st_checkpoints := st_checkpoints s @ map (\<lambda>(public, provider, stream).
             \<lparr> ck_public = public, ck_case = cl_case cl, ck_sync = cl_id cl,
               ck_provider = provider, ck_stream = stream \<rparr>) (pb_checkpoints p),
           st_cases := map (\<lambda>c. if same_scope c then c\<lparr> wc_updated := now \<rparr> else c) (st_cases s),
           st_catalog := record_event (cl_case cl) now True (st_catalog s) \<rparr>))"

definition publish_final_run ::
  "claimed_sync \<Rightarrow> string \<Rightarrow> run_response \<Rightarrow> publication option \<Rightarrow> bool \<Rightarrow> (unit + bool) prog" where
  "publish_final_run cl status response built retryable =
    (case built of None \<Rightarrow> State_Monad.return (Inl ()) | Some p \<Rightarrow> do {
     result \<leftarrow> transact (\<lambda>t. publish_transaction cl status response p retryable (tn_now t));
     case result of
       Published \<Rightarrow> State_Monad.return (Inr True)
     | Fenced_Out \<Rightarrow> do { _ \<leftarrow> finish_cancelled cl; State_Monad.return (Inr False) }
     | Case_Gone \<Rightarrow> do { b \<leftarrow> fail_without_run cl ''scope_mismatch'' False; State_Monad.return (Inr b) }
     | Publish_Raised \<Rightarrow> State_Monad.return (Inl ()) })"

section \<open>Execution\<close>

text \<open>One execution's outside: the settings check past the scope, how many heartbeat
  intervals the provider crawl outlives, and what it returns or raises.\<close>

datatype settings_outcome = Settings_Ok | Settings_Conflict | Settings_Raised

datatype build_outcome =
    Build_Run string run_response "publication option"
  | Build_Scope_Mismatch
  | Build_Value_Error
  | Build_Raised

record external =
  ex_settings :: settings_outcome
  ex_ticks :: nat
  ex_outcome :: build_outcome

definition validated_settings :: "external \<Rightarrow> claimed_sync \<Rightarrow> settings_outcome prog" where
  "validated_settings ex cl =
    transact (\<lambda>_ s.
      (case sql_find (\<lambda>c. wc_id c = cl_case cl \<and> wc_public c = cl_case_public cl \<and>
              wc_archived c = None) (st_cases s) of
         None \<Rightarrow> Settings_Conflict
       | Some c \<Rightarrow>
           if (wc_network c, wc_environment c, wc_key c, wc_display c) \<noteq>
              (cl_network cl, cl_environment cl, cl_key cl, cl_display cl)
           then Settings_Conflict else ex_settings ex, s))"

fun heartbeat_loop :: "worker_config \<Rightarrow> claimed_sync \<Rightarrow> nat \<Rightarrow> bool \<Rightarrow> (bool \<times> bool) prog" where
  "heartbeat_loop cf cl 0 seen = State_Monad.return (True, seen)"
| "heartbeat_loop cf cl (Suc n) seen = do {
     stop \<leftarrow> stop_is_set;
     if stop then State_Monad.return (False, seen) else do {
     beat \<leftarrow> heartbeat cf cl;
     if \<not> fst beat then State_Monad.return (False, seen \<or> snd beat)
     else heartbeat_loop cf cl n (seen \<or> snd beat) } }"

datatype build_result =
    Build_Stopped
  | Build_Failed build_outcome
  | Build_Done string run_response "publication option" bool bool

definition build_with_heartbeats ::
  "worker_config \<Rightarrow> external \<Rightarrow> claimed_sync \<Rightarrow> build_result prog" where
  "build_with_heartbeats cf ex cl = do {
     stop \<leftarrow> stop_is_set;
     if stop then State_Monad.return Build_Stopped else do {
     stop \<leftarrow> stop_is_set;
     if stop then State_Monad.return Build_Stopped else do {
     beats \<leftarrow> heartbeat_loop cf cl (ex_ticks ex) False;
     stop \<leftarrow> stop_is_set;
     State_Monad.return (case ex_outcome ex of
         Build_Run status response built \<Rightarrow>
           Build_Done status response built (fst beats \<and> \<not> stop) (snd beats)
       | failure \<Rightarrow> Build_Failed failure) } } }"

definition settle_run ::
  "worker_config \<Rightarrow> claimed_sync \<Rightarrow> string \<Rightarrow> run_response \<Rightarrow> publication option \<Rightarrow> (unit + unit) prog"
  where
  "settle_run cf cl status response built =
    (if status \<notin> {''success'', ''partial'', ''error''} then do {
       _ \<leftarrow> fail_without_run cl ''invalid_builder_status'' False; State_Monad.return (Inr ()) }
     else if status = ''error'' \<and> fst (retry_signal response) \<and> cl_attempt cl < cl_max cl then do {
       _ \<leftarrow> schedule_retry cf cl (snd (retry_signal response)); State_Monad.return (Inr ()) }
     else do {
       advanced \<leftarrow> advance_to_finalizing cf cl;
       if \<not> advanced then State_Monad.return (Inr ()) else do {
       result \<leftarrow> publish_final_run cl status response built (fst (retry_signal response));
       State_Monad.return (case result of Inl _ \<Rightarrow> Inl () | Inr _ \<Rightarrow> Inr ()) } })"

definition execute_claimed ::
  "worker_config \<Rightarrow> external \<Rightarrow> claimed_sync \<Rightarrow> (unit + unit) prog" where
  "execute_claimed cf ex cl = do {
     settings \<leftarrow> validated_settings ex cl;
     case settings of
       Settings_Raised \<Rightarrow> State_Monad.return (Inl ())
     | Settings_Conflict \<Rightarrow> do {
         _ \<leftarrow> fail_without_run cl ''runtime_scope_conflict'' False; State_Monad.return (Inr ()) }
     | Settings_Ok \<Rightarrow> do {
         stop \<leftarrow> stop_is_set;
         if stop then State_Monad.return (Inr ()) else do {
         advanced \<leftarrow> advance_to_ingestion cf cl;
         if \<not> advanced then State_Monad.return (Inr ()) else do {
         built \<leftarrow> build_with_heartbeats cf ex cl;
         case built of
           Build_Stopped \<Rightarrow> State_Monad.return (Inr ())
         | Build_Failed Build_Scope_Mismatch \<Rightarrow> do {
             _ \<leftarrow> fail_without_run cl ''scope_mismatch'' False; State_Monad.return (Inr ()) }
         | Build_Failed Build_Value_Error \<Rightarrow> do {
             _ \<leftarrow> fail_without_run cl ''invalid_request'' False; State_Monad.return (Inr ()) }
         | Build_Failed _ \<Rightarrow> State_Monad.return (Inl ())
         | Build_Done status response publication kept seen \<Rightarrow>
             if \<not> kept then State_Monad.return (Inr ()) else do {
             cancelled \<leftarrow> (if seen then State_Monad.return True else cancel_requested cl);
             if cancelled then do {
               _ \<leftarrow> finish_cancelled cl; State_Monad.return (Inr ()) }
             else settle_run cf cl status response publication } } } } }"

text \<open>\<open>run_once\<close>: \<open>Inl ()\<close> when an exception of \<open>claim_next\<close> escapes to the runner's loop.\<close>

definition run_once :: "worker_config \<Rightarrow> external \<Rightarrow> (unit + bool) prog" where
  "run_once cf ex = do {
     stop \<leftarrow> stop_is_set;
     if stop then State_Monad.return (Inr False) else do {
     _ \<leftarrow> recover_expired;
     stop \<leftarrow> stop_is_set;
     if stop then State_Monad.return (Inr False) else do {
     claimed \<leftarrow> claim_next cf;
     case claimed of
       Inl e \<Rightarrow> State_Monad.return (Inl e)
     | Inr None \<Rightarrow> State_Monad.return (Inr False)
     | Inr (Some cl) \<Rightarrow> do {
         stop \<leftarrow> stop_is_set;
         if stop then State_Monad.return (Inr True) else do {
         result \<leftarrow> execute_claimed cf ex cl;
         case result of
           Inr _ \<Rightarrow> State_Monad.return (Inr True)
         | Inl _ \<Rightarrow> do {
             _ \<leftarrow> fail_without_run cl ''internal_job_error'' False;
             State_Monad.return (Inr True) } } } } } }"

section \<open>Enqueueing\<close>

definition sync_progress_total :: int where "sync_progress_total = 3"

text \<open>The row \<open>enqueue_sync\<close> and \<open>enqueue_checkpoint_resume\<close> insert.\<close>

definition queued_sync_row ::
  "int \<Rightarrow> string \<Rightarrow> int \<Rightarrow> string \<Rightarrow> int \<Rightarrow> int \<Rightarrow> string list \<Rightarrow> string \<Rightarrow> string \<Rightarrow> string \<Rightarrow> int \<Rightarrow>
   int \<Rightarrow> sync_row"
  where
  "queued_sync_row i public case_id provider start end' surfaces coverage key fingerprint max_attempts now =
    \<lparr> sy_id = i, sy_public = public, sy_case = case_id, sy_run = None, sy_provider = provider,
      sy_start = start, sy_end = end', sy_surfaces = surfaces, sy_state = Queued,
      sy_stage = Stage_Queued,
      sy_progress = 0, sy_total = Some sync_progress_total, sy_coverage = coverage, sy_result = ''{}'',
      sy_error = None, sy_created = now, sy_updated = now, sy_started = None,
      sy_completed = None, sy_version = 1, sy_idempotency = Some key,
      sy_fingerprint = Some fingerprint, sy_attempts = 0, sy_max = max_attempts,
      sy_next = Some now, sy_cancel = None, sy_token = None, sy_lease = None,
      sy_heartbeat = None, sy_checkpoint = (''queued'', False) \<rparr>"

text \<open>The commit of the insertion: \<open>None\<close> is \<open>IntegrityError\<close>.\<close>

definition insert_sync :: "sync_row \<Rightarrow> store \<Rightarrow> store option" where
  "insert_sync r s =
    (if sync_checks r \<and> sy_id r \<notin> sy_id ` set (st_syncs s) \<and>
        sy_public r \<notin> sy_public ` set (st_syncs s) \<and>
        (\<forall>q \<in> set (st_syncs s). sy_case q = sy_case r \<longrightarrow> sy_idempotency q \<noteq> sy_idempotency r) \<and>
        (\<forall>q \<in> set (st_syncs s). sy_case q = sy_case r \<longrightarrow> \<not> active_state (sy_state q))
     then Some (s\<lparr> st_syncs := st_syncs s @ [r] \<rparr>) else None)"

section \<open>Cancellation\<close>

definition queued_cancel_row :: "int \<Rightarrow> sync_row \<Rightarrow> sync_row" where
  "queued_cancel_row now r =
    r\<lparr> sy_state := Cancelled, sy_stage := Stage_Cancelled, sy_cancel := Some now,
       sy_completed := Some now, sy_updated := now, sy_next := None,
       sy_version := sy_version r + 1 \<rparr>"

definition running_cancel_row :: "int \<Rightarrow> sync_row \<Rightarrow> sync_row" where
  "running_cancel_row now r =
    r\<lparr> sy_stage := Stage_Cancelling, sy_cancel := Some now, sy_updated := now,
       sy_version := sy_version r + 1 \<rparr>"

text \<open>The two updates of \<open>cancel_sync\<close> on one job: the flag says whether a running job was asked
  to stop; \<open>None\<close> is \<open>WalletCaseNotFound\<close>.\<close>

definition cancel_statements :: "int \<Rightarrow> int \<Rightarrow> store \<Rightarrow> bool \<times> store" where
  "cancel_statements sync_id now s =
    (let (queued, s1) = update_syncs (\<lambda>r. sy_id r = sync_id \<and> sy_state r = Queued)
           (queued_cancel_row now) s in
     if queued = 1 then (False, s1)
     else let (running, s2) = update_syncs
             (\<lambda>r. sy_id r = sync_id \<and> sy_state r = Running \<and> sy_cancel r = None)
             (running_cancel_row now) s1 in (running = 1, s2))"

definition find_case :: "string \<Rightarrow> string \<Rightarrow> store \<Rightarrow> case_row option" where
  "find_case owner public s =
    sql_find (\<lambda>c. wc_owner c = owner \<and> wc_public c = public \<and> wc_archived c = None) (st_cases s)"

definition find_sync :: "int \<Rightarrow> string \<Rightarrow> store \<Rightarrow> sync_row option" where
  "find_sync case_id public s =
    sql_find (\<lambda>r. sy_case r = case_id \<and> sy_public r = public) (st_syncs s)"

definition cancel_sync :: "string \<Rightarrow> string \<Rightarrow> string \<Rightarrow> (sync_row \<times> bool) option prog" where
  "cancel_sync owner case_public public = do {
     found \<leftarrow> transact (\<lambda>_ s. (Option.bind (find_case owner case_public s)
       (\<lambda>c. find_sync (wc_id c) public s), s));
     case found of
       None \<Rightarrow> State_Monad.return None
     | Some r \<Rightarrow>
         if terminal_state (sy_state r) then State_Monad.return (Some (r, False)) else do {
         asked \<leftarrow> transact (\<lambda>t. cancel_statements (sy_id r) (tn_now t));
         refreshed \<leftarrow> transact (\<lambda>_ s. (find_sync (sy_case r) public s, s));
         State_Monad.return (map_option (\<lambda>q. (q, asked)) refreshed) } }"

section \<open>Exponential backoff\<close>

text \<open>What both workers wait before a retry: doubling from the base, jittered by up to a quarter,
  and capped.\<close>

lemma jittered_backoff:
  assumes "1 \<le> base" "base \<le> cap" "0 \<le> digest"
  shows "let e = min cap (base * 2 ^ n); w = min (us cap) (us e + (us e * digest + 131070) div 262140) in
    us base \<le> w \<and> w \<le> us cap"
proof -
  let ?e = "min cap (base * 2 ^ n)"
  have "1 * base \<le> 2 ^ n * base" using assms by (intro mult_right_mono) simp_all
  then have e: "base \<le> ?e" using assms by (simp add: mult.commute)
  have "0 \<le> us ?e * digest + 131070"
    using e assms by (intro add_nonneg_nonneg mult_nonneg_nonneg) (auto simp: us_def)
  then have "0 \<le> (us ?e * digest + 131070) div 262140" by (simp add: pos_imp_zdiv_nonneg_iff)
  moreover have "us base \<le> us ?e" "us base \<le> us cap" using e assms by (simp_all add: us_def)
  ultimately show ?thesis unfolding Let_def by linarith
qed

end
