(* ===== verification/Case_Sync_Steps.thy ===== *)
theory Case_Sync_Steps
  imports Case_Sync_Jobs
begin

text \<open>
  The synchronization jobs as a state machine: the changes one row can undergo, the
  transactions as steps of the store, the invariants every reachable store keeps, and the
  worker's methods as programs that only commit such steps.
\<close>

section \<open>Row steps\<close>

text \<open>Every way a statement of the worker or of \<open>cancel_sync\<close> changes one row.\<close>

inductive sync_row_step :: "string set \<Rightarrow> sync_row \<Rightarrow> sync_row \<Rightarrow> bool" for A where
  cancelled: "sy_state r = Running \<Longrightarrow> sy_cancel r \<noteq> None \<Longrightarrow> sync_row_step A r (cancelled_row now r)"
| failed: "sy_state r = Running \<Longrightarrow> sync_row_step A r (failed_row code retryable now r)"
| recovered: "sy_state r = Running \<Longrightarrow> sy_cancel r = None \<Longrightarrow> sy_attempts r < sy_max r \<Longrightarrow>
    sync_row_step A r (recovered_row now r)"
| queue_exhausted: "sy_state r = Queued \<Longrightarrow> sync_row_step A r (queue_exhausted_row now r)"
| claimed: "claimable now r \<Longrightarrow> t \<in> A \<Longrightarrow> sync_row_step A r (claimed_row cf t now r)"
| advanced: "sy_state r = Running \<Longrightarrow> 0 \<le> progress \<Longrightarrow> progress \<le> 3 \<Longrightarrow>
    sync_row_step A r (advanced_row cf stage phase progress now r)"
| heartbeat: "sy_state r = Running \<Longrightarrow> sync_row_step A r (heartbeat_row cf now wall r)"
| retry: "sy_state r = Running \<Longrightarrow> sy_cancel r = None \<Longrightarrow> sync_row_step A r (retry_row code at now r)"
| published: "sy_state r = Running \<Longrightarrow> sy_cancel r = None \<Longrightarrow>
    state \<in> {Succeeded, Partial, Failed} \<Longrightarrow>
    sync_row_step A r (published_row state stage phase p error retryable run now r)"
| queued_cancel: "sy_state r = Queued \<Longrightarrow> sync_row_step A r (queued_cancel_row now r)"
| running_cancel: "sy_state r = Running \<Longrightarrow> sync_row_step A r (running_cancel_row now r)"

lemmas row_defs = close_row_def cancelled_row_def failed_row_def recovered_row_def
  queue_exhausted_row_def claimed_row_def advanced_row_def heartbeat_row_def retry_row_def
  published_row_def queued_cancel_row_def running_cancel_row_def

inductive_cases sync_row_stepE: "sync_row_step A r r'"

text \<open>The lifecycle of a row, stronger than the table's CHECK constraints.\<close>

definition sync_row_ok :: "sync_row \<Rightarrow> bool" where
  "sync_row_ok r \<longleftrightarrow>
     sync_checks r \<and> sy_total r = Some 3 \<and> 0 \<le> sy_attempts r \<and> sy_attempts r \<le> sy_max r \<and>
     (sy_token r = None \<longleftrightarrow> sy_state r \<noteq> Running) \<and> (sy_lease r = None \<longleftrightarrow> sy_token r = None) \<and>
     (sy_next r \<noteq> None \<longleftrightarrow> sy_state r = Queued) \<and>
     (sy_completed r = None \<longleftrightarrow> active_state (sy_state r)) \<and>
     (sy_state r = Running \<longrightarrow> sy_started r \<noteq> None \<and> 1 \<le> sy_attempts r) \<and>
     (sy_state r = Queued \<longrightarrow> sy_cancel r = None) \<and>
     (sy_state r = Cancelled \<longrightarrow> sy_cancel r \<noteq> None) \<and>
     (sy_run r \<noteq> None \<longrightarrow> sy_state r \<in> {Succeeded, Partial, Failed} \<and> sy_progress r = 3) \<and>
     (sy_state r \<in> {Succeeded, Partial} \<longrightarrow> sy_run r \<noteq> None \<and> sy_cancel r = None)"

lemma sync_row_step_ok: "sync_row_step A r r' \<Longrightarrow> sync_row_ok r \<Longrightarrow> sync_row_ok r'"
  by (induction rule: sync_row_step.induct)
    (auto simp: sync_row_ok_def sync_checks_def row_defs claimable_def split: option.splits)

lemma sync_row_step_facts:
  "sync_row_step A r r' \<Longrightarrow> sy_id r' = sy_id r \<and> sy_case r' = sy_case r \<and> sy_public r' = sy_public r \<and>
     sy_idempotency r' = sy_idempotency r \<and> active_state (sy_state r) \<and>
     sy_version r \<le> sy_version r' \<and> sy_attempts r \<le> sy_attempts r' \<and> sy_max r' = sy_max r \<and>
     (sy_token r' = sy_token r \<or> sy_token r' = None \<or>
        (\<exists>t \<in> A. sy_token r' = Some t) \<and> sy_attempts r' = sy_attempts r + 1)"
  by (induction rule: sync_row_step.induct) (auto simp: row_defs claimable_def)

interpretation sync: leased_rows sync_row_step sy_id sy_state sy_token sy_version sy_attempts
  sy_max sync_row_ok
proof (unfold_locales, goal_cases)
  case (1 A r r')
  then show ?case by (rule sync_row_step_ok)
next
  case (2 A r r')
  then show ?case using sync_row_step_facts by blast
next
  case (3 A r r')
  then show ?case using sync_row_step_facts by blast
next
  case (4 A r r')
  then show ?case using sync_row_step_facts by blast
next
  case (5 A r r')
  then show ?case using sync_row_step_facts [OF 5] by blast
next
  case (6 A r r')
  then show ?case using sync_row_step_facts [OF 6] by metis
next
  case (7 r)
  then show ?case by (simp add: sync_row_ok_def)
qed

section \<open>Transactions step the table\<close>

lemma map_table_step:
  "(\<And>r. r \<in> set rows \<Longrightarrow> p r \<Longrightarrow> sync_row_step A r (f r)) \<Longrightarrow>
   sync.table_step A rows (fst (sql_update p f rows))"
  unfolding sync.table_step_def fst_sql_update
  by (intro exI [of _ "\<lambda>r. if p r then f r else r"] exI [of _ "[]"]) auto

lemma update_table_step:
  "(\<And>r. r \<in> set (st_syncs s) \<Longrightarrow> p r \<Longrightarrow> sync_row_step A r (f r)) \<Longrightarrow>
   sync.table_step A (st_syncs s) (st_syncs (snd (update_syncs p f s)))"
  by (simp add: update_syncs_def map_table_step)

text \<open>One committed transaction, as a step of the whole store.\<close>

inductive sync_step :: "string set \<Rightarrow> store \<Rightarrow> store \<Rightarrow> bool" for A where
  recover: "sync_step A s (snd (recover_statements now s))"
| claim: "t \<in> A \<Longrightarrow> sync_step A s (snd (claim_update cf now t candidate s))"
| unavailable: "sync_step A s (snd (close_unavailable_update candidate t now s))"
| finish_cancel: "sync_step A s (snd (finish_cancelled_update cl now s))"
| advance: "0 \<le> progress \<Longrightarrow> progress \<le> 3 \<Longrightarrow>
    sync_step A s (snd (fenced_update cl p (advanced_row cf stage phase progress) now s))"
| fail: "sync_step A s (snd (fenced_update cl p (failed_row code retryable) now s))"
| retry: "sync_step A s (snd (fenced_update cl p (\<lambda>now. retry_row code (now + delay) now) now s))"
| heartbeat: "sync_step A s (snd (update_syncs (owned cl now) (heartbeat_row cf now wall) s))"
| publish: "status \<in> {''success'', ''partial'', ''error''} \<Longrightarrow>
    sync_step A s (snd (publish_transaction cl status response p retryable now s))"
| cancel: "sync_step A s (snd (cancel_statements i now s))"
| enqueue: "insert_sync (queued_sync_row i public case_id provider start end' surfaces coverage key
      fingerprint max_attempts now) s = Some s' \<Longrightarrow> 0 \<le> max_attempts \<Longrightarrow> sync_step A s s'"
| elsewhere: "sync_step A s (s\<lparr> st_cases := cases, st_evidence := evidence,
    st_artifacts := proofs, st_catalog := catalog, st_reports := reports,
    st_receipts := receipts \<rparr>)"

lemma update_syncs_other [simp]:
  "st_cases (snd (update_syncs p f s)) = st_cases s"
  "st_runs (snd (update_syncs p f s)) = st_runs s"
  "st_manifests (snd (update_syncs p f s)) = st_manifests s"
  "st_checkpoints (snd (update_syncs p f s)) = st_checkpoints s"
  "st_catalog (snd (update_syncs p f s)) = st_catalog s"
  "st_evidence (snd (update_syncs p f s)) = st_evidence s"
  by (simp_all add: update_syncs_def)

lemma update_syncs_rows [simp]:
  "st_syncs (snd (update_syncs p f s)) = map (\<lambda>r. if p r then f r else r) (st_syncs s)"
  "fst (update_syncs p f s) = length (filter p (st_syncs s))"
  by (simp_all add: update_syncs_def sql_update_def)

lemma recover_rows:
  "snd (recover_statements now s) =
    snd (update_syncs
      (\<lambda>r. sy_state r = Queued \<and> sy_stage r = Stage_Retry_Wait \<and> sy_max r \<le> sy_attempts r)
      (queue_exhausted_row now)
    (snd (update_syncs (\<lambda>r. expired now r \<and> sy_cancel r = None \<and> sy_attempts r < sy_max r)
      (recovered_row now)
    (snd (update_syncs (\<lambda>r. expired now r \<and> sy_cancel r = None \<and> sy_max r \<le> sy_attempts r)
      (failed_row ''worker_recovery_exhausted'' True now)
    (snd (update_syncs (\<lambda>r. expired now r \<and> sy_cancel r \<noteq> None) (cancelled_row now) s)))))))"
  by (simp add: recover_statements_def split_def Let_def)

text \<open>Recovery settles each row by its own first applicable statement.\<close>

definition recover_row :: "int \<Rightarrow> sync_row \<Rightarrow> sync_row" where
  "recover_row now r =
    (if expired now r then
       if sy_cancel r \<noteq> None then cancelled_row now r
       else if sy_max r \<le> sy_attempts r then failed_row ''worker_recovery_exhausted'' True now r
       else recovered_row now r
     else if sy_state r = Queued \<and> sy_stage r = Stage_Retry_Wait \<and> sy_max r \<le> sy_attempts r
       then queue_exhausted_row now r
     else r)"

lemma recovered_not_expired [simp]:
  "\<not> expired now (cancelled_row n r)" "\<not> expired now (failed_row c b n r)"
  "\<not> expired now (recovered_row n r)" "\<not> expired now (queue_exhausted_row n r)"
  by (simp_all add: expired_def row_defs)

lemma recover_row_states [simp]:
  "sy_state (cancelled_row n r) = Cancelled" "sy_state (failed_row c b n r) = Failed"
  "sy_state (recovered_row n r) = Queued" "sy_attempts (recovered_row n r) = sy_attempts r"
  "sy_max (recovered_row n r) = sy_max r" "sy_state (queue_exhausted_row n r) = Failed"
  by (simp_all add: row_defs)

lemma recover_map: "st_syncs (snd (recover_statements now s)) = map (recover_row now) (st_syncs s)"
  unfolding recover_rows update_syncs_rows map_map
proof (rule map_cong)
  fix r
  have "expired now r \<Longrightarrow> sy_state r = Running" by (simp add: expired_def)
  then show "((\<lambda>r. if sy_state r = Queued \<and> sy_stage r = Stage_Retry_Wait \<and> sy_max r \<le> sy_attempts r
        then queue_exhausted_row now r else r) \<circ>
      ((\<lambda>r. if expired now r \<and> sy_cancel r = None \<and> sy_attempts r < sy_max r
        then recovered_row now r else r) \<circ>
      ((\<lambda>r. if expired now r \<and> sy_cancel r = None \<and> sy_max r \<le> sy_attempts r
        then failed_row ''worker_recovery_exhausted'' True now r else r) \<circ>
      (\<lambda>r. if expired now r \<and> sy_cancel r \<noteq> None then cancelled_row now r else r)))) r
    = recover_row now r"
    by (cases "expired now r"; cases "sy_cancel r"; cases "sy_max r \<le> sy_attempts r")
      (simp_all add: recover_row_def)
qed simp

lemma recover_row_step:
  "recover_row now r = r \<or> sync_row_step A r (recover_row now r)"
  by (auto simp: recover_row_def expired_def intro: sync_row_step.intros)

lemma recover_table: "sync.table_step A (st_syncs s) (st_syncs (snd (recover_statements now s)))"
  unfolding recover_map sync.table_step_def
  using recover_row_step by (intro exI [of _ "recover_row now"] exI [of _ "[]"]) auto

lemma sync_state_final:
  "status \<in> {''success'', ''partial'', ''error''} \<Longrightarrow>
   fst (sync_state_of status) \<in> {Succeeded, Partial, Failed}"
  by (auto simp: sync_state_of_def)

text \<open>What a publication transaction does, when it does anything.\<close>

lemma publish_transaction_cases:
  obtains (none) "fst (publish_transaction cl status response p retryable now s) \<noteq> Published"
      "snd (publish_transaction cl status response p retryable now s) = s"
  | (published) error s' where
      "fst (publish_transaction cl status response p retryable now s) = Published"
      "snd (publish_transaction cl status response p retryable now s) = s'"
      "length (filter (\<lambda>r. owned cl now r \<and> sy_case r = cl_case cl \<and> sy_cancel r = None \<and>
         sy_run r = None) (st_syncs s)) = 1"
      "\<not> publication_conflict cl p s"
      "st_syncs s' = map (\<lambda>r. if owned cl now r \<and> sy_case r = cl_case cl \<and> sy_cancel r = None \<and>
           sy_run r = None
         then published_row (fst (sync_state_of status)) (fst (snd (sync_state_of status)))
           (snd (snd (sync_state_of status))) p error retryable (new_id (st_runs s)) now r
         else r) (st_syncs s)"
      "st_runs s' = st_runs s @ [new_id (st_runs s)]"
      "st_manifests s' = st_manifests s @ [\<lparr> mf_public = pb_manifest p, mf_sync = cl_id cl \<rparr>]"
proof -
  define P where "P = (\<lambda>r. owned cl now r \<and> sy_case r = cl_case cl \<and> sy_cancel r = None \<and>
     sy_run r = None)"
  define err where "err = (if fst (sync_state_of status) = Failed then
       Some (let code = snd (retry_signal response) in
         if code = [] then ''ingestion_failed'' else code) else None)"
  define scope where "scope = (\<lambda>c :: case_row. wc_id c = cl_case cl \<and> wc_public c = cl_case_public cl \<and>
           wc_archived c = None \<and> wc_network c = cl_network cl \<and>
           wc_environment c = cl_environment cl \<and> wc_key c = cl_key cl \<and>
           wc_display c = cl_display cl)"
  define f where "f = published_row (fst (sync_state_of status)) (fst (snd (sync_state_of status)))
           (snd (snd (sync_state_of status))) p err retryable (new_id (st_runs s)) now"
  have eq: "publish_transaction cl status response p retryable now s =
     (if sql_find scope (st_cases s) = None then (Case_Gone, s)
      else if length (filter P (st_syncs s)) \<noteq> 1 then (Fenced_Out, s)
      else if publication_conflict cl p s then (Publish_Raised, s)
      else (Published, (snd (update_syncs P f s))
         \<lparr> st_runs := st_runs s @ [new_id (st_runs s)],
           st_manifests := st_manifests s @ [\<lparr> mf_public = pb_manifest p, mf_sync = cl_id cl \<rparr>],
           st_checkpoints := st_checkpoints s @ map (\<lambda>(public, provider, stream).
             \<lparr> ck_public = public, ck_case = cl_case cl, ck_sync = cl_id cl,
               ck_provider = provider, ck_stream = stream \<rparr>) (pb_checkpoints p),
           st_cases := map (\<lambda>c. if scope c then c\<lparr> wc_updated := now \<rparr> else c) (st_cases s),
           st_catalog := record_event (cl_case cl) now True (st_catalog s) \<rparr>))"
    unfolding publish_transaction_def P_def err_def f_def scope_def Let_def split_def
    by (simp only: update_syncs_rows prod.sel fst_conv snd_conv)
  show thesis
  proof (cases "sql_find scope (st_cases s) = None \<or> length (filter P (st_syncs s)) \<noteq> 1 \<or>
      publication_conflict cl p s")
    case True
    with eq none show ?thesis by (auto split: if_split_asm)
  next
    case False
    with eq show ?thesis
      by (intro published [of _ err]) (simp_all only: eq if_False if_True prod.sel P_def f_def, auto)
  qed
qed

lemma claim_update_table:
  "t \<in> A \<Longrightarrow> sync.table_step A (st_syncs s) (st_syncs (snd (claim_update cf now t candidate s)))"
  by (auto simp: claim_update_def Let_def split_def sync.table_step_refl
      intro: update_table_step [simplified] sync_row_step.claimed)

lemma cancel_statements_rows:
  "st_syncs (snd (cancel_statements i now s)) =
    map (\<lambda>r. if sy_id r = i \<and> sy_state r = Queued then queued_cancel_row now r else r) (st_syncs s)
   \<or> st_syncs (snd (cancel_statements i now s)) =
    map (\<lambda>r. if sy_id r = i \<and> sy_state r = Queued then queued_cancel_row now r
         else if sy_id r = i \<and> sy_state r = Running \<and> sy_cancel r = None then running_cancel_row now r
         else r) (st_syncs s)"
  unfolding cancel_statements_def Let_def split_def
  by (auto simp: queued_cancel_row_def split: if_split_asm)

lemma pointwise_table:
  "(\<And>r. r \<in> set rows \<Longrightarrow> f r = r \<or> sync_row_step A r (f r)) \<Longrightarrow> sync.table_step A rows (map f rows)"
  unfolding sync.table_step_def by (intro exI [of _ f] exI [of _ "[]"]) simp

lemma queued_sync_row_ok:
  "sync_checks (queued_sync_row i public case_id provider start end' surfaces coverage key fingerprint m now) \<Longrightarrow>
   0 \<le> m \<Longrightarrow>
   sync_row_ok (queued_sync_row i public case_id provider start end' surfaces coverage key fingerprint m now)"
  by (simp add: sync_row_ok_def queued_sync_row_def sync_progress_total_def)

lemma sync_step_table:
  "sync_step A s s' \<Longrightarrow> sync.table_step A (st_syncs s) (st_syncs s')"
proof (induction rule: sync_step.induct)
  case (recover s now)
  show ?case by (rule recover_table)
next
  case (claim t s cf now candidate)
  then show ?case by (rule claim_update_table)
next
  case (unavailable s candidate t now)
  show ?case unfolding close_unavailable_update_def Let_def split_def snd_conv
    by (intro update_table_step sync_row_step.failed) simp
next
  case (finish_cancel s cl now)
  show ?case unfolding finish_cancelled_update_def Let_def split_def snd_conv
    by (intro update_table_step sync_row_step.cancelled) (auto simp: owned_def)
next
  case (advance progress s cl p cf stage phase now)
  then show ?case unfolding fenced_update_def Let_def split_def snd_conv
    by (intro update_table_step sync_row_step.advanced) (auto simp: owned_def)
next
  case (fail s cl p code retryable now)
  then show ?case unfolding fenced_update_def Let_def split_def snd_conv
    by (intro update_table_step sync_row_step.failed) (auto simp: owned_def)
next
  case (retry s cl p code delay now)
  then show ?case unfolding fenced_update_def Let_def split_def snd_conv
    by (intro update_table_step sync_row_step.retry) (auto simp: owned_def)
next
  case (heartbeat s cl now cf wall)
  show ?case by (intro update_table_step sync_row_step.heartbeat) (simp add: owned_def)
next
  case (publish status s cl response p retryable now)
  note fin = sync_state_final [OF publish]
  show ?case
  proof (cases rule: publish_transaction_cases [of cl status response p retryable now s])
    case none
    then show ?thesis by (simp add: sync.table_step_refl)
  next
    case (published error s')
    show ?thesis
      unfolding published(2) published(5)
      by (rule pointwise_table) (auto simp: owned_def intro!: sync_row_step.published fin)
  qed
next
  case (cancel s i now)
  show ?case
    using cancel_statements_rows [of i now s]
    by (auto intro!: pointwise_table
        simp: sync_row_step.queued_cancel sync_row_step.running_cancel)
next
  case (enqueue i public case_id provider start end' surfaces coverage key fingerprint m now s s')
  let ?r = "queued_sync_row i public case_id provider start end' surfaces coverage key fingerprint m now"
  from enqueue have c: "sync_checks ?r" "sy_id ?r \<notin> sy_id ` set (st_syncs s)"
    and s': "st_syncs s' = st_syncs s @ [?r]"
    by (auto simp: insert_sync_def split: if_split_asm)
  have "sy_token ?r = None" by (simp add: queued_sync_row_def)
  then show ?case
    unfolding sync.table_step_def s'
    using queued_sync_row_ok [OF c(1) enqueue(2)] c(2)
    by (intro exI [of _ id] exI [of _ "[?r]"]) auto
next
  case (elsewhere s cases evidence catalog)
  show ?case by (simp add: sync.table_step_refl)
qed

lemma sync_steps_table:
  "(sync_step A)\<^sup>*\<^sup>* s s' \<Longrightarrow> (sync.table_step A)\<^sup>*\<^sup>* (st_syncs s) (st_syncs s')"
  by (induction rule: rtranclp_induct) (auto intro: rtranclp.rtrancl_into_rtrancl sync_step_table)

section \<open>Store invariants\<close>

text \<open>Every published run has its own row, its own manifest and a stored run.\<close>

definition publications_ok :: "store \<Rightarrow> bool" where
  "publications_ok s \<longleftrightarrow>
     distinct (map mf_sync (st_manifests s)) \<and>
     mf_sync ` set (st_manifests s) = sy_id ` {r \<in> set (st_syncs s). sy_run r \<noteq> None} \<and>
     distinct (List.map_filter sy_run (st_syncs s)) \<and>
     set (List.map_filter sy_run (st_syncs s)) \<subseteq> set (st_runs s)"

definition store_ok :: "store \<Rightarrow> bool" where
  "store_ok s \<longleftrightarrow> sync.table_ok (st_syncs s) \<and> one_active_sync (st_syncs s) \<and> publications_ok s"

text \<open>Every step but a publication leaves the run columns, the manifests and the runs alone.\<close>

definition quiet_step :: "store \<Rightarrow> store \<Rightarrow> bool" where
  "quiet_step s s' \<longleftrightarrow> st_manifests s' = st_manifests s \<and> st_runs s' = st_runs s \<and>
     (\<exists>f fresh. st_syncs s' = map f (st_syncs s) @ fresh \<and>
        (\<forall>r \<in> set (st_syncs s). sy_run (f r) = sy_run r \<and> sy_id (f r) = sy_id r) \<and>
        (\<forall>r \<in> set fresh. sy_run r = None))"

lemma quiet_update:
  "(\<And>r. sy_run (f r) = sy_run r \<and> sy_id (f r) = sy_id r) \<Longrightarrow> quiet_step s (snd (update_syncs p f s))"
  unfolding quiet_step_def
  by (intro conjI exI [of _ "\<lambda>r. if p r then f r else r"] exI [of _ "[]"]) auto

lemma quiet_refl: "quiet_step s s"
  unfolding quiet_step_def by (intro conjI exI [of _ id] exI [of _ "[]"]) auto

lemma quiet_trans:
  assumes "quiet_step s1 s2" "quiet_step s2 s3"
  shows "quiet_step s1 s3"
proof -
  obtain f fs where f: "st_syncs s2 = map f (st_syncs s1) @ fs"
    "\<forall>r \<in> set (st_syncs s1). sy_run (f r) = sy_run r \<and> sy_id (f r) = sy_id r" "\<forall>r \<in> set fs. sy_run r = None"
    using assms(1) by (auto simp: quiet_step_def)
  obtain g gs where g: "st_syncs s3 = map g (st_syncs s2) @ gs"
    "\<forall>r \<in> set (st_syncs s2). sy_run (g r) = sy_run r \<and> sy_id (g r) = sy_id r" "\<forall>r \<in> set gs. sy_run r = None"
    using assms(2) by (auto simp: quiet_step_def)
  have "st_syncs s3 = map (g \<circ> f) (st_syncs s1) @ (map g fs @ gs)" by (simp add: f(1) g(1))
  moreover have "\<forall>r \<in> set (st_syncs s1). sy_run ((g \<circ> f) r) = sy_run r \<and> sy_id ((g \<circ> f) r) = sy_id r"
    using f(1,2) g(2) by auto
  moreover have "\<forall>r \<in> set (map g fs @ gs). sy_run r = None" using f(1,3) g(2,3) by auto
  ultimately show ?thesis using assms unfolding quiet_step_def by metis
qed

lemma row_run [simp]:
  "sy_run (cancelled_row n r) = sy_run r" "sy_run (failed_row c b n r) = sy_run r"
  "sy_run (recovered_row n r) = sy_run r" "sy_run (queue_exhausted_row n r) = sy_run r"
  "sy_run (claimed_row cf k n r) = sy_run r" "sy_run (advanced_row cf st ph pr n r) = sy_run r"
  "sy_run (heartbeat_row cf n w r) = sy_run r" "sy_run (retry_row c a n r) = sy_run r"
  "sy_run (queued_cancel_row n r) = sy_run r" "sy_run (running_cancel_row n r) = sy_run r"
  "sy_run (published_row stt stg ph pub err rt i n r) = Some i"
  by (simp_all add: row_defs)

lemma row_id [simp]:
  "sy_id (cancelled_row n r) = sy_id r" "sy_id (failed_row c b n r) = sy_id r"
  "sy_id (recovered_row n r) = sy_id r" "sy_id (queue_exhausted_row n r) = sy_id r"
  "sy_id (claimed_row cf k n r) = sy_id r" "sy_id (advanced_row cf st ph pr n r) = sy_id r"
  "sy_id (heartbeat_row cf n w r) = sy_id r" "sy_id (retry_row c a n r) = sy_id r"
  "sy_id (queued_cancel_row n r) = sy_id r" "sy_id (running_cancel_row n r) = sy_id r"
  "sy_id (published_row stt stg ph pub err rt i n r) = sy_id r"
  by (simp_all add: row_defs)

lemma sync_step_quiet:
  assumes "sync_step A s s'"
  obtains (quiet) "quiet_step s s'"
  | (publish) cl status response p retryable now where
      "s' = snd (publish_transaction cl status response p retryable now s)"
  using assms
proof (cases rule: sync_step.cases)
  case (recover now)
  show thesis unfolding recover recover_rows
    by (rule quiet, unfold recover recover_rows)
      (intro quiet_trans [OF _ quiet_update] quiet_update, simp_all)
next
  case (claim t cf now candidate)
  have "quiet_step s s'"
    unfolding claim claim_update_def Let_def split_def
    by (simp add: quiet_refl quiet_update)
  then show thesis by (rule quiet)
next
  case (unavailable candidate t now)
  then show thesis
    by (intro quiet) (simp add: close_unavailable_update_def Let_def split_def quiet_update)
next
  case (finish_cancel cl now)
  then show thesis
    by (intro quiet) (simp add: finish_cancelled_update_def Let_def split_def quiet_update)
next
  case (advance progress cl p cf stage phase now)
  then show thesis
    by (intro quiet) (simp add: fenced_update_def Let_def split_def quiet_update)
next
  case (fail cl p code retryable now)
  then show thesis
    by (intro quiet) (simp add: fenced_update_def Let_def split_def quiet_update)
next
  case (retry cl p code delay now)
  then show thesis
    by (intro quiet) (simp add: fenced_update_def Let_def split_def quiet_update)
next
  case (heartbeat cl now cf wall)
  then show thesis by (intro quiet) (simp add: quiet_update)
next
  case (publish status cl response p retryable now)
  then show thesis using that(2) by blast
next
  case (cancel i now)
  have "quiet_step s s'"
    unfolding cancel cancel_statements_def Let_def split_def
    by (auto intro: quiet_update quiet_trans [OF quiet_update quiet_update])
  then show thesis by (rule quiet)
next
  case (enqueue i public case_id provider start end' surfaces coverage key fingerprint m now)
  let ?r = "queued_sync_row i public case_id provider start end' surfaces coverage key fingerprint m now"
  from enqueue have "s' = s\<lparr> st_syncs := st_syncs s @ [?r] \<rparr>"
    by (auto simp: insert_sync_def split: if_split_asm)
  moreover have "sy_run ?r = None" by (simp add: queued_sync_row_def)
  ultimately have "quiet_step s s'"
    unfolding quiet_step_def by (intro conjI exI [of _ id] exI [of _ "[?r]"]) auto
  then show thesis by (rule quiet)
next
  case (elsewhere cases evidence catalog)
  have "quiet_step s s'"
    unfolding quiet_step_def elsewhere by (intro conjI exI [of _ id] exI [of _ "[]"]) auto
  then show thesis by (rule quiet)
qed

lemma map_filter_cong: "\<forall>x \<in> set xs. f (g x) = f x \<Longrightarrow> List.map_filter f (map g xs) = List.map_filter f xs"
  by (induction xs) (auto simp: map_filter_simps split: option.splits)

lemma map_filter_none: "\<forall>x \<in> set xs. f x = None \<Longrightarrow> List.map_filter f xs = []"
  by (induction xs) (auto simp: map_filter_simps)

lemma quiet_publications:
  assumes q: "quiet_step s s'" and p: "publications_ok s"
  shows "publications_ok s'"
proof -
  obtain f fresh where m: "st_manifests s' = st_manifests s" "st_runs s' = st_runs s"
    and f: "st_syncs s' = map f (st_syncs s) @ fresh"
    "\<forall>r \<in> set (st_syncs s). sy_run (f r) = sy_run r \<and> sy_id (f r) = sy_id r"
    "\<forall>r \<in> set fresh. sy_run r = None"
    using q by (auto simp: quiet_step_def)
  have "List.map_filter sy_run (st_syncs s') = List.map_filter sy_run (st_syncs s)"
    using f by (simp add: map_filter_append map_filter_cong map_filter_none)
  moreover have "sy_id ` {r \<in> set (st_syncs s'). sy_run r \<noteq> None} =
      sy_id ` {r \<in> set (st_syncs s). sy_run r \<noteq> None}"
    using f by (force simp: image_iff)
  ultimately show ?thesis using p by (simp add: publications_ok_def m)
qed

lemma new_id_fresh: "new_id ids \<notin> set ids"
proof
  assume i: "new_id ids \<in> set ids"
  then have "ids \<noteq> []" by auto
  moreover from i have "new_id ids \<le> Max (set ids)" by simp
  ultimately show False by (simp add: new_id_def)
qed

lemma filter_one: "length (filter P xs) = 1 \<Longrightarrow>
   \<exists>ys x zs. xs = ys @ x # zs \<and> P x \<and> (\<forall>y \<in> set ys \<union> set zs. \<not> P y)"
proof (induction xs)
  case (Cons a xs)
  show ?case
  proof (cases "P a")
    case True
    with Cons.prems have "filter P xs = []" by simp
    with True show ?thesis by (intro exI [of _ "[]"] exI [of _ a] exI [of _ xs]) (auto simp: filter_empty_conv)
  next
    case False
    with Cons obtain ys x zs where "xs = ys @ x # zs" "P x" "\<forall>y \<in> set ys \<union> set zs. \<not> P y" by auto
    with False show ?thesis by (intro exI [of _ "a # ys"] exI [of _ x] exI [of _ zs]) auto
  qed
qed simp

lemma publish_publications:
  assumes ok: "publications_ok s" and t: "sync.table_ok (st_syncs s)"
  shows "publications_ok (snd (publish_transaction cl status response p retryable now s))"
proof (cases rule: publish_transaction_cases [of cl status response p retryable now s])
  case none
  with ok show ?thesis by simp
next
  case (published error s')
  define P where "P = (\<lambda>r. owned cl now r \<and> sy_case r = cl_case cl \<and> sy_cancel r = None \<and> sy_run r = None)"
  define f where "f = published_row (fst (sync_state_of status)) (fst (snd (sync_state_of status)))
           (snd (snd (sync_state_of status))) p error retryable (new_id (st_runs s)) now"
  have rows: "st_syncs s' = map (\<lambda>r. if P r then f r else r) (st_syncs s)"
    using published(5) by (simp add: P_def f_def)
  obtain ys x zs where x: "st_syncs s = ys @ x # zs" "P x" "\<forall>y \<in> set ys \<union> set zs. \<not> P y"
    using filter_one [of P "st_syncs s"] published(3) by (auto simp: P_def)
  have s': "st_syncs s' = ys @ f x # zs"
    unfolding rows x(1) using x(2,3) by (auto intro: map_idI)
  have fx: "sy_run (f x) = Some (new_id (st_runs s))" "sy_id (f x) = cl_id cl" "sy_id x = cl_id cl"
    "sy_run x = None"
    using x(2) by (simp_all add: f_def P_def owned_def)
  have mf: "cl_id cl \<notin> mf_sync ` set (st_manifests s)"
    using published(4) by (simp add: publication_conflict_def)
  have runs: "List.map_filter sy_run (st_syncs s) =
      List.map_filter sy_run ys @ List.map_filter sy_run zs"
    "List.map_filter sy_run (st_syncs s') =
      List.map_filter sy_run ys @ new_id (st_runs s) # List.map_filter sy_run zs"
    unfolding x(1) s' by (simp_all add: map_filter_append map_filter_simps fx)
  have "distinct (List.map_filter sy_run (st_syncs s'))"
    "set (List.map_filter sy_run (st_syncs s')) \<subseteq> set (st_runs s')"
    using ok new_id_fresh [of "st_runs s"] unfolding publications_ok_def runs published(6) by auto
  moreover have "distinct (map mf_sync (st_manifests s'))"
    using ok mf by (simp add: publications_ok_def published(7))
  moreover have "sy_id ` {r \<in> set (st_syncs s'). sy_run r \<noteq> None} =
      insert (cl_id cl) (sy_id ` {r \<in> set (st_syncs s). sy_run r \<noteq> None})"
  proof -
    have "{r \<in> set (st_syncs s'). sy_run r \<noteq> None}
        = insert (f x) {r \<in> set ys \<union> set zs. sy_run r \<noteq> None}"
      unfolding s' using fx(1) by auto
    moreover have "{r \<in> set (st_syncs s). sy_run r \<noteq> None} = {r \<in> set ys \<union> set zs. sy_run r \<noteq> None}"
      unfolding x(1) using fx(4) by auto
    ultimately show ?thesis by (simp only: image_insert fx(2))
  qed
  moreover have "mf_sync ` set (st_manifests s') = insert (cl_id cl) (mf_sync ` set (st_manifests s))"
    by (simp add: published(7))
  ultimately show ?thesis using ok unfolding published(2) publications_ok_def by simp
qed

lemma sync_step_length:
  assumes "sync_step A s s'"
  obtains (same) "length (st_syncs s') = length (st_syncs s)" | (insert) r where "insert_sync r s = Some s'"
  using assms
proof (cases rule: sync_step.cases)
  case (recover now)
  then show thesis by (intro same) (simp add: recover_map)
next
  case (claim t cf now candidate)
  then show thesis by (intro same) (simp add: claim_update_def Let_def split_def)
next
  case (publish status cl response p retryable now)
  show thesis
  proof (cases rule: publish_transaction_cases [of cl status response p retryable now s])
    case none
    with publish show thesis by (intro same) simp
  next
    case (published error s'')
    with publish show thesis by (intro same) simp
  qed
next
  case (cancel i now)
  then show thesis using cancel_statements_rows [of i now s] by (intro same) auto
next
  case (enqueue i public case_id provider start end' surfaces coverage key fingerprint m now)
  then show thesis by (intro insert)
qed (auto intro!: same simp: close_unavailable_update_def finish_cancelled_update_def
    fenced_update_def Let_def split_def)

lemma one_active_map:
  assumes "one_active_sync rows" "\<forall>r \<in> set rows. sy_case (f r) = sy_case r \<and>
      (active_state (sy_state (f r)) \<longrightarrow> active_state (sy_state r))"
  shows "one_active_sync (map f rows)"
  using assms by (induction rows) (auto simp: one_active_sync_def split: if_splits)

lemma sync_step_one_active:
  assumes step: "sync_step A s s'" and one: "one_active_sync (st_syncs s)"
  shows "one_active_sync (st_syncs s')"
  using step
proof (cases rule: sync_step_length)
  case same
  obtain f fresh where f: "st_syncs s' = map f (st_syncs s) @ fresh"
    "\<forall>r \<in> set (st_syncs s). f r = r \<or> sync_row_step A r (f r)"
    using sync_step_table [OF step] by (auto simp: sync.table_step_def)
  with same have "fresh = []" by simp
  moreover have "\<forall>r \<in> set (st_syncs s). sy_case (f r) = sy_case r \<and>
      (active_state (sy_state (f r)) \<longrightarrow> active_state (sy_state r))"
    using f(2) sync_row_step_facts by metis
  ultimately show ?thesis using one_active_map [OF one] f(1) by simp
next
  case (insert r)
  then have "st_syncs s' = st_syncs s @ [r]"
    "\<forall>q \<in> set (st_syncs s). sy_case q = sy_case r \<longrightarrow> \<not> active_state (sy_state q)"
    by (auto simp: insert_sync_def split: if_split_asm)
  with one show ?thesis by (auto simp: one_active_sync_def)
qed

lemma sync_step_store_ok:
  assumes step: "sync_step A s s'" and ok: "store_ok s"
  shows "store_ok s'"
proof -
  have "sync.table_ok (st_syncs s')"
    using sync.table_step_ok [OF sync_step_table [OF step]] ok by (simp add: store_ok_def)
  moreover have "one_active_sync (st_syncs s')"
    using sync_step_one_active [OF step] ok by (simp add: store_ok_def)
  moreover have "publications_ok s'"
    using step
  proof (cases rule: sync_step_quiet)
    case quiet
    with ok show ?thesis by (auto simp: store_ok_def intro: quiet_publications)
  next
    case (publish cl status response p retryable now)
    with ok show ?thesis by (auto simp: store_ok_def intro: publish_publications)
  qed
  ultimately show ?thesis by (simp add: store_ok_def)
qed

lemma sync_steps_store_ok: "(sync_step A)\<^sup>*\<^sup>* s s' \<Longrightarrow> store_ok s \<Longrightarrow> store_ok s'"
  by (induction rule: rtranclp_induct) (auto intro: sync_step_store_ok)



lemma update_none:
  "\<forall>r \<in> set (st_syncs s). \<not> p r \<Longrightarrow> update_syncs p f s = (0, s)"
proof -
  assume a: "\<forall>r \<in> set (st_syncs s). \<not> p r"
  then have "fst (update_syncs p f s) = 0" by (simp add: filter_empty_conv)
  moreover have "snd (update_syncs p f s) = s"
    using a by (simp add: update_syncs_def sql_update_def) (simp add: map_idI)
  ultimately show ?thesis by (metis prod.collapse)
qed

lemma publish_fenced:
  assumes "\<forall>r \<in> set (st_syncs s). \<not> owned cl now r"
  shows "publish_transaction cl status response p retryable now s \<noteq> (Published, s') \<and>
     snd (publish_transaction cl status response p retryable now s) = s"
proof (cases rule: publish_transaction_cases [of cl status response p retryable now s])
  case none
  then show ?thesis by auto
next
  case (published error s'')
  then have "filter (\<lambda>r. owned cl now r \<and> sy_case r = cl_case cl \<and> sy_cancel r = None \<and>
      sy_run r = None) (st_syncs s) \<noteq> []" by (metis list.size(3) zero_neq_one)
  with assms show ?thesis by (auto simp: filter_empty_conv)
qed

text \<open>C4: a claim whose lease token is gone from the table is fenced for good: after any further
  transactions, provided no later claim draws its token again, none of its updates writes
  anything and it cannot publish.\<close>

theorem stale_claim_fenced:
  assumes "(sync_step A)\<^sup>*\<^sup>* s s'" "cl_token cl \<notin> A"
    and "\<forall>r \<in> set (st_syncs s). sy_id r = cl_id cl \<longrightarrow> sy_token r \<noteq> Some (cl_token cl)"
  shows "fenced_update cl p f now s' = (False, s') \<and> finish_cancelled_update cl now s' = (False, s') \<and>
     fst (publish_transaction cl status response pub retryable now s') \<noteq> Published \<and>
     snd (publish_transaction cl status response pub retryable now s') = s'"
proof -
  have "\<forall>r \<in> set (st_syncs s'). sy_id r = cl_id cl \<longrightarrow> sy_token r \<noteq> Some (cl_token cl)"
    by (rule sync.tables_fenced [OF sync_steps_table [OF assms(1)] assms(2,3)])
  then have n: "\<forall>r \<in> set (st_syncs s'). \<not> owned cl now r" by (auto simp: owned_def)
  then have "fenced_update cl p f now s' = (False, s')" "finish_cancelled_update cl now s' = (False, s')"
    unfolding fenced_update_def finish_cancelled_update_def by (simp_all add: update_none)
  then show ?thesis using publish_fenced [OF n] by (metis prod.collapse)
qed

section \<open>The worker keeps to the steps\<close>

lemma steps1: "sync_step A s s' \<Longrightarrow> (sync_step A)\<^sup>*\<^sup>* s s'" by blast

lemma keeps_recover [keeps_intros]: "keeps (sync_step A) A recover_expired"
  unfolding recover_expired_def by (intro keeps_intros steps1 sync_step.recover)

lemma keeps_unavailable [keeps_intros]: "keeps (sync_step A) A (close_unavailable_claim c t)"
  unfolding close_unavailable_claim_def by (intro keeps_intros steps1 sync_step.unavailable)

lemma keeps_finish_cancelled [keeps_intros]: "keeps (sync_step A) A (finish_cancelled cl)"
  unfolding finish_cancelled_def by (intro keeps_intros steps1 sync_step.finish_cancel)

lemma keeps_fenced:
  "(\<And>now s. sync_step A s (snd (fenced_update cl p f now s))) \<Longrightarrow> keeps (sync_step A) A (fenced cl p f)"
  unfolding fenced_def by (intro keeps_intros steps1)

lemma keeps_advance [keeps_intros]:
  "0 \<le> progress \<Longrightarrow> progress \<le> 3 \<Longrightarrow> keeps (sync_step A) A (advance cf cl stage phase progress)"
  unfolding advance_def by (intro keeps_fenced sync_step.advance)

lemma keeps_fail [keeps_intros]: "keeps (sync_step A) A (fail_without_run cl code retryable)"
  unfolding fail_without_run_def by (intro keeps_fenced sync_step.fail)

lemma keeps_retry [keeps_intros]: "keeps (sync_step A) A (schedule_retry cf cl code)"
  unfolding schedule_retry_def by (intro keeps_fenced sync_step.retry)

lemma keeps_ingestion [keeps_intros]: "keeps (sync_step A) A (advance_to_ingestion cf cl)"
  unfolding advance_to_ingestion_def by (rule keeps_advance) simp_all

lemma keeps_finalizing [keeps_intros]: "keeps (sync_step A) A (advance_to_finalizing cf cl)"
  unfolding advance_to_finalizing_def by (rule keeps_advance) simp_all

lemma keeps_read [keeps_intros]: "keeps R A (with_store (\<lambda>s. (f s, s)))"
  by (intro keeps_intros) simp

lemma keeps_read_turn [keeps_intros]: "keeps R A (transact (\<lambda>t s. (f t s, s)))"
  by (intro keeps_intros) simp

lemma keeps_heartbeat [keeps_intros]: "keeps (sync_step A) A (heartbeat cf cl)"
  unfolding heartbeat_def
  by (intro keeps_intros) (auto split: option.split intro!: keeps_intros steps1 sync_step.heartbeat)

lemma keeps_cancel_requested [keeps_intros]: "keeps (sync_step A) A (cancel_requested cl)"
  unfolding cancel_requested_def by (intro keeps_intros)

lemma keeps_loop [keeps_intros]: "keeps (sync_step A) A (heartbeat_loop cf cl n seen)"
proof (induction n arbitrary: seen)
  case (Suc n)
  then show ?case by (auto intro!: keeps_intros)
qed (simp add: keeps_return)

lemma keeps_build [keeps_intros]: "keeps (sync_step A) A (build_with_heartbeats cf ex cl)"
  unfolding build_with_heartbeats_def by (intro keeps_intros)

lemma keeps_settings [keeps_intros]: "keeps (sync_step A) A (validated_settings ex cl)"
  unfolding validated_settings_def by (intro keeps_intros)

lemma keeps_publish:
  "status \<in> {''success'', ''partial'', ''error''} \<Longrightarrow>
   keeps (sync_step A) A (publish_final_run cl status response built retryable)"
  unfolding publish_final_run_def
  by (auto split: option.split publish_result.split
      intro!: keeps_intros steps1 sync_step.publish)

lemma keeps_settle [keeps_intros]: "keeps (sync_step A) A (settle_run cf cl status response built)"
  unfolding settle_run_def by (intro keeps_intros keeps_publish) simp_all

lemma keeps_execute [keeps_intros]: "keeps (sync_step A) A (execute_claimed cf ex cl)"
  unfolding execute_claimed_def
  by (intro keeps_intros)
    (auto split: settings_outcome.split build_result.split build_outcome.split intro!: keeps_intros)

lemma keeps_claim [keeps_intros]: "keeps (sync_step A) A (claim_next cf)"
proof -
  have claim: "keeps (sync_step A) A (with_store (claim_update cf now t candidate))" if "t \<in> A" for now t candidate
    using that by (intro keeps_with_store steps1 sync_step.claim)
  show ?thesis
    unfolding claim_next_def
    by (intro keeps_bind keeps_stop keeps_if keeps_return keeps_turn)
      (auto split: option.split prod.split intro!: keeps_intros keeps_turn claim)
qed

lemma keeps_run_once [keeps_intros]: "keeps (sync_step A) A (run_once cf ex)"
  unfolding run_once_def
  by (intro keeps_intros) (auto split: sum.split option.split intro!: keeps_intros)

lemma keeps_cancel_sync [keeps_intros]: "keeps (sync_step A) A (cancel_sync owner case_public public)"
  unfolding cancel_sync_def
  by (intro keeps_intros) (auto split: option.split intro!: keeps_intros steps1 sync_step.cancel)

text \<open>C3: a worker iteration, whatever the provider returns, however the clock runs and whatever
  the others commit between its transactions, only commits the steps of the job state machine,
  and so keeps every store invariant.\<close>

theorem run_once_refines_steps:
  assumes "sched_keeps (sync_step A) A w"
  shows "(sync_step A)\<^sup>*\<^sup>* (w_store w) (w_store (snd (run_state (run_once cf ex) w))) \<and>
     (store_ok (w_store w) \<longrightarrow> store_ok (w_store (snd (run_state (run_once cf ex) w))))"
  using keeps_run_once [of A cf ex] assms sync_steps_store_ok unfolding keeps_def by blast

section \<open>A concrete store\<close>

definition sample_sync :: sync_row where
  "sample_sync = queued_sync_row 1 ''sync-1'' 7 ''tonapi'' 0 60 [''transfers''] ''unknown'' ''key'' ''print'' 3 100"

definition sample_case :: case_row where
  "sample_case = \<lparr> wc_id = 7, wc_public = ''case-7'', wc_owner = ''local'', wc_network = ''ton-mainnet'',
     wc_environment = ''live'', wc_key = ''0:0'', wc_version = ''ton_raw_address_v1'', wc_display = ''0:0'', wc_label = None, wc_note = None,
     wc_created = 0, wc_updated = 50, wc_archived = None, wc_metadata_version = 1 \<rparr>"

definition sample_store :: store where
  "sample_store = \<lparr> st_cases = [sample_case], st_syncs = [sample_sync], st_evidence = [],
     st_artifacts = (\<lambda>_ _ _. Read_Value PNone), st_runs = [],
     st_manifests = [], st_checkpoints = [], st_catalog = [], st_reports = [], st_receipts = [] \<rparr>"

definition sample_claim :: claimed_sync where
  "sample_claim = \<lparr> cl_id = 1, cl_public = ''sync-1'', cl_case = 7, cl_case_public = ''case-7'',
     cl_token = ''gone'', cl_attempt = 1, cl_max = 3, cl_network = ''ton-mainnet'',
     cl_environment = ''mainnet'', cl_key = ''k'', cl_display = ''d'' \<rparr>"

definition sample_world :: world where
  "sample_world = \<lparr> w_store = sample_store, w_turn = 0, w_sched = (\<lambda>n. \<lparr> tn_now = 200, tn_later = 200,
     tn_wall = 200, tn_fault = False, tn_env = (\<lambda>s. s), tn_stop = False, tn_token = ''drawn'' \<rparr>) \<rparr>"

definition sample_worker :: worker_config where
  "sample_worker = \<lparr> cf_lease = 30, cf_heartbeat = 10, cf_base = 5, cf_cap = 60,
     cf_digest = (\<lambda>_. 0), cf_plan_ok = (\<lambda>_. True) \<rparr>"

definition sample_external :: external where
  "sample_external = \<lparr> ex_settings = Settings_Ok, ex_ticks = 2, ex_outcome = Build_Value_Error \<rparr>"

lemma sample_rows: "st_syncs sample_store = [sample_sync]"
  by (simp add: sample_store_def)

lemma sample_store_ok: "store_ok sample_store"
  by (simp add: store_ok_def sync.table_ok_def sample_rows sample_sync_def queued_sync_row_def
      sync_row_ok_def sync_checks_def sync_progress_total_def one_active_sync_def publications_ok_def
      List.map_filter_def sample_store_def)

lemma sample_cancelled: "(sync_step A)\<^sup>*\<^sup>* sample_store (snd (cancel_statements 1 200 sample_store))"
  by (rule r_into_rtranclp) (rule sync_step.cancel)



theorem stale_claim_fenced_witness:
  "fenced_update sample_claim (\<lambda>_. True) (failed_row ''late'' False) 300
     (snd (cancel_statements 1 200 sample_store)) =
   (False, snd (cancel_statements 1 200 sample_store))"
proof -
  have "cl_token sample_claim \<notin> {}" by simp
  moreover have "\<forall>r \<in> set (st_syncs sample_store). sy_id r = cl_id sample_claim \<longrightarrow>
      sy_token r \<noteq> Some (cl_token sample_claim)"
    by (simp add: sample_rows sample_sync_def queued_sync_row_def)
  ultimately show ?thesis by (rule stale_claim_fenced [OF sample_cancelled, THEN conjunct1])
qed

theorem run_once_refines_steps_witness:
  "store_ok (w_store (snd (run_state (run_once sample_worker sample_external) sample_world)))"
proof -
  have "sched_keeps (sync_step {''drawn''}) {''drawn''} sample_world"
    by (simp add: sched_keeps_def sample_world_def)
  from run_once_refines_steps [OF this, of sample_worker sample_external] sample_store_ok show ?thesis
    by (simp add: sample_world_def)
qed

end
