(* ===== verification/Case_Sync_Progress.thy ===== *)
theory Case_Sync_Progress
  imports Case_Sync_Steps
begin

text \<open>
  What the worker of synchronization jobs achieves: recovery and claiming as functions of the
  table, the bounds of its timing, and that an undisturbed worker settles what it claims.
\<close>

section \<open>Recovery, claiming and retry delays\<close>

lemma recover_row_changed:
  "recover_row now r \<noteq> r \<longleftrightarrow>
     expired now r \<or> sy_state r = Queued \<and> sy_stage r = Stage_Retry_Wait \<and> sy_max r \<le> sy_attempts r"
proof -
  have "sy_version (recover_row now r) \<noteq> sy_version r"
    if "expired now r \<or> sy_state r = Queued \<and> sy_stage r = Stage_Retry_Wait \<and> sy_max r \<le> sy_attempts r"
    using that by (auto simp: recover_row_def row_defs expired_def)
  then show ?thesis by (metis recover_row_def)
qed

lemma count_split:
  "length (filter (\<lambda>r. P r \<and> Q r) xs) + length (filter (\<lambda>r. P r \<and> \<not> Q r) xs) = length (filter P xs)"
  by (induction xs) auto

lemma recover_not_expired: "\<not> expired now (recover_row now r)"
  by (simp add: recover_row_def)

lemma filter_map_id:
  "(\<And>r. r \<in> set xs \<Longrightarrow> P (f r) = Q r) \<Longrightarrow> length (filter P (map f xs)) = length (filter Q xs)"
  by (induction xs) auto

lemma recover_count:
  "fst (recover_statements now s) = length (filter (\<lambda>r. recover_row now r \<noteq> r) (st_syncs s))"
proof -
  let ?c = "\<lambda>r. expired now r \<and> sy_cancel r \<noteq> None"
  let ?e = "\<lambda>r. expired now r \<and> sy_cancel r = None \<and> sy_max r \<le> sy_attempts r"
  let ?q = "\<lambda>r. expired now r \<and> sy_cancel r = None \<and> sy_attempts r < sy_max r"
  let ?x = "\<lambda>r. sy_state r = Queued \<and> sy_stage r = Stage_Retry_Wait \<and> sy_max r \<le> sy_attempts r"
  let ?s1 = "snd (update_syncs ?c (cancelled_row now) s)"
  let ?s2 = "snd (update_syncs ?e (failed_row ''worker_recovery_exhausted'' True now) ?s1)"
  let ?s3 = "snd (update_syncs ?q (recovered_row now) ?s2)"
  have "fst (recover_statements now s) =
      fst (update_syncs ?c (cancelled_row now) s)
      + fst (update_syncs ?e (failed_row ''worker_recovery_exhausted'' True now) ?s1)
      + fst (update_syncs ?q (recovered_row now) ?s2)
      + fst (update_syncs ?x (queue_exhausted_row now) ?s3)"
    by (simp only: recover_statements_def split_def Let_def fst_conv snd_conv)
  also have "\<dots> = length (filter ?c (st_syncs s)) + length (filter ?e (st_syncs s))
      + length (filter ?q (st_syncs s)) + length (filter ?x (st_syncs s))"
  proof -
    have e1: "length (filter ?e (st_syncs ?s1)) = length (filter ?e (st_syncs s))"
      unfolding update_syncs_rows by (rule filter_map_id) auto
    have q2: "length (filter ?q (st_syncs ?s2)) = length (filter ?q (st_syncs s))"
      unfolding update_syncs_rows map_map by (rule filter_map_id) auto
    have x3: "length (filter ?x (st_syncs ?s3)) = length (filter ?x (st_syncs s))"
      unfolding update_syncs_rows map_map
    proof (rule filter_map_id)
      fix r
      have "expired now r \<Longrightarrow> sy_state r = Running" by (simp add: expired_def)
      then show "?x (((\<lambda>r. if ?q r then recovered_row now r else r) \<circ>
          ((\<lambda>r. if ?e r then failed_row ''worker_recovery_exhausted'' True now r else r) \<circ>
          (\<lambda>r. if ?c r then cancelled_row now r else r))) r) = ?x r"
        by (cases "expired now r"; cases "sy_cancel r"; cases "sy_max r \<le> sy_attempts r") simp_all
    qed
    show ?thesis unfolding update_syncs_rows(2) e1 q2 x3 ..
  qed
  also have "\<dots> = length (filter (\<lambda>r. recover_row now r \<noteq> r) (st_syncs s))"
    unfolding recover_row_changed
  proof (induction "st_syncs s" arbitrary: s)
    case Nil
    then show ?case by simp
  next
    case (Cons r rs)
    have "expired now r \<Longrightarrow> sy_state r = Running" by (simp add: expired_def)
    moreover have "length (filter ?c rs) + length (filter ?e rs)
      + length (filter ?q rs) + length (filter ?x rs) = length (filter (\<lambda>r. expired now r \<or> ?x r) rs)"
      using Cons.hyps(1) [of "s\<lparr> st_syncs := rs \<rparr>"] by simp
    ultimately show ?case
      unfolding Cons.hyps(2) [symmetric]
      by (cases "expired now r"; cases "sy_cancel r"; cases "sy_max r \<le> sy_attempts r") auto
  qed
  finally show ?thesis .
qed

text \<open>recovery settles exactly the rows its four statements name, each by the first statement
  that applies to it; afterwards no job holds an expired lease, and the count returned is the
  number of rows changed.\<close>

theorem recover_settles_expired:
  "st_syncs (snd (recover_statements now s)) = map (recover_row now) (st_syncs s) \<and>
   filter (expired now) (st_syncs (snd (recover_statements now s))) = [] \<and>
   fst (recover_statements now s) = length (filter (\<lambda>r. recover_row now r \<noteq> r) (st_syncs s))"
  by (simp add: recover_map recover_not_expired recover_count filter_empty_conv)

lemma precedes_irrefl_trans:
  "\<not> precedes a a" "precedes a b \<Longrightarrow> precedes b c \<Longrightarrow> precedes a c"
  "\<not> precedes a b \<Longrightarrow> \<not> precedes b a \<Longrightarrow> a = b"
  by (cases a; cases b; cases c; force)+

lemma first_claimable_first:
  "first_claimable rs = Some r \<Longrightarrow> r \<in> set rs \<and> (\<forall>q \<in> set rs. \<not> precedes (claim_order q) (claim_order r))"
proof (induction rs arbitrary: r)
  case (Cons x rs)
  show ?case
  proof (cases "first_claimable rs")
    case None
    then have "rs = []" by (cases rs) (auto split: option.splits)
    with Cons.prems None show ?thesis by (simp add: precedes_irrefl_trans)
  next
    case (Some q)
    with Cons.IH have q: "q \<in> set rs" "\<forall>y \<in> set rs. \<not> precedes (claim_order y) (claim_order q)" by auto
    show ?thesis
    proof (cases "precedes (claim_order q) (claim_order x)")
      case True
      with Some Cons.prems have "r = q" by simp
      with True q precedes_irrefl_trans show ?thesis by (metis list.set_intros(2) set_ConsD)
    next
      case False
      with Some Cons.prems have "r = x" by simp
      with False q precedes_irrefl_trans show ?thesis by (metis list.set_intros(1) set_ConsD)
    qed
  qed
qed simp

lemma first_claimable_None: "first_claimable rs = None \<longleftrightarrow> rs = []"
  by (cases rs) (auto split: option.splits)

lemma filter_id_unique:
  "distinct (map sy_id rows) \<Longrightarrow> r \<in> set rows \<Longrightarrow> P r \<Longrightarrow>
   filter (\<lambda>q. sy_id q = sy_id r \<and> P q) rows = [r]"
  by (induction rows) (auto simp: filter_empty_conv rev_image_eqI)

lemma unique_by_id:
  "distinct (map sy_id rows) \<Longrightarrow> r \<in> set rows \<Longrightarrow> q \<in> set rows \<Longrightarrow> sy_id q = sy_id r \<Longrightarrow> q = r"
  by (induction rows) (auto simp: rev_image_eqI)

lemma claim_first_due:
  assumes ok: "store_ok s" and sel: "select_candidate now s = Some i"
  shows "\<exists>r \<in> set (st_syncs s). sy_id r = i \<and> claimable now r \<and>
     (\<forall>q \<in> set (st_syncs s). claimable now q \<longrightarrow> \<not> precedes (claim_order q) (claim_order r)) \<and>
     claim_update cf now t i s = (True, s\<lparr> st_syncs :=
       map (\<lambda>q. if q = r then claimed_row cf t now r else q) (st_syncs s) \<rparr>)"
proof -
  obtain r where f: "first_claimable (filter (claimable now) (st_syncs s)) = Some r" and i: "i = sy_id r"
    using sel by (auto simp: select_candidate_def)
  from first_claimable_first [OF f] have r: "r \<in> set (st_syncs s)" "claimable now r"
    and first: "\<forall>q \<in> set (st_syncs s). claimable now q \<longrightarrow> \<not> precedes (claim_order q) (claim_order r)"
    by auto
  have d: "distinct (map sy_id (st_syncs s))" using ok by (simp add: store_ok_def sync.table_ok_def)
  have one: "filter (\<lambda>q. sy_id q = i \<and> claimable now q) (st_syncs s) = [r]"
    unfolding i by (rule filter_id_unique [where P = "claimable now", OF d r])
  have rows: "map (\<lambda>q. if sy_id q = i \<and> claimable now q then claimed_row cf t now q else q) (st_syncs s)
      = map (\<lambda>q. if q = r then claimed_row cf t now r else q) (st_syncs s)"
    using unique_by_id [OF d r(1)] r(2) by (intro map_cong) (auto simp: i)
  have "claim_update cf now t i s = (True, s\<lparr> st_syncs :=
       map (\<lambda>q. if q = r then claimed_row cf t now r else q) (st_syncs s) \<rparr>)"
    unfolding claim_update_def Let_def split_def update_syncs_rows one rows [symmetric]
    by (simp add: update_syncs_def sql_update_def)
  with r first i show ?thesis by blast
qed

text \<open>claiming takes the first due job in the order of next attempt, creation and id, gives it
  a fresh attempt under the drawn token, and touches no other row.\<close>

theorem claim_takes_first_due:
  assumes ok: "store_ok s" and sel: "select_candidate now s = Some i"
  shows "\<exists>r \<in> set (st_syncs s). sy_id r = i \<and> claimable now r \<and>
     (\<forall>q \<in> set (st_syncs s). claimable now q \<longrightarrow> \<not> precedes (claim_order q) (claim_order r)) \<and>
     claim_update cf now t i s = (True, s\<lparr> st_syncs :=
       map (\<lambda>q. if q = r then claimed_row cf t now r else q) (st_syncs s) \<rparr>)"
  by (rule claim_first_due [OF assms])

lemma make_worker_bounds:
  "let cf = make_worker s lease hb base cap digest plan_ok in
     30 \<le> cf_lease cf \<and> 2 \<le> cf_heartbeat cf \<and> 3 * cf_heartbeat cf \<le> cf_lease cf \<and>
     1 \<le> cf_base cf \<and> cf_base cf \<le> cf_cap cf"
proof -
  have "3 * (l div 3) \<le> l" "10 \<le> l div 3" if "30 \<le> l" for l :: int using that by auto
  then show ?thesis by (auto simp: make_worker_def Let_def min_def max_def)
qed

lemma retry_delay_bounds:
  assumes "1 \<le> cf_base cf" "cf_base cf \<le> cf_cap cf"
  shows "us (cf_base cf) \<le> retry_delay_us cf cl \<and> retry_delay_us cf cl \<le> us (cf_cap cf)"
  unfolding retry_delay_us_def Let_def by (rule jittered_backoff [unfolded Let_def]) (use assms in simp_all)

text \<open>whatever the settings, a worker's lease is at least 30 seconds and at least three
  heartbeats long, and every retry waits between the base and the cap.\<close>

theorem worker_timing:
  "let cf = make_worker s lease hb base cap digest plan_ok in
     30 \<le> cf_lease cf \<and> 2 \<le> cf_heartbeat cf \<and> 3 * cf_heartbeat cf \<le> cf_lease cf \<and>
     us (cf_base cf) \<le> retry_delay_us cf cl \<and> retry_delay_us cf cl \<le> us (cf_cap cf)"
  using make_worker_bounds [of s lease hb base cap digest plan_ok]
    retry_delay_bounds [of "make_worker s lease hb base cap digest plan_ok" cl]
  unfolding Let_def by blast

section \<open>A calm worker settles its job\<close>

text \<open>Nobody interferes, nobody asks the worker to stop, and its clock stays within one lease.\<close>

definition calm :: "worker_config \<Rightarrow> world \<Rightarrow> bool" where
  "calm cf w \<longleftrightarrow> (\<exists>c. \<forall>n. tn_env (w_sched w n) = (\<lambda>s. s) \<and> \<not> tn_stop (w_sched w n) \<and>
     c \<le> tn_now (w_sched w n) \<and> tn_now (w_sched w n) < c + us (cf_lease cf))"

text \<open>The claimed job is the only running one, under its token, with its lease ahead.\<close>

definition holds_job :: "worker_config \<Rightarrow> claimed_sync \<Rightarrow> world \<Rightarrow> bool" where
  "holds_job cf cl w \<longleftrightarrow> calm cf w \<and> distinct (map sy_id (st_syncs (w_store w))) \<and>
     (\<exists>r \<in> set (st_syncs (w_store w)). sy_id r = cl_id cl \<and> sy_case r = cl_case cl \<and>
        sy_state r = Running \<and>
        sy_token r = Some (cl_token cl) \<and> sy_run r = None \<and> sy_attempts r = cl_attempt cl \<and>
        sy_max r = cl_max cl \<and> (\<forall>n. later_than (sy_lease r) (tn_now (w_sched w n)))) \<and>
     (\<forall>q \<in> set (st_syncs (w_store w)). sy_state q = Running \<longrightarrow> sy_id q = cl_id cl)"

definition settled :: "worker_config \<Rightarrow> world \<Rightarrow> bool" where
  "settled cf w \<longleftrightarrow> calm cf w \<and> (\<forall>q \<in> set (st_syncs (w_store w)). sy_state q \<noteq> Running)"

lemma calm_turn: "calm cf w \<Longrightarrow> tn_env (w_sched w n) s = s \<and> \<not> tn_stop (w_sched w n)"
  by (auto simp: calm_def)

lemma calm_upd [simp]:
  "calm cf (w\<lparr> w_turn := k \<rparr>) = calm cf w" "calm cf (w\<lparr> w_store := s \<rparr>) = calm cf w"
  by (simp_all add: calm_def)

lemma calm_lease: "calm cf w \<Longrightarrow> tn_now (w_sched w n) < tn_now (w_sched w m) + us (cf_lease cf)"
  by (auto simp: calm_def) (smt (verit))

lemma triple_stop: "triple (\<lambda>w. calm cf w \<and> P (w_store w) (w_sched w)) stop_is_set
    (\<lambda>b w. \<not> b \<and> calm cf w \<and> P (w_store w) (w_sched w))"
  by (auto simp: triple_def stop_is_set_def run_next_turn State_Monad.bind_def calm_turn)

lemma holds_stop: "triple (holds_job cf cl) stop_is_set (\<lambda>b w. \<not> b \<and> holds_job cf cl w)"
  by (auto simp: triple_def stop_is_set_def run_next_turn State_Monad.bind_def calm_turn holds_job_def)

lemma holds_read: "triple (holds_job cf cl) (transact (\<lambda>t s. (f t s, s))) (\<lambda>_. holds_job cf cl)"
  by (auto simp: triple_def run_transact Let_def calm_turn holds_job_def)

text \<open>Guarded updates of the held job.\<close>

lemma update_one_rows:
  assumes "distinct (map sy_id rows)" "r \<in> set rows" "\<And>q. p q \<Longrightarrow> sy_id q = sy_id r"
  shows "map (\<lambda>q. if p q then f q else q) rows = map (\<lambda>q. if q = r \<and> p r then f r else q) rows"
    and "length (filter p rows) = (if p r then 1 else 0)"
proof -
  show "map (\<lambda>q. if p q then f q else q) rows = map (\<lambda>q. if q = r \<and> p r then f r else q) rows"
    using unique_by_id [OF assms(1,2)] assms(3) by (intro map_cong) auto
  show "length (filter p rows) = (if p r then 1 else 0)"
  proof (cases "p r")
    case True
    have "filter p rows = filter (\<lambda>q. sy_id q = sy_id r \<and> p q) rows"
      using assms(3) by (metis (no_types, lifting) filter_cong)
    also have "\<dots> = [r]" by (rule filter_id_unique [where P = p, OF assms(1,2) True])
    finally show ?thesis using True by simp
  next
    case False
    then have "\<forall>q \<in> set rows. \<not> p q" using unique_by_id [OF assms(1,2)] assms(3) by blast
    with False show ?thesis by (simp add: filter_empty_conv)
  qed
qed

lemma holds_update:
  assumes h: "holds_job cf cl w" and p: "\<And>q. p q \<Longrightarrow> sy_id q = cl_id cl"
    and s: "s' = snd (update_syncs p f (w_store w))"
  obtains r where "r \<in> set (st_syncs (w_store w))" "sy_id r = cl_id cl" "sy_case r = cl_case cl"
    "sy_state r = Running" "sy_token r = Some (cl_token cl)" "sy_run r = None"
    "sy_attempts r = cl_attempt cl" "sy_max r = cl_max cl"
    "\<And>n. owned cl (tn_now (w_sched w n)) r"
    "fst (update_syncs p f (w_store w)) = (if p r then 1 else 0)"
    "st_syncs s' = map (\<lambda>q. if q = r \<and> p r then f r else q) (st_syncs (w_store w))"
    "\<forall>q \<in> set (st_syncs (w_store w)). sy_state q = Running \<longrightarrow> q = r"
proof -
  obtain r where r: "r \<in> set (st_syncs (w_store w))" "sy_id r = cl_id cl" "sy_case r = cl_case cl"
    "sy_state r = Running" "sy_token r = Some (cl_token cl)" "sy_run r = None"
    "sy_attempts r = cl_attempt cl" "sy_max r = cl_max cl"
    "\<forall>n. later_than (sy_lease r) (tn_now (w_sched w n))"
    and d: "distinct (map sy_id (st_syncs (w_store w)))"
    and others: "\<forall>q \<in> set (st_syncs (w_store w)). sy_state q = Running \<longrightarrow> sy_id q = cl_id cl"
    using h by (auto simp: holds_job_def)
  have p': "\<And>q. p q \<Longrightarrow> sy_id q = sy_id r" using p r(2) by simp
  have "\<forall>q \<in> set (st_syncs (w_store w)). sy_state q = Running \<longrightarrow> q = r"
    using unique_by_id [OF d r(1)] others r(2) by metis
  moreover have "owned cl (tn_now (w_sched w n)) r" for n using r by (simp add: owned_def)
  ultimately show thesis
    using that [OF r(1-8)] update_one_rows(1) [where f = f, OF d r(1) p'] update_one_rows(2) [OF d r(1) p']
    unfolding s update_syncs_rows by blast
qed

lemma update_settles:
  assumes h: "holds_job cf cl w" and p: "\<And>q. p q \<Longrightarrow> sy_id q = cl_id cl"
    and one: "fst (update_syncs p f (w_store w)) = 1" and f: "\<And>r. sy_state (f r) \<noteq> Running"
    and w': "w_store w' = snd (update_syncs p f (w_store w))" "w_sched w' = w_sched w"
  shows "settled cf w'"
proof -
  show ?thesis
  proof (rule holds_update [OF h p w'(1)])
    fix r
    assume r: "fst (update_syncs p f (w_store w)) = (if p r then 1 else 0)"
      "st_syncs (w_store w') = map (\<lambda>q. if q = r \<and> p r then f r else q) (st_syncs (w_store w))"
      "\<forall>q \<in> set (st_syncs (w_store w)). sy_state q = Running \<longrightarrow> q = r"
    with one have "p r" by (simp split: if_split_asm)
    with r f have "\<forall>q \<in> set (st_syncs (w_store w')). sy_state q \<noteq> Running" by auto
    moreover have "calm cf w'" using h w'(2) by (simp add: holds_job_def calm_def)
    ultimately show ?thesis by (simp add: settled_def)
  qed
qed

lemma sample_candidate: "select_candidate 200 sample_store = Some 1"
  by (simp add: select_candidate_def sample_rows sample_sync_def queued_sync_row_def claimable_def)

theorem claim_takes_first_due_witness:
  "\<exists>r \<in> set (st_syncs sample_store). sy_id r = 1 \<and> claimable 200 r"
  using claim_takes_first_due [OF sample_store_ok sample_candidate] by blast

end
