(* ===== verification/Case_Sync_Liveness.thy ===== *)
theory Case_Sync_Liveness
  imports Case_Sync_Progress
begin


































section \<open>A whole iteration\<close>












end
