(* ===== verification/Liteclient_Config.thy ===== *)
theory Liteclient_Config
  imports Ton_Address
begin

text \<open>
  \<open>backend/services/ton_liteclient_config.py\<close>: the application-owned trust roots and the bounded
  loading and validation of the official liteserver configuration.  The HTTP exchange is an
  argument, given by what the getter returns or raises, and so is \<open>json.loads\<close>.
\<close>

section \<open>Trust roots\<close>

definition current_policy :: string where
  "current_policy = ''ton_liteserver_checkpoint_strict_2026_08_v2''"

definition legacy_policy :: string where
  "legacy_policy = ''ton_liteserver_checkpoint_2026_08_v1''"

definition max_config_bytes :: nat where "max_config_bytes = 512 * 1024"
definition max_liteservers :: nat where "max_liteservers = 64"
definition masterchain_shard :: int where "masterchain_shard = - 9223372036854775808"

text \<open>\<open>TonLiteclientConfigFailure\<close> is a code and a retryability flag.\<close>

type_synonym config_failure = "string \<times> bool"

type_synonym document = "(string \<times> pyval) list"

record profile =
  pf_network :: string
  pf_url :: string
  pf_zero :: document
  pf_checkpoint :: document
  pf_policy :: string

definition block_document :: "int \<Rightarrow> string \<Rightarrow> string \<Rightarrow> document" where
  "block_document seqno root file =
    [(''workchain'', PInt (- 1)), (''shard'', PInt masterchain_shard), (''seqno'', PInt seqno),
     (''root_hash'', PStr root), (''file_hash'', PStr file)]"

definition mainnet_profile :: profile where
  "mainnet_profile =
    \<lparr> pf_network = ''ton-mainnet'', pf_url = ''https://ton.org/global-config.json'',
      pf_zero = block_document 0
        ''17a3a92992aabea785a7a090985a265cd31f323d849da51239737e321fb05569''
        ''5e994fcf4d425c0a6ce6a792594b7173205f740a39cd56f537defd28b48a0f6e'',
      pf_checkpoint = block_document 46894135
        ''3048e69a12cf946ebc99b4cf9ca61c3ff4b3fcc88c4015763ac01204ecc1bf9f''
        ''bbdac0b4543e9141449ceb37c3c63ba6e9cc4e2c904d77f56d17e44acf1d1bed'',
      pf_policy = current_policy \<rparr>"

definition testnet_profile :: profile where
  "testnet_profile =
    \<lparr> pf_network = ''ton-testnet'', pf_url = ''https://ton.org/testnet-global.config.json'',
      pf_zero = block_document 0
        ''823f81f306ff02694f935cf5021548e3ce2b86b529812af6a12148879e95a128''
        ''67e20ac184b9e039a62667acc3f9c00f90f359a76738233379efa47604980ce8'',
      pf_checkpoint = block_document 58834988
        ''8c711614c06a513e026dd1456f2f01a3b5b412f5a99ff1b050e23e9b103231d9''
        ''898c25a4599a33bea0b442e80ec3877461eaac824b497ebbbc670f7d077925d7'',
      pf_policy = current_policy \<rparr>"

definition network_profile :: "string \<Rightarrow> config_failure + profile" where
  "network_profile net =
    (if net = ''ton-mainnet'' then Inr mainnet_profile
     else if net = ''ton-testnet'' then Inr testnet_profile
     else Inl (''liteserver_network_invalid'', False))"

definition is_current_trusted_checkpoint :: "string \<Rightarrow> string \<Rightarrow> pyval \<Rightarrow> bool" where
  "is_current_trusted_checkpoint net policy checkpoint =
    (case network_profile net of
       Inl _ \<Rightarrow> False
     | Inr p \<Rightarrow> policy = pf_policy p \<and> py_eq checkpoint (PDict (pf_checkpoint p)))"

definition is_recognized_trusted_checkpoint :: "string \<Rightarrow> string \<Rightarrow> pyval \<Rightarrow> bool" where
  "is_recognized_trusted_checkpoint net policy checkpoint =
    (case network_profile net of
       Inl _ \<Rightarrow> False
     | Inr p \<Rightarrow> (policy = pf_policy p \<or> policy = legacy_policy) \<and>
         py_eq checkpoint (PDict (pf_checkpoint p)))"

section \<open>Base64 with padding\<close>

text \<open>\<open>base64.b64encode\<close> and \<open>base64.b64decode(value, validate=True)\<close>.\<close>

fun b64_sextets :: "nat list \<Rightarrow> nat list" where
  "b64_sextets (x # y # z # rest) =
     (x div 4) # (16 * (x mod 4) + y div 16) # (4 * (y mod 16) + z div 64) # (z mod 64)
       # b64_sextets rest"
| "b64_sextets [x, y] = [x div 4, 16 * (x mod 4) + y div 16, 4 * (y mod 16)]"
| "b64_sextets [x] = [x div 4, 16 * (x mod 4)]"
| "b64_sextets [] = []"

fun b64_bytes :: "nat list \<Rightarrow> nat list" where
  "b64_bytes (a # b # c # d # rest) =
     (4 * a + b div 16) # (16 * (b mod 16) + c div 4) # (64 * (c mod 4) + d) # b64_bytes rest"
| "b64_bytes [a, b, c] = [4 * a + b div 16, 16 * (b mod 16) + c div 4]"
| "b64_bytes [a, b] = [4 * a + b div 16]"
| "b64_bytes _ = []"

definition b64_pad :: "nat \<Rightarrow> string" where
  "b64_pad n = (if n mod 3 = 1 then ''=='' else if n mod 3 = 2 then ''='' else '''')"

definition b64encode :: "nat list \<Rightarrow> string" where
  "b64encode bs = map ((!) std_alphabet) (b64_sextets bs) @ b64_pad (length bs)"

definition b64decode_padded :: "string \<Rightarrow> nat list option" where
  "b64decode_padded s =
    (let body = takeWhile (\<lambda>c. c \<noteq> CHR ''='') s; pads = dropWhile (\<lambda>c. c \<noteq> CHR ''='') s;
         k = length body mod 4 in
     if list_all (\<lambda>c. c \<in> set std_alphabet) body \<and> list_all (\<lambda>c. c = CHR ''='') pads \<and>
        length pads \<le> 2 \<and> (k = 0 \<or> k = 2 \<and> length pads = 2 \<or> k = 3 \<and> 1 \<le> length pads)
     then Some (b64_bytes (map (\<lambda>c. the (index_of std_alphabet c)) body)) else None)"

section \<open>Validation of the official configuration\<close>

definition invalid_config :: config_failure where
  "invalid_config = (''liteserver_config_invalid'', False)"

definition base64_hash :: "pyval \<Rightarrow> config_failure + string" where
  "base64_hash v =
    (case v of
       PStr s \<Rightarrow>
         if 64 < length s then Inl invalid_config
         else (case b64decode_padded s of
             None \<Rightarrow> Inl invalid_config
           | Some bs \<Rightarrow>
               if length bs \<noteq> 32 \<or> b64encode bs \<noteq> s then Inl invalid_config
               else Inr (bytes_hex bs))
     | _ \<Rightarrow> Inl invalid_config)"

definition keys_are :: "document \<Rightarrow> string list \<Rightarrow> bool" where
  "keys_are d ks \<longleftrightarrow> set (map fst d) = set ks"

definition config_block :: "pyval \<Rightarrow> bool \<Rightarrow> config_failure + document" where
  "config_block v allow_zero =
    (case v of
       PDict d \<Rightarrow>
         if \<not> keys_are d [''workchain'', ''shard'', ''seqno'', ''root_hash'', ''file_hash'']
         then Inl invalid_config
         else (case (dget d ''workchain'', dget d ''shard'', dget d ''seqno'') of
             (PInt workchain, PInt shard, PInt seqno) \<Rightarrow>
               if workchain \<noteq> - 1 \<or> shard \<noteq> masterchain_shard \<or>
                  seqno < (if allow_zero then 0 else 1) \<or> 2 ^ 31 - 1 < seqno
               then Inl invalid_config
               else bind_result (base64_hash (dget d ''root_hash'')) (\<lambda>root.
                 bind_result (base64_hash (dget d ''file_hash'')) (\<lambda>file.
                 Inr [(''workchain'', PInt workchain), (''shard'', PInt shard),
                   (''seqno'', PInt seqno), (''root_hash'', PStr root), (''file_hash'', PStr file)]))
           | _ \<Rightarrow> Inl invalid_config)
     | _ \<Rightarrow> Inl invalid_config)"

text \<open>\<open>ipaddress.IPv4Address.is_global\<close>: not shared address space, and either outside the private
  networks or one of their two exceptions.  The address is the unsigned value of the four bytes.\<close>

definition in_network :: "nat \<Rightarrow> nat \<times> nat \<Rightarrow> bool" where
  "in_network a net = (a div 2 ^ (32 - snd net) = fst net div 2 ^ (32 - snd net))"

definition ipv4 :: "nat \<Rightarrow> nat \<Rightarrow> nat \<Rightarrow> nat \<Rightarrow> nat" where
  "ipv4 a b c d = ((a * 256 + b) * 256 + c) * 256 + d"

definition private_networks :: "(nat \<times> nat) list" where
  "private_networks =
    [(ipv4 0 0 0 0, 8), (ipv4 10 0 0 0, 8), (ipv4 127 0 0 0, 8), (ipv4 169 254 0 0, 16),
     (ipv4 172 16 0 0, 12), (ipv4 192 0 0 0, 24), (ipv4 192 0 0 170, 31), (ipv4 192 0 2 0, 24),
     (ipv4 192 168 0 0, 16), (ipv4 198 18 0 0, 15), (ipv4 198 51 100 0, 24),
     (ipv4 203 0 113 0, 24), (ipv4 240 0 0 0, 4), (ipv4 255 255 255 255, 32)]"

definition is_global :: "nat \<Rightarrow> bool" where
  "is_global a \<longleftrightarrow> \<not> in_network a (ipv4 100 64 0 0, 10) \<and>
     (\<not> list_ex (in_network a) private_networks \<or> a \<in> {ipv4 192 0 0 9, ipv4 192 0 0 10})"

text \<open>\<open>struct.pack(">i", ip)\<close> read as an address.\<close>

definition address_of :: "int \<Rightarrow> nat" where
  "address_of ip = nat (ip mod 2 ^ 32)"

record liteserver =
  ls_ip :: int
  ls_port :: int
  ls_identity :: document

definition liteserver_of :: "pyval \<Rightarrow> config_failure + liteserver" where
  "liteserver_of v =
    (case v of
       PDict d \<Rightarrow>
         if \<not> {''ip'', ''port'', ''id''} \<subseteq> set (map fst d) \<or>
            \<not> set (map fst d) \<subseteq> {''ip'', ''port'', ''id'', ''provided''}
         then Inl invalid_config
         else (case (dget d ''ip'', dget d ''port'', dget d ''id'') of
             (PInt ip, PInt port, PDict identity) \<Rightarrow>
               if \<not> (- (2 ^ 31) \<le> ip \<and> ip < 2 ^ 31) \<or> \<not> (1 \<le> port \<and> port \<le> 65535) \<or>
                  \<not> keys_are identity [''@type'', ''key''] \<or>
                  dget identity ''@type'' \<noteq> PStr ''pub.ed25519''
               then Inl invalid_config
               else if \<not> is_global (address_of ip) then Inl invalid_config
               else bind_result (base64_hash (dget identity ''key'')) (\<lambda>_.
                 Inr \<lparr> ls_ip = ip, ls_port = port, ls_identity = identity \<rparr>)
           | _ \<Rightarrow> Inl invalid_config)
     | _ \<Rightarrow> Inl invalid_config)"

text \<open>\<open>bytes.fromhex\<close> of the profiles' hashes, and the document in the form of the official file.\<close>

fun hex_bytes :: "string \<Rightarrow> nat list" where
  "hex_bytes (a # b # rest) =
     (16 * the (index_of hex_digits a) + the (index_of hex_digits b)) # hex_bytes rest"
| "hex_bytes _ = []"

fun hash_text :: "pyval \<Rightarrow> string" where
  "hash_text (PStr s) = s"
| "hash_text _ = []"

definition config_form :: "document \<Rightarrow> document" where
  "config_form d =
    [(''workchain'', dget d ''workchain''), (''shard'', dget d ''shard''),
     (''seqno'', dget d ''seqno''),
     (''root_hash'', PStr (b64encode (hex_bytes (hash_text (dget d ''root_hash''))))),
     (''file_hash'', PStr (b64encode (hex_bytes (hash_text (dget d ''file_hash'')))))]"

record pinned_config =
  pc_liteservers :: "liteserver list"
  pc_init_block :: document

definition validated_and_pinned_config :: "pyval \<Rightarrow> profile \<Rightarrow> config_failure + pinned_config" where
  "validated_and_pinned_config v profile =
    (case v of
       PDict d \<Rightarrow>
         if \<not> keys_are d [''@type'', ''dht'', ''liteservers'', ''validator''] \<or>
            dget d ''@type'' \<noteq> PStr ''config.global'' then Inl invalid_config
         else (case dget d ''validator'' of
             PDict validator \<Rightarrow>
               if \<not> keys_are validator [''@type'', ''zero_state'', ''init_block'', ''hardforks''] \<or>
                  dget validator ''@type'' \<noteq> PStr ''validator.config.global'' then Inl invalid_config
               else bind_result (config_block (dget validator ''zero_state'') True) (\<lambda>zero.
                 if \<not> py_eq (PDict zero) (PDict (pf_zero profile))
                 then Inl (''liteserver_network_mismatch'', False)
                 else bind_result (config_block (dget validator ''init_block'') False) (\<lambda>_.
                   case dget validator ''hardforks'' of
                     PList hardforks \<Rightarrow>
                       if 128 < length hardforks then Inl invalid_config
                       else bind_result (each (\<lambda>b. config_block b False) hardforks) (\<lambda>_.
                         case dget d ''liteservers'' of
                           PList servers \<Rightarrow>
                             if \<not> (1 \<le> length servers \<and> length servers \<le> max_liteservers)
                             then Inl invalid_config
                             else bind_result (each liteserver_of servers) (\<lambda>safe.
                               if \<not> distinct (map (\<lambda>s. (ls_ip s, ls_port s, dget (ls_identity s) ''key'')) safe)
                               then Inl invalid_config
                               else Inr \<lparr> pc_liteservers = safe,
                                 pc_init_block = config_form (pf_checkpoint profile) \<rparr>)
                         | _ \<Rightarrow> Inl invalid_config)
                   | _ \<Rightarrow> Inl invalid_config))
           | _ \<Rightarrow> Inl invalid_config)
     | _ \<Rightarrow> Inl invalid_config)"

section \<open>Bounded loading\<close>

datatype http_error = Http_Timeout | Http_Connection | Http_Request | Http_Other

datatype chunk = Chunk "nat list" | Chunk_Not_Bytes | Chunk_Raises http_error

text \<open>The two header lookups may raise (\<open>None\<close>); \<open>or\<close> skips a falsy first value.\<close>

record http_response =
  hr_status :: int
  hr_headers :: "(pyval \<times> pyval) option"
  hr_chunks :: "chunk list"

definition content_length :: "(pyval \<times> pyval) option \<Rightarrow> config_failure + int option" where
  "content_length headers =
    (case headers of
       None \<Rightarrow> Inr None
     | Some (lower, upper) \<Rightarrow>
         let value = (if truthy lower then lower else upper) in
         if value = PNone \<or> value = PStr '''' then Inr None
         else (case int_of value of
             Inl _ \<Rightarrow> Inl invalid_config
           | Inr n \<Rightarrow> if n < 0 then Inl invalid_config else Inr (Some n)))"

definition http_failure :: "http_error \<Rightarrow> config_failure" where
  "http_failure e =
    (case e of
       Http_Timeout \<Rightarrow> (''liteserver_config_timeout'', True)
     | Http_Connection \<Rightarrow> (''liteserver_config_timeout'', True)
     | Http_Request \<Rightarrow> (''liteserver_config_unavailable'', True)
     | Http_Other \<Rightarrow> invalid_config)"

fun read_chunks :: "nat list \<Rightarrow> chunk list \<Rightarrow> config_failure + nat list" where
  "read_chunks body [] = Inr body"
| "read_chunks body (Chunk bs # rest) =
    (if max_config_bytes < length (body @ bs) then Inl (''liteserver_config_too_large'', False)
     else read_chunks (body @ bs) rest)"
| "read_chunks body (Chunk_Not_Bytes # rest) = Inl invalid_config"
| "read_chunks body (Chunk_Raises e # rest) = Inl (http_failure e)"

definition retryable_http :: "int list" where "retryable_http = [408, 425, 429]"
definition passthrough_http :: "int list" where
  "passthrough_http = retryable_http @ [500, 502, 503, 504]"

definition status_failure :: "int \<Rightarrow> config_failure" where
  "status_failure code =
    (if code \<in> set passthrough_http then ''http_'' @ show_int code
       else ''liteserver_config_unavailable'',
     code \<in> set retryable_http \<or> (500 \<le> code \<and> code \<le> 599))"

definition read_response :: "http_error + http_response \<Rightarrow> config_failure + nat list" where
  "read_response exchange =
    (case exchange of
       Inl e \<Rightarrow> Inl (http_failure e)
     | Inr r \<Rightarrow>
         if hr_status r \<noteq> 200 then Inl (status_failure (hr_status r))
         else bind_result (content_length (hr_headers r)) (\<lambda>announced.
           case announced of
             Some n \<Rightarrow> if int max_config_bytes < n then Inl (''liteserver_config_too_large'', False)
               else read_chunks [] (hr_chunks r)
           | None \<Rightarrow> read_chunks [] (hr_chunks r)))"

text \<open>\<open>json\<close> is \<open>json.loads(body.decode("utf-8"))\<close>, \<open>None\<close> when either raises; the exchange may
  depend on the requested URL.\<close>

definition load_pinned_liteclient_config ::
  "(string \<Rightarrow> http_error + http_response) \<Rightarrow> (nat list \<Rightarrow> pyval option) \<Rightarrow> string \<Rightarrow>
   config_failure + pinned_config" where
  "load_pinned_liteclient_config http json net =
    bind_result (network_profile net) (\<lambda>profile.
    bind_result (read_response (http (pf_url profile))) (\<lambda>body.
      case json body of
        None \<Rightarrow> Inl invalid_config
      | Some document \<Rightarrow> validated_and_pinned_config document profile))"

section \<open>Canonical base64\<close>

lemma b64_roundtrip: "list_all (\<lambda>b. b < 256) bs \<Longrightarrow> b64_bytes (b64_sextets bs) = bs"
proof (induction bs rule: b64_sextets.induct)
  case (1 x y z rest)
  have "4 * (x div 4) + (16 * (x mod 4) + y div 16) div 16 = x"
    and "16 * ((16 * (x mod 4) + y div 16) mod 16) + (4 * (y mod 16) + z div 64) div 4 = y"
    and "64 * ((4 * (y mod 16) + z div 64) mod 4) + z mod 64 = z"
    using "1.prems" by (auto simp: div_mult_self1 less_mult_imp_div_less)
  with 1 show ?case by simp
next
  case (2 x y)
  then show ?case by (auto simp: div_mult_self1 less_mult_imp_div_less)
qed auto

lemma b64_sextets_less: "list_all (\<lambda>b. b < 256) bs \<Longrightarrow> list_all (\<lambda>b. b < 64) (b64_sextets bs)"
  by (induction bs rule: b64_sextets.induct) auto

lemma b64_sextets_mod:
  "length (b64_sextets bs) mod 4 = (if length bs mod 3 = 0 then 0 else length bs mod 3 + 1)"
  by (induction bs rule: b64_sextets.induct) (auto simp: mod_Suc)

lemma alphabet_no_pad: "CHR ''='' \<notin> set std_alphabet"
  by (simp add: std_alphabet_def)

lemma alphabet_nth: "n < 64 \<Longrightarrow> std_alphabet ! n \<in> set std_alphabet"
  using alphabet_facts by (auto intro: nth_mem)

lemma takeWhile_pad:
  "\<forall>c \<in> set xs. P c \<Longrightarrow> \<forall>c \<in> set ys. \<not> P c \<Longrightarrow> takeWhile P (xs @ ys) = xs \<and> dropWhile P (xs @ ys) = ys"
  by (induction xs) (cases ys; auto)+

lemma b64decode_encode:
  assumes "list_all (\<lambda>b. b < 256) bs"
  shows "b64decode_padded (b64encode bs) = Some bs"
proof -
  let ?body = "map ((!) std_alphabet) (b64_sextets bs)"
  have six: "\<forall>n \<in> set (b64_sextets bs). n < 64" using b64_sextets_less [OF assms] by (simp add: list_all_iff)
  then have body: "\<forall>c \<in> set ?body. c \<in> set std_alphabet" using alphabet_nth by auto
  have split: "takeWhile (\<lambda>c. c \<noteq> CHR ''='') (b64encode bs) = ?body \<and>
      dropWhile (\<lambda>c. c \<noteq> CHR ''='') (b64encode bs) = b64_pad (length bs)"
    unfolding b64encode_def
  proof (rule takeWhile_pad)
    show "\<forall>c \<in> set ?body. c \<noteq> CHR ''=''" using body alphabet_no_pad by metis
    show "\<forall>c \<in> set (b64_pad (length bs)). \<not> c \<noteq> CHR ''=''" by (simp add: b64_pad_def)
  qed
  have decoded: "map (\<lambda>c. the (index_of std_alphabet c)) ?body = b64_sextets bs"
    using six alphabet_facts by (auto simp: index_of_nth intro!: map_idI)
  have k: "length ?body mod 4 = (if length bs mod 3 = 0 then 0 else length bs mod 3 + 1)"
    by (simp add: b64_sextets_mod)
  have r: "length bs mod 3 = 0 \<or> length bs mod 3 = 1 \<or> length bs mod 3 = 2" by linarith
  let ?pads = "b64_pad (length bs)"
  have pads: "list_all (\<lambda>c. c = CHR ''='') ?pads \<and> length ?pads \<le> 2 \<and>
      (length ?body mod 4 = 0 \<or> length ?body mod 4 = 2 \<and> length ?pads = 2 \<or>
       length ?body mod 4 = 3 \<and> 1 \<le> length ?pads)"
    unfolding k using r by (elim disjE) (simp_all add: b64_pad_def)
  have all: "list_all (\<lambda>c. c \<in> set std_alphabet) ?body" using body by (simp only: list_all_iff)
  show ?thesis
    unfolding b64decode_padded_def Let_def split [THEN conjunct1] split [THEN conjunct2] decoded
      b64_roundtrip [OF assms]
    using pads all by (simp only: simp_thms if_True)
qed

lemma b64_bytes_less:
  "list_all (\<lambda>n. n < 64) ns \<Longrightarrow> list_all (\<lambda>b. b < 256) (b64_bytes ns)"
  by (induction ns rule: b64_bytes.induct) auto

lemma b64decode_padded_less:
  assumes "b64decode_padded s = Some bs"
  shows "list_all (\<lambda>b. b < 256) bs"
proof -
  let ?body = "takeWhile (\<lambda>c. c \<noteq> CHR ''='') s"
  from assms have "list_all (\<lambda>c. c \<in> set std_alphabet) ?body"
    and bs: "bs = b64_bytes (map (\<lambda>c. the (index_of std_alphabet c)) ?body)"
    unfolding b64decode_padded_def Let_def by (simp_all split: if_splits)
  then have "list_all (\<lambda>n. n < 64) (map (\<lambda>c. the (index_of std_alphabet c)) ?body)"
    using index_of_Some [of _ std_alphabet] alphabet_facts(1) by (fastforce simp: list_all_iff)
  then show ?thesis unfolding bs by (rule b64_bytes_less)
qed

lemma b64encode_length: "length (b64encode bs) = 4 * ((length bs + 2) div 3)"
proof -
  have "length (b64_sextets bs) + length (b64_pad (length bs)) = 4 * ((length bs + 2) div 3)"
  proof (induction bs rule: b64_sextets.induct)
    case (1 x y z rest)
    have "(length (x # y # z # rest) + 2) div 3 = Suc ((length rest + 2) div 3)" by simp
    moreover have "b64_pad (length (x # y # z # rest)) = b64_pad (length rest)"
      by (simp add: b64_pad_def mod_Suc)
    ultimately show ?case using 1 by simp
  qed (simp_all add: b64_pad_def)
  then show ?thesis by (simp add: b64encode_def)
qed

lemma base64_hash_iff:
  "base64_hash v = Inr h \<longleftrightarrow>
     (\<exists>bs. v = PStr (b64encode bs) \<and> length bs = 32 \<and> list_all (\<lambda>b. b < 256) bs \<and> h = bytes_hex bs)"
proof
  assume "base64_hash v = Inr h"
  then obtain s bs where "v = PStr s" "b64decode_padded s = Some bs" "length bs = 32" "b64encode bs = s"
    "h = bytes_hex bs"
    by (auto simp: base64_hash_def split: pyval.splits if_splits option.splits)
  then show "\<exists>bs. v = PStr (b64encode bs) \<and> length bs = 32 \<and> list_all (\<lambda>b. b < 256) bs \<and> h = bytes_hex bs"
    using b64decode_padded_less by blast
next
  assume "\<exists>bs. v = PStr (b64encode bs) \<and> length bs = 32 \<and> list_all (\<lambda>b. b < 256) bs \<and> h = bytes_hex bs"
  then show "base64_hash v = Inr h"
    by (auto simp: base64_hash_def b64decode_encode b64encode_length)
qed

text \<open>a hash field is accepted exactly when it is the canonical base64 text of 32 bytes, and
  the result is their hexadecimal text.\<close>

theorem base64_hash_canonical:
  "base64_hash v = Inr h \<longleftrightarrow>
     (\<exists>bs. v = PStr (b64encode bs) \<and> length bs = 32 \<and> list_all (\<lambda>b. b < 256) bs \<and> h = bytes_hex bs)"
  by (rule base64_hash_iff)

section \<open>The pinned checkpoint\<close>

lemma hex_index: "is_lower_hex c \<Longrightarrow> \<exists>n < 16. index_of hex_digits c = Some n \<and> hex_digits ! n = c"
  by (auto simp: is_lower_hex_def hex_digits_def eval_nat_numeral)

lemma hex_bytes_spec:
  "list_all is_lower_hex h \<Longrightarrow> even (length h) \<Longrightarrow>
   bytes_hex (hex_bytes h) = h \<and> list_all (\<lambda>b. b < 256) (hex_bytes h) \<and> 2 * length (hex_bytes h) = length h"
proof (induction h rule: hex_bytes.induct)
  case (1 a b rest)
  then obtain m n where "m < 16" "index_of hex_digits a = Some m" "hex_digits ! m = a"
    "n < 16" "index_of hex_digits b = Some n" "hex_digits ! n = b"
    using hex_index by (metis list.pred_inject(2))
  with 1 show ?case by (simp add: bytes_hex_def hex_of_byte_def)
qed (auto simp: bytes_hex_def)

lemma base64_hash_form:
  "list_all is_lower_hex h \<Longrightarrow> length h = 64 \<Longrightarrow> base64_hash (PStr (b64encode (hex_bytes h))) = Inr h"
  using hex_bytes_spec [of h] base64_hash_iff by force

definition block_ok :: "bool \<Rightarrow> document \<Rightarrow> bool" where
  "block_ok z d \<longleftrightarrow> (\<exists>seqno root file. d = block_document seqno root file \<and> (if z then 0 else 1) \<le> seqno \<and> seqno \<le> 2 ^ 31 - 1 \<and>
     list_all is_lower_hex root \<and> length root = 64 \<and> list_all is_lower_hex file \<and> length file = 64)"

lemma config_form_reads:
  assumes "block_ok z d"
  shows "config_block (PDict (config_form d)) z = Inr d"
proof -
  obtain seqno root body where d: "d = block_document seqno root body" "(if z then 0 else 1) \<le> seqno" "seqno \<le> 2 ^ 31 - 1"
    and h: "list_all is_lower_hex root" "length root = 64" "list_all is_lower_hex body" "length body = 64"
    using assms by (auto simp: block_ok_def)
  have form: "config_form d = [(''workchain'', PInt (- 1)), (''shard'', PInt masterchain_shard),
      (''seqno'', PInt seqno), (''root_hash'', PStr (b64encode (hex_bytes root))),
      (''file_hash'', PStr (b64encode (hex_bytes body)))]"
    by (simp add: d(1) config_form_def block_document_def dget_def)
  show ?thesis
    using d(2,3) base64_hash_form [OF h(1,2)] base64_hash_form [OF h(3,4)]
    unfolding form by (simp add: config_block_def keys_are_def dget_def d(1) block_document_def)
qed

lemma checkpoints_ok:
  "block_ok False (pf_checkpoint mainnet_profile)" "block_ok False (pf_checkpoint testnet_profile)"
  "block_ok True (pf_zero mainnet_profile)"
  unfolding block_ok_def mainnet_profile_def testnet_profile_def profile.select_convs
  by (rule exI, rule exI, rule exI, rule conjI, rule refl, simp add: is_lower_hex_def hex_digits_def)+

lemma network_profile_Inr:
  "network_profile net = Inr p \<Longrightarrow>
   (net = ''ton-mainnet'' \<and> p = mainnet_profile) \<or> (net = ''ton-testnet'' \<and> p = testnet_profile)"
  by (auto simp: network_profile_def split: if_splits)

definition safe_server :: "liteserver \<Rightarrow> bool" where
  "safe_server s \<longleftrightarrow> is_global (address_of (ls_ip s)) \<and> 1 \<le> ls_port s \<and> ls_port s \<le> 65535 \<and>
     dget (ls_identity s) ''@type'' = PStr ''pub.ed25519'' \<and>
     (\<exists>key. base64_hash (dget (ls_identity s) ''key'') = Inr key)"

lemma liteserver_safe: "liteserver_of v = Inr s \<Longrightarrow> safe_server s"
  by (auto simp: liteserver_of_def safe_server_def bind_result_Inr split: pyval.splits if_splits)

lemma validated_Inr:
  assumes "validated_and_pinned_config v p = Inr c"
  shows "pc_init_block c = config_form (pf_checkpoint p) \<and>
     1 \<le> length (pc_liteservers c) \<and> length (pc_liteservers c) \<le> max_liteservers \<and>
     list_all safe_server (pc_liteservers c) \<and>
     distinct (map (\<lambda>s. (ls_ip s, ls_port s, dget (ls_identity s) ''key'')) (pc_liteservers c))"
proof -
  obtain servers where "each liteserver_of servers = Inr (pc_liteservers c)" "1 \<le> length servers"
    "length servers \<le> max_liteservers" "pc_init_block c = config_form (pf_checkpoint p)"
    "distinct (map (\<lambda>s. (ls_ip s, ls_port s, dget (ls_identity s) ''key'')) (pc_liteservers c))"
    using assms unfolding validated_and_pinned_config_def
    by (auto simp: bind_result_Inr split: pyval.splits if_splits)
  with each_Inr [of liteserver_of servers "pc_liteservers c"] liteserver_safe show ?thesis
    by (auto simp: list_all_iff)
qed

text \<open>C34: whatever the server answers, a configuration that is loaded carries the application's own
  checkpoint as its init block, which reads back as the profile's trusted checkpoint, and only
  distinct liteservers with a public address, a port and a 32-byte key.\<close>

theorem loaded_config_pinned:
  assumes "load_pinned_liteclient_config http json net = Inr c"
  shows "\<exists>p. network_profile net = Inr p \<and>
     config_block (PDict (pc_init_block c)) False = Inr (pf_checkpoint p) \<and>
     is_current_trusted_checkpoint net current_policy (PDict (pf_checkpoint p)) \<and>
     1 \<le> length (pc_liteservers c) \<and> length (pc_liteservers c) \<le> max_liteservers \<and>
     list_all safe_server (pc_liteservers c) \<and>
     distinct (map (\<lambda>s. (ls_ip s, ls_port s, dget (ls_identity s) ''key'')) (pc_liteservers c))"
proof -
  obtain p v where p: "network_profile net = Inr p" and v: "validated_and_pinned_config v p = Inr c"
    using assms unfolding load_pinned_liteclient_config_def
    by (auto simp: bind_result_Inr split: option.splits)
  have "block_ok False (pf_checkpoint p)" "pf_policy p = current_policy"
    using network_profile_Inr [OF p] checkpoints_ok by (auto simp: mainnet_profile_def testnet_profile_def)
  with p validated_Inr [OF v] config_form_reads show ?thesis
    by (simp add: is_current_trusted_checkpoint_def)
qed

definition sample_config :: pyval where
  "sample_config = PDict
    [(''@type'', PStr ''config.global''), (''dht'', PNone),
     (''liteservers'', PList [PDict [(''ip'', PInt 134744072), (''port'', PInt 443),
        (''id'', PDict [(''@type'', PStr ''pub.ed25519''), (''key'', PStr (b64encode (replicate 32 0)))])]]),
     (''validator'', PDict [(''@type'', PStr ''validator.config.global''),
        (''zero_state'', PDict (config_form (pf_zero mainnet_profile))),
        (''init_block'', PDict (config_form (pf_checkpoint mainnet_profile))),
        (''hardforks'', PList [])])]"

definition sample_http :: "string \<Rightarrow> http_error + http_response" where
  "sample_http url = Inr \<lparr> hr_status = 200, hr_headers = None, hr_chunks = [] \<rparr>"

lemma sample_server:
  "liteserver_of (PDict [(''ip'', PInt 134744072), (''port'', PInt 443),
     (''id'', PDict [(''@type'', PStr ''pub.ed25519''), (''key'', PStr (b64encode (replicate 32 0)))])])
   = Inr \<lparr> ls_ip = 134744072, ls_port = 443,
       ls_identity = [(''@type'', PStr ''pub.ed25519''), (''key'', PStr (b64encode (replicate 32 0)))] \<rparr>"
proof -
  have "base64_hash (PStr (b64encode (replicate 32 0))) = Inr (bytes_hex (replicate 32 0))"
    by (subst base64_hash_iff) (auto simp: list_all_iff)
  moreover have "is_global (address_of 134744072)"
    by (simp add: is_global_def address_of_def in_network_def private_networks_def ipv4_def)
  ultimately show ?thesis by (simp add: liteserver_of_def dget_def keys_are_def)
qed

lemma sample_validated:
  "validated_and_pinned_config sample_config mainnet_profile = Inr
     \<lparr> pc_liteservers = [\<lparr> ls_ip = 134744072, ls_port = 443,
       ls_identity = [(''@type'', PStr ''pub.ed25519''), (''key'', PStr (b64encode (replicate 32 0)))] \<rparr>],
       pc_init_block = config_form (pf_checkpoint mainnet_profile) \<rparr>"
  using config_form_reads [OF checkpoints_ok(1)] config_form_reads [OF checkpoints_ok(3)] sample_server
  by (simp add: validated_and_pinned_config_def sample_config_def dget_def keys_are_def
      max_liteservers_def insert_commute)

theorem loaded_config_pinned_witness:
  "config_block (PDict (config_form (pf_checkpoint mainnet_profile))) False
     = Inr (pf_checkpoint mainnet_profile)"
proof -
  have "load_pinned_liteclient_config sample_http (\<lambda>_. Some sample_config) ''ton-mainnet'' = Inr
     \<lparr> pc_liteservers = [\<lparr> ls_ip = 134744072, ls_port = 443,
       ls_identity = [(''@type'', PStr ''pub.ed25519''), (''key'', PStr (b64encode (replicate 32 0)))] \<rparr>],
       pc_init_block = config_form (pf_checkpoint mainnet_profile) \<rparr>"
    by (simp add: load_pinned_liteclient_config_def network_profile_def sample_http_def
        read_response_def content_length_def sample_validated)
  from loaded_config_pinned [OF this] show ?thesis by (auto simp: network_profile_def)
qed

section \<open>Bounded reading and error codes\<close>

lemma read_chunks_Inr:
  "read_chunks body cs = Inr out \<Longrightarrow> length body \<le> max_config_bytes \<Longrightarrow>
   length out \<le> max_config_bytes \<and>
   out = body @ concat (map (\<lambda>c. case c of Chunk bs \<Rightarrow> bs | _ \<Rightarrow> []) cs)"
  by (induction body cs rule: read_chunks.induct) (auto split: if_splits)

text \<open>a body that is read is the whole of the response and at most 512 KiB long.\<close>

theorem response_bounded:
  assumes "read_response (Inr r) = Inr body"
  shows "length body \<le> max_config_bytes \<and> hr_status r = 200 \<and>
     body = concat (map (\<lambda>c. case c of Chunk bs \<Rightarrow> bs | _ \<Rightarrow> []) (hr_chunks r))"
  using assms read_chunks_Inr [of "[]" "hr_chunks r" body]
  by (auto simp: read_response_def bind_result_Inr split: if_splits option.splits)

theorem response_bounded_witness:
  "length [1, 2, 3 :: nat] \<le> max_config_bytes"
proof -
  have "read_response (Inr \<lparr> hr_status = 200, hr_headers = Some (PStr ''3'', PNone),
      hr_chunks = [Chunk [1, 2], Chunk [3]] \<rparr>) = Inr [1, 2, 3]"
    by (simp add: read_response_def content_length_def int_of_def int_of_text_def strip_def is_space_def
        is_digit_def dec_digits_def read_nat_def digit_val_def max_config_bytes_def max_str_digits_def)
  from response_bounded [OF this, THEN conjunct1] show ?thesis .
qed

definition permanent_config_codes :: "string list" where
  "permanent_config_codes = [''liteserver_network_invalid'', ''liteserver_network_mismatch'',
     ''liteserver_config_invalid'', ''liteserver_config_too_large'']"

definition retryable_config_codes :: "string list" where
  "retryable_config_codes = ''liteserver_config_timeout'' #
     map (\<lambda>n. ''http_'' @ show_int n) passthrough_http"

definition coded :: "config_failure \<Rightarrow> bool" where
  "coded f \<longleftrightarrow> (if snd f then fst f \<in> set (''liteserver_config_unavailable'' # retryable_config_codes)
     else fst f \<in> set (''liteserver_config_unavailable'' # permanent_config_codes))"

named_theorems coded_intros

lemma coded_invalid [coded_intros]: "coded invalid_config"
  by (simp add: coded_def invalid_config_def permanent_config_codes_def)

lemma coded_hash [coded_intros]: "base64_hash v = Inl e \<Longrightarrow> coded e"
  by (auto simp: base64_hash_def coded_invalid split: pyval.splits if_splits option.splits)

lemma coded_block [coded_intros]: "config_block v z = Inl e \<Longrightarrow> coded e"
  by (auto simp: config_block_def bind_result_Inl coded_invalid intro: coded_hash
      split: pyval.splits if_splits)

lemma coded_server [coded_intros]: "liteserver_of v = Inl e \<Longrightarrow> coded e"
  by (auto simp: liteserver_of_def bind_result_Inl coded_invalid intro: coded_hash
      split: pyval.splits if_splits)

lemma coded_mismatch [coded_intros]: "coded (''liteserver_network_mismatch'', False)"
  by (simp add: coded_def permanent_config_codes_def)

lemma coded_validated: "validated_and_pinned_config v p = Inl e \<Longrightarrow> coded e"
  unfolding validated_and_pinned_config_def
  by (auto simp: bind_result_Inl dest!: each_Inl intro: coded_intros split: pyval.splits if_splits)

lemma coded_large [coded_intros]: "coded (''liteserver_config_too_large'', False)"
  by (simp add: coded_def permanent_config_codes_def)

lemma coded_http [coded_intros]: "coded (http_failure e)"
  using coded_invalid by (cases e) (auto simp: http_failure_def coded_def retryable_config_codes_def)

lemma coded_status [coded_intros]: "coded (status_failure n)"
  by (auto simp: status_failure_def coded_def retryable_config_codes_def passthrough_http_def
      retryable_http_def permanent_config_codes_def)

lemma coded_chunks: "read_chunks body cs = Inl e \<Longrightarrow> coded e"
  by (induction body cs rule: read_chunks.induct) (auto intro: coded_intros split: if_splits)

lemma coded_response: "read_response x = Inl e \<Longrightarrow> coded e"
  by (auto simp: read_response_def content_length_def Let_def bind_result_Inl
      intro: coded_intros coded_chunks split: sum.splits option.splits if_splits)

text \<open>every failure of the loading is a \<open>TonLiteclientConfigFailure\<close> with a known code, whose
  retryability is fixed by the code: an HTTP code or a timeout is retryable, an invalid network,
  configuration or size never is; only an unavailable server may be either.\<close>

theorem config_failure_codes:
  assumes "load_pinned_liteclient_config http json net = Inl (code, retryable)"
  shows "code = ''liteserver_config_unavailable'' \<or>
     (if retryable then code \<in> set retryable_config_codes else code \<in> set permanent_config_codes)"
proof -
  have "coded (code, retryable)"
    using assms unfolding load_pinned_liteclient_config_def
    by (auto simp: bind_result_Inl network_profile_def intro: coded_response coded_validated coded_invalid
        split: option.splits if_splits) (simp_all add: coded_def permanent_config_codes_def)
  then show ?thesis by (auto simp: coded_def split: if_splits)
qed

theorem config_failure_codes_witness:
  "''liteserver_config_timeout'' \<in> set retryable_config_codes"
proof -
  have "load_pinned_liteclient_config (\<lambda>_. Inl Http_Timeout) (\<lambda>_. None) ''ton-mainnet''
      = Inl (''liteserver_config_timeout'', True)"
    by (simp add: load_pinned_liteclient_config_def network_profile_def read_response_def http_failure_def)
  from config_failure_codes [OF this] show ?thesis by simp
qed

end
