(* ===== verification/Case_Evidence_Artifacts.thy ===== *)
theory Case_Evidence_Artifacts
  imports Case_Store Liteclient_Config
begin

text \<open>
  \<open>backend/services/wallet_case_evidence.py\<close>: the checks that bind a verification job to its four
  stored proof artifacts.  The readers of the artifacts are columns of the store
  (\<open>st_artifacts\<close>), the digest of a result is an argument.
\<close>

section \<open>The artifact prefix\<close>

definition coordinates :: "artifacts \<Rightarrow> bool list list" where
  "coordinates a =
    [[ac_trace a \<noteq> None, ac_trace_digest a \<noteq> None, ac_trace_done a \<noteq> None],
     [ac_boc a \<noteq> None, ac_boc_digest a \<noteq> None, ac_boc_done a \<noteq> None],
     [ac_inclusion a \<noteq> None, ac_inclusion_done a \<noteq> None],
     [ac_ledger a \<noteq> None, ac_ledger_digest a \<noteq> None, ac_ledger_done a \<noteq> None]]"

definition complete_or_absent :: "bool list \<Rightarrow> evidence_exn + bool" where
  "complete_or_absent present =
    (if list_ex id present \<and> \<not> list_all id present then Inl Stored_Conflict
     else Inr (list_all id present))"

definition expected_level :: "int \<Rightarrow> evidence_level" where
  "expected_level progress =
    (if 3 \<le> progress then Chain_Inclusion_Proven
     else if progress = 2 then Locally_Verified else Normalized)"

definition validate_artifact_prefix :: "evidence_row \<Rightarrow> evidence_exn + unit" where
  "validate_artifact_prefix r =
    bind_result (each complete_or_absent (coordinates (cv_artifacts r))) (\<lambda>completed.
      if completed \<noteq> map (\<lambda>index. index < cv_progress r) [0, 1, 2, 3] then Inl Stored_Conflict
      else if cv_level r \<noteq> expected_level (cv_progress r) then Inl Stored_Conflict
      else Inr ())"

section \<open>Inclusion provenance\<close>

record provenance =
  pv_network :: string
  pv_checkpoint :: "(string \<times> pyval) list"

definition inclusion_contract :: string where "inclusion_contract = ''ton_transaction_inclusion_v2''"

definition is_dict :: "pyval \<Rightarrow> bool" where
  "is_dict v = (case v of PDict _ \<Rightarrow> True | _ \<Rightarrow> False)"

definition get :: "pyval \<Rightarrow> string \<Rightarrow> pyval" where
  "get v k = (case v of PDict d \<Rightarrow> dget d k | _ \<Rightarrow> PNone)"

text \<open>The checks each proof of the catalog must pass.\<close>

definition proof_accepted :: "string \<Rightarrow> pyval \<Rightarrow> pyval \<Rightarrow> bool" where
  "proof_accepted net checkpoint p \<longleftrightarrow> is_dict p \<and>
     get p ''contract_version'' = PStr inclusion_contract \<and>
     get p ''evidence_contract_version'' = PStr inclusion_contract \<and>
     get p ''network'' = PStr net \<and>
     get p ''verifier_policy_id'' = PStr current_policy \<and>
     py_eq (get p ''trusted_checkpoint'') checkpoint \<and>
     py_eq (get p ''trust_level'') (PInt 0) \<and>
     get p ''block_merkle_proof_verified'' = PBool True \<and>
     get p ''canonical_block_chain_verified_at_capture'' = PBool True \<and>
     get p ''checkpoint_to_observed_head_transcript_persisted'' = PBool False \<and>
     get p ''provider_free_revalidated'' = PBool True"

text \<open>The checkpoint with its shard text read as a number; \<open>None\<close> when it is not canonical.\<close>

definition internal_checkpoint :: "(string \<times> pyval) list \<Rightarrow> (string \<times> pyval) list option" where
  "internal_checkpoint d =
    (case dget d ''shard'' of
       PStr s \<Rightarrow> (case int_of_text s of
           Inl _ \<Rightarrow> None
         | Inr n \<Rightarrow> if s \<noteq> show_int n then None
             else Some (map (\<lambda>(k, v). if k = ''shard'' then (k, PInt n) else (k, v)) d))
     | _ \<Rightarrow> None)"

text \<open>\<open>_inclusion_provenance\<close>; a proof whose network is unhashable raises \<open>TypeError\<close>.\<close>

definition inclusion_provenance ::
  "pyval \<Rightarrow> string option \<Rightarrow> evidence_exn + provenance option" where
  "inclusion_provenance v expected =
    (case (is_dict v, get v ''proofs'', get v ''trusted_checkpoint'') of
       (True, PList proofs, PDict checkpoint) \<Rightarrow>
         if get v ''contract_version'' \<noteq> PStr inclusion_contract \<or>
            get v ''verifier_policy_id'' \<noteq> PStr current_policy \<or> proofs = [] \<or>
            \<not> keys_are checkpoint [''workchain'', ''shard'', ''seqno'', ''root_hash'', ''file_hash''] \<or>
            get v ''all_transaction_bocs_included_in_blocks'' \<noteq> PBool True
         then Inr None
         else let networks = map (\<lambda>p. get p ''network'') (filter is_dict proofs) in
           if \<not> list_all hashable networks then Inl Other_Error
           else (case remdups (map py_norm networks) of
               [PStr net] \<Rightarrow>
                 if net \<notin> {''ton-mainnet'', ''ton-testnet''} \<or> (\<exists>e. expected = Some e \<and> net \<noteq> e)
                 then Inr None
                 else (case internal_checkpoint checkpoint of
                     None \<Rightarrow> Inr None
                   | Some internal \<Rightarrow>
                       if \<not> is_current_trusted_checkpoint net current_policy (PDict internal) then Inr None
                       else if \<not> list_all (proof_accepted net (PDict checkpoint)) proofs then Inr None
                       else Inr (Some \<lparr> pv_network = net, pv_checkpoint = checkpoint \<rparr>))
             | _ \<Rightarrow> Inr None)
     | _ \<Rightarrow> Inr None)"

definition canonical_inclusion_proven :: "pyval \<Rightarrow> string option \<Rightarrow> evidence_exn + bool" where
  "canonical_inclusion_proven v expected =
    bind_result (inclusion_provenance v expected) (\<lambda>p. Inr (p \<noteq> None))"

section \<open>Revalidation\<close>

record artifact_values =
  av_trace :: pyval
  av_boc :: pyval
  av_inclusion :: pyval
  av_ledger :: pyval

definition legacy_artifact_read ::
  "store \<Rightarrow> artifact_kind \<Rightarrow> int \<Rightarrow> string \<Rightarrow> evidence_exn + pyval" where
  "legacy_artifact_read s kind run hash =
    (case st_artifacts s kind run hash of
       Read_Conflict \<Rightarrow> Inl Stored_Conflict
     | Read_Raised e \<Rightarrow> Inl e
     | Read_Value v \<Rightarrow> Inr v)"

definition text_value :: "string option \<Rightarrow> pyval" where
  "text_value t = (case t of None \<Rightarrow> PNone | Some s \<Rightarrow> PStr s)"

definition binding :: "pyval \<Rightarrow> int \<Rightarrow> string option \<Rightarrow> string \<Rightarrow> evidence_exn + unit" where
  "binding v internal_id digest id_field =
    (case v of
       PNone \<Rightarrow> Inl Stored_Conflict
     | PDict d \<Rightarrow>
         if dget d id_field \<noteq> PStr (show_int internal_id) \<or>
            dget d ''evidence_digest_sha256'' \<noteq> text_value digest
         then Inl Stored_Conflict else Inr ()
     | _ \<Rightarrow> Inl Other_Error)"

text \<open>A stored artifact that the job names: read it and check the binding.\<close>

definition bound_artifact ::
  "store \<Rightarrow> artifact_kind \<Rightarrow> int \<Rightarrow> string \<Rightarrow> int option \<Rightarrow> string option \<Rightarrow> string \<Rightarrow>
   evidence_exn + pyval" where
  "bound_artifact s kind run hash internal_id digest id_field =
    (case internal_id of
       None \<Rightarrow> Inr PNone
     | Some i \<Rightarrow>
         bind_result (legacy_artifact_read s kind run hash) (\<lambda>v.
         bind_result (binding v i digest id_field) (\<lambda>_. Inr v)))"

definition bound_inclusion ::
  "store \<Rightarrow> int \<Rightarrow> string \<Rightarrow> string option \<Rightarrow> string \<Rightarrow> evidence_exn + pyval" where
  "bound_inclusion s run hash catalog net =
    (case catalog of
       None \<Rightarrow> Inr PNone
     | Some digest \<Rightarrow>
         bind_result (legacy_artifact_read s Block_Inclusion run hash) (\<lambda>v.
         case v of
           PNone \<Rightarrow> Inl Stored_Conflict
         | PDict d \<Rightarrow>
             if dget d ''catalog_digest_sha256'' \<noteq> PStr digest then Inl Stored_Conflict
             else bind_result (canonical_inclusion_proven v (Some net)) (\<lambda>ok.
               if ok then Inr v else Inl Stored_Conflict)
         | _ \<Rightarrow> Inl Other_Error))"

definition revalidated_artifacts :: "store \<Rightarrow> evidence_row \<Rightarrow> evidence_exn + artifact_values" where
  "revalidated_artifacts s r =
    bind_result (validate_artifact_prefix r) (\<lambda>_.
    let a = cv_artifacts r; sel = cv_selection r in
    case sql_find (\<lambda>q. sy_id q = sl_source_sync sel) (st_syncs s) of
      None \<Rightarrow> Inl Other_Error
    | Some source \<Rightarrow>
      (case sy_run source of
        None \<Rightarrow> Inl Stored_Conflict
      | Some run \<Rightarrow>
        bind_result (bound_artifact s Trace_Capture run (sl_hash sel) (ac_trace a) (ac_trace_digest a)
          ''capture_id'') (\<lambda>trace.
        bind_result (bound_artifact s Boc_Verification run (sl_hash sel) (ac_boc a) (ac_boc_digest a)
          ''verification_id'') (\<lambda>boc.
        bind_result (bound_inclusion s run (sl_hash sel) (ac_inclusion a) (sl_network sel)) (\<lambda>inclusion.
        bind_result (bound_artifact s Native_Ledger run (sl_hash sel) (ac_ledger a)
          (ac_ledger_digest a) ''ledger_id'') (\<lambda>ledger.
        Inr \<lparr> av_trace = trace, av_boc = boc, av_inclusion = inclusion, av_ledger = ledger \<rparr>))))))"

section \<open>Result digest and step list\<close>

text \<open>The document \<open>_result_digest\<close> hashes.\<close>

record result_content =
  rc_case :: string
  rc_snapshot :: string
  rc_activity :: string
  rc_semantics :: string
  rc_policy :: string
  rc_network :: string
  rc_account :: string
  rc_hash :: string
  rc_time :: string
  rc_level :: evidence_level
  rc_provenance :: "provenance option"
  rc_digests :: "pyval list"

definition result_content_of :: "store \<Rightarrow> evidence_row \<Rightarrow> artifact_values \<Rightarrow> evidence_exn + result_content" where
  "result_content_of s r av =
    (case (sql_find (\<lambda>c. wc_id c = cv_case r) (st_cases s),
           sql_find (\<lambda>q. sy_id q = sl_snapshot (cv_selection r)) (st_syncs s)) of
       (Some c, Some q) \<Rightarrow>
         let sel = cv_selection r in
         bind_result (inclusion_provenance (av_inclusion av) (Some (sl_network sel))) (\<lambda>p.
           Inr \<lparr> rc_case = wc_public c, rc_snapshot = sy_public q, rc_activity = sl_activity sel,
             rc_semantics = sl_semantics sel, rc_policy = sl_policy sel, rc_network = sl_network sel,
             rc_account = sl_account sel, rc_hash = sl_hash sel, rc_time = sl_time sel,
             rc_level = cv_level r, rc_provenance = p,
             rc_digests = [get (av_trace av) ''evidence_digest_sha256'',
               get (av_boc av) ''evidence_digest_sha256'', get (av_inclusion av) ''catalog_digest_sha256'',
               get (av_ledger av) ''evidence_digest_sha256''] \<rparr>)
     | _ \<Rightarrow> Inl Other_Error)"

record evidence_step_view =
  ev_code :: artifact_kind
  ev_done :: bool
  ev_level :: "evidence_level option"
  ev_digest :: "string option"
  ev_completed :: "int option"

definition step_view ::
  "artifact_kind \<times> evidence_level \<times> pyval \<times> string option \<times> int option \<Rightarrow>
   evidence_exn + evidence_step_view" where
  "step_view = (\<lambda>(code, level, artifact, digest, completed).
    let complete = (artifact \<noteq> PNone) in
    if complete \<noteq> (digest \<noteq> None \<and> completed \<noteq> None) then Inl Stored_Conflict
    else Inr \<lparr> ev_code = code, ev_done = complete, ev_level = (if complete then Some level else None),
      ev_digest = (if complete then digest else None),
      ev_completed = (if complete then completed else None) \<rparr>)"

definition step_views :: "evidence_row \<Rightarrow> artifact_values \<Rightarrow> evidence_exn + evidence_step_view list" where
  "step_views r av =
    (let a = cv_artifacts r in each step_view
      [(Trace_Capture, Normalized, av_trace av, ac_trace_digest a, ac_trace_done a),
       (Boc_Verification, Locally_Verified, av_boc av, ac_boc_digest a, ac_boc_done a),
       (Block_Inclusion, Chain_Inclusion_Proven, av_inclusion av, ac_inclusion a, ac_inclusion_done a),
       (Native_Ledger, Chain_Inclusion_Proven, av_ledger av, ac_ledger_digest a, ac_ledger_done a)])"

text \<open>The entries a published result copies from the native ledger; subscripting raises
  \<open>KeyError\<close> for a missing one.\<close>

definition entry :: "pyval \<Rightarrow> string \<Rightarrow> evidence_exn + pyval" where
  "entry v k = (case v of
       PDict d \<Rightarrow> (case map_of d k of None \<Rightarrow> Inl Other_Error | Some x \<Rightarrow> Inr x)
     | _ \<Rightarrow> Inl Other_Error)"

definition ledger_entries :: "string list" where
  "ledger_entries = [''evidence_digest_sha256'', ''activity_count'', ''incoming_nanoton'',
     ''outgoing_nanoton'', ''self_nanoton'']"

definition ledger_summary :: "pyval \<Rightarrow> evidence_exn + pyval list option" where
  "ledger_summary v =
    (if v = PNone then Inr None else bind_result (each (entry v) ledger_entries) (\<lambda>xs. Inr (Some xs)))"

text \<open>
  The evidence part of \<open>_response\<close>, after the scope checks: the steps, the provenance and, for a
  published result, its recomputed digest and the summary of its ledger.  A stored row that fails a
  check is never shown.
\<close>

record evidence_view =
  vw_steps :: "evidence_step_view list"
  vw_progress :: int
  vw_provenance :: "provenance option"
  vw_result :: "string option"
  vw_ledger :: "pyval list option"

definition evidence_response ::
  "(result_content \<Rightarrow> string) \<Rightarrow> store \<Rightarrow> evidence_row \<Rightarrow> evidence_exn + evidence_view" where
  "evidence_response digest s r =
    bind_result (validate_artifact_prefix r) (\<lambda>_.
    bind_result (revalidated_artifacts s r) (\<lambda>av.
    bind_result (step_views r av) (\<lambda>steps.
    let progress = int (length (filter ev_done steps)) in
    if progress \<noteq> cv_progress r then Inl Stored_Conflict
    else bind_result (inclusion_provenance (av_inclusion av) (Some (sl_network (cv_selection r)))) (\<lambda>p.
      if (p \<noteq> None) \<noteq> (3 \<le> progress) then Inl Stored_Conflict
      else if cv_state r \<in> {Partial, Succeeded} then
        bind_result (result_content_of s r av) (\<lambda>content.
          if cv_result r \<noteq> Some (digest content) then Inl Stored_Conflict
          else bind_result (ledger_summary (av_ledger av)) (\<lambda>ledger.
            Inr \<lparr> vw_steps = steps, vw_progress = progress, vw_provenance = p,
              vw_result = Some (digest content), vw_ledger = ledger \<rparr>))
      else Inr \<lparr> vw_steps = steps, vw_progress = progress, vw_provenance = p, vw_result = None,
        vw_ledger = None \<rparr>))))"

section \<open>The validator and the CHECK constraint\<close>

lemma complete_or_absent_Inr:
  "ps \<noteq> [] \<Longrightarrow> complete_or_absent ps = Inr b \<longleftrightarrow> (if b then list_all id ps else list_all Not ps)"
  by (cases ps) (auto simp: complete_or_absent_def list_all_iff list_ex_iff)

lemma each4:
  "each f [p, q, r, s] = Inr [a, b, c, d] \<longleftrightarrow> f p = Inr a \<and> f q = Inr b \<and> f r = Inr c \<and> f s = Inr d"
  by (auto simp: bind_result_Inr)

lemma prefix_flags:
  "(0::int) \<le> p \<and> p \<le> 4 \<and> [a, b, c, d] = map (\<lambda>index. index < p) [0, 1, 2, 3] \<longleftrightarrow>
     (p = 0 \<and> \<not> a \<and> \<not> b \<and> \<not> c \<and> \<not> d) \<or> (p = 1 \<and> a \<and> \<not> b \<and> \<not> c \<and> \<not> d) \<or>
     (p = 2 \<and> a \<and> b \<and> \<not> c \<and> \<not> d) \<or> (p = 3 \<and> a \<and> b \<and> c \<and> \<not> d) \<or> (p = 4 \<and> a \<and> b \<and> c \<and> d)"
proof -
  consider "p < 0" | "p = 0" | "p = 1" | "p = 2" | "p = 3" | "p = 4" | "4 < p" by linarith
  then show ?thesis by cases simp_all
qed

lemma validate_prefix_iff:
  "validate_artifact_prefix r = Inr () \<longleftrightarrow>
     (\<exists>t b i l. each complete_or_absent (coordinates (cv_artifacts r)) = Inr [t, b, i, l] \<and>
        [t, b, i, l] = map (\<lambda>index. index < cv_progress r) [0, 1, 2, 3] \<and>
        cv_level r = expected_level (cv_progress r))"
  by (auto simp: validate_artifact_prefix_def bind_result_Inr coordinates_def split: if_splits)

lemma prefix_valid:
  "evidence_artifact_prefix r \<longleftrightarrow>
     validate_artifact_prefix r = Inr () \<and> 0 \<le> cv_progress r \<and> cv_progress r \<le> 4"
proof -
  let ?a = "cv_artifacts r" and ?p = "cv_progress r"
  have each: "each complete_or_absent (coordinates ?a) = Inr [t, b, i, l] \<longleftrightarrow>
      (if t then ac_trace ?a \<noteq> None \<and> ac_trace_digest ?a \<noteq> None \<and> ac_trace_done ?a \<noteq> None
       else ac_trace ?a = None \<and> ac_trace_digest ?a = None \<and> ac_trace_done ?a = None) \<and>
      (if b then ac_boc ?a \<noteq> None \<and> ac_boc_digest ?a \<noteq> None \<and> ac_boc_done ?a \<noteq> None
       else ac_boc ?a = None \<and> ac_boc_digest ?a = None \<and> ac_boc_done ?a = None) \<and>
      (if i then ac_inclusion ?a \<noteq> None \<and> ac_inclusion_done ?a \<noteq> None
       else ac_inclusion ?a = None \<and> ac_inclusion_done ?a = None) \<and>
      (if l then ac_ledger ?a \<noteq> None \<and> ac_ledger_digest ?a \<noteq> None \<and> ac_ledger_done ?a \<noteq> None
       else ac_ledger ?a = None \<and> ac_ledger_digest ?a = None \<and> ac_ledger_done ?a = None)" for t b i l
    unfolding coordinates_def each4 by (simp add: complete_or_absent_Inr del: not_None_eq)
  have "validate_artifact_prefix r = Inr () \<and> 0 \<le> ?p \<and> ?p \<le> 4 \<longleftrightarrow>
      (\<exists>t b i l. each complete_or_absent (coordinates ?a) = Inr [t, b, i, l] \<and>
        cv_level r = expected_level ?p \<and>
        ((?p = 0 \<and> \<not> t \<and> \<not> b \<and> \<not> i \<and> \<not> l) \<or> (?p = 1 \<and> t \<and> \<not> b \<and> \<not> i \<and> \<not> l) \<or>
         (?p = 2 \<and> t \<and> b \<and> \<not> i \<and> \<not> l) \<or> (?p = 3 \<and> t \<and> b \<and> i \<and> \<not> l) \<or> (?p = 4 \<and> t \<and> b \<and> i \<and> l)))"
    unfolding validate_prefix_iff prefix_flags [symmetric] by (iprover)
  also have "\<dots> \<longleftrightarrow> evidence_artifact_prefix r"
    unfolding each evidence_artifact_prefix_def Let_def by (auto simp: expected_level_def)
  finally show ?thesis by simp
qed

text \<open>the validator the service runs on a loaded job accepts exactly the rows that the table's
  artifact CHECK constraint accepts, as far as the progress is within its bounds.\<close>

theorem validator_matches_check:
  "evidence_artifact_prefix r \<longleftrightarrow>
     validate_artifact_prefix r = Inr () \<and> 0 \<le> cv_progress r \<and> cv_progress r \<le> 4"
  by (rule prefix_valid)

section \<open>What a proven inclusion means\<close>

lemma provenance_Some:
  assumes "inclusion_provenance v expected = Inr (Some p)"
  obtains proofs internal where "get v ''proofs'' = PList proofs" "proofs \<noteq> []"
    "get v ''trusted_checkpoint'' = PDict (pv_checkpoint p)"
    "internal_checkpoint (pv_checkpoint p) = Some internal"
    "is_current_trusted_checkpoint (pv_network p) current_policy (PDict internal)"
    "list_all (proof_accepted (pv_network p) (PDict (pv_checkpoint p))) proofs"
    "\<forall>e. expected = Some e \<longrightarrow> pv_network p = e"
  using assms unfolding inclusion_provenance_def Let_def
  by (auto split: bool.splits pyval.splits if_splits list.splits option.splits)

text \<open>C29: a catalog counts as a proven inclusion only if it holds proofs, all of them for the
  network of the job, at trust level 0, against the application's own checkpoint of that network,
  each with a verified Merkle proof and a canonical block chain.\<close>

theorem inclusion_requires_trust:
  assumes "canonical_inclusion_proven v (Some net) = Inr True"
  shows "\<exists>proofs checkpoint internal profile. get v ''proofs'' = PList proofs \<and> proofs \<noteq> [] \<and>
     get v ''trusted_checkpoint'' = PDict checkpoint \<and>
     internal_checkpoint checkpoint = Some internal \<and> network_profile net = Inr profile \<and>
     py_eq (PDict internal) (PDict (pf_checkpoint profile)) \<and>
     list_all (\<lambda>p. get p ''network'' = PStr net \<and> py_eq (get p ''trust_level'') (PInt 0) \<and>
       py_eq (get p ''trusted_checkpoint'') (PDict checkpoint) \<and>
       get p ''block_merkle_proof_verified'' = PBool True \<and>
       get p ''canonical_block_chain_verified_at_capture'' = PBool True) proofs"
proof -
  obtain p where p: "inclusion_provenance v (Some net) = Inr (Some p)"
    using assms by (auto simp: canonical_inclusion_proven_def bind_result_Inr)
  then obtain proofs internal where q: "get v ''proofs'' = PList proofs" "proofs \<noteq> []"
    "get v ''trusted_checkpoint'' = PDict (pv_checkpoint p)"
    "internal_checkpoint (pv_checkpoint p) = Some internal"
    "is_current_trusted_checkpoint (pv_network p) current_policy (PDict internal)"
    "list_all (proof_accepted (pv_network p) (PDict (pv_checkpoint p))) proofs" "pv_network p = net"
    by (rule provenance_Some) simp
  then obtain profile where "network_profile net = Inr profile"
    "py_eq (PDict internal) (PDict (pf_checkpoint profile))"
    by (auto simp: is_current_trusted_checkpoint_def split: sum.splits)
  moreover have "list_all (\<lambda>p. get p ''network'' = PStr net \<and> py_eq (get p ''trust_level'') (PInt 0) \<and>
      py_eq (get p ''trusted_checkpoint'') (PDict (pv_checkpoint p')) \<and>
      get p ''block_merkle_proof_verified'' = PBool True \<and>
      get p ''canonical_block_chain_verified_at_capture'' = PBool True) proofs" if "p' = p" for p'
    using q(6,7) that by (simp add: list_all_iff proof_accepted_def)
  ultimately show ?thesis using q by blast
qed

section \<open>What revalidation means\<close>

lemma bound_artifact_Inr:
  "bound_artifact s kind run hash i digest name = Inr v \<Longrightarrow> i \<noteq> None \<Longrightarrow>
     v \<noteq> PNone \<and> get v ''evidence_digest_sha256'' = text_value digest"
  by (auto simp: bound_artifact_def bind_result_Inr binding_def get_def split: pyval.splits if_splits)

lemma bound_inclusion_Inr:
  "bound_inclusion s run hash (Some d) net = Inr v \<Longrightarrow>
     v \<noteq> PNone \<and> get v ''catalog_digest_sha256'' = PStr d \<and> canonical_inclusion_proven v (Some net) = Inr True"
  unfolding bound_inclusion_def option.case bind_result_Inr get_def
  by (elim exE conjE, rename_tac a, case_tac a) (auto simp: bind_result_Inr split: if_splits)

lemma revalidated_Inr:
  assumes "revalidated_artifacts s r = Inr av"
  obtains run where "validate_artifact_prefix r = Inr ()"
    "bound_artifact s Trace_Capture run (sl_hash (cv_selection r)) (ac_trace (cv_artifacts r))
       (ac_trace_digest (cv_artifacts r)) ''capture_id'' = Inr (av_trace av)"
    "bound_artifact s Boc_Verification run (sl_hash (cv_selection r)) (ac_boc (cv_artifacts r))
       (ac_boc_digest (cv_artifacts r)) ''verification_id'' = Inr (av_boc av)"
    "bound_inclusion s run (sl_hash (cv_selection r)) (ac_inclusion (cv_artifacts r))
       (sl_network (cv_selection r)) = Inr (av_inclusion av)"
    "bound_artifact s Native_Ledger run (sl_hash (cv_selection r)) (ac_ledger (cv_artifacts r))
       (ac_ledger_digest (cv_artifacts r)) ''ledger_id'' = Inr (av_ledger av)"
  using assms unfolding revalidated_artifacts_def Let_def
  by (auto simp: bind_result_Inr split: option.splits)

lemma prefix_columns:
  assumes "validate_artifact_prefix r = Inr ()"
  shows "(ac_trace (cv_artifacts r) \<noteq> None \<longleftrightarrow> 1 \<le> cv_progress r) \<and>
     (ac_boc (cv_artifacts r) \<noteq> None \<longleftrightarrow> 2 \<le> cv_progress r) \<and>
     (ac_inclusion (cv_artifacts r) \<noteq> None \<longleftrightarrow> 3 \<le> cv_progress r) \<and>
     (ac_ledger (cv_artifacts r) \<noteq> None \<longleftrightarrow> 4 \<le> cv_progress r)"
  using assms unfolding validate_prefix_iff coordinates_def each4
  by (elim exE conjE) (simp add: complete_or_absent_Inr del: not_None_eq split: if_splits)

lemma revalidation_facts:
  assumes "revalidated_artifacts s r = Inr av" "3 \<le> cv_progress r"
  shows "get (av_trace av) ''evidence_digest_sha256'' = text_value (ac_trace_digest (cv_artifacts r)) \<and>
     get (av_boc av) ''evidence_digest_sha256'' = text_value (ac_boc_digest (cv_artifacts r)) \<and>
     get (av_inclusion av) ''catalog_digest_sha256'' = text_value (ac_inclusion (cv_artifacts r)) \<and>
     canonical_inclusion_proven (av_inclusion av) (Some (sl_network (cv_selection r))) = Inr True"
proof -
  obtain run where r: "validate_artifact_prefix r = Inr ()"
    "bound_artifact s Trace_Capture run (sl_hash (cv_selection r)) (ac_trace (cv_artifacts r))
       (ac_trace_digest (cv_artifacts r)) ''capture_id'' = Inr (av_trace av)"
    "bound_artifact s Boc_Verification run (sl_hash (cv_selection r)) (ac_boc (cv_artifacts r))
       (ac_boc_digest (cv_artifacts r)) ''verification_id'' = Inr (av_boc av)"
    "bound_inclusion s run (sl_hash (cv_selection r)) (ac_inclusion (cv_artifacts r))
       (sl_network (cv_selection r)) = Inr (av_inclusion av)"
    using revalidated_Inr [OF assms(1)] by blast
  from prefix_columns [OF r(1)] assms(2)
  have "ac_trace (cv_artifacts r) \<noteq> None" "ac_boc (cv_artifacts r) \<noteq> None" and
    "ac_inclusion (cv_artifacts r) \<noteq> None" by auto
  with r bound_artifact_Inr [OF r(2)] bound_artifact_Inr [OF r(3)] show ?thesis
    using bound_inclusion_Inr by (auto simp: text_value_def)
qed

text \<open>C33: artifacts that revalidate carry the digests the job row records, and from the third
  stage on their inclusion is proven for the network of the job.\<close>

theorem revalidation_sound:
  assumes "revalidated_artifacts s r = Inr av" "3 \<le> cv_progress r"
  shows "get (av_trace av) ''evidence_digest_sha256'' = text_value (ac_trace_digest (cv_artifacts r)) \<and>
     get (av_boc av) ''evidence_digest_sha256'' = text_value (ac_boc_digest (cv_artifacts r)) \<and>
     get (av_inclusion av) ''catalog_digest_sha256'' = text_value (ac_inclusion (cv_artifacts r)) \<and>
     canonical_inclusion_proven (av_inclusion av) (Some (sl_network (cv_selection r))) = Inr True"
  by (rule revalidation_facts [OF assms])

section \<open>A proven sample\<close>

definition sample_checkpoint :: "(string \<times> pyval) list" where
  "sample_checkpoint =
    [(''workchain'', PInt (- 1)), (''shard'', PStr ''-9223372036854775808''), (''seqno'', PInt 46894135),
     (''root_hash'', PStr ''3048e69a12cf946ebc99b4cf9ca61c3ff4b3fcc88c4015763ac01204ecc1bf9f''),
     (''file_hash'', PStr ''bbdac0b4543e9141449ceb37c3c63ba6e9cc4e2c904d77f56d17e44acf1d1bed'')]"

definition sample_proof :: pyval where
  "sample_proof = PDict
    [(''contract_version'', PStr inclusion_contract), (''evidence_contract_version'', PStr inclusion_contract),
     (''network'', PStr ''ton-mainnet''), (''verifier_policy_id'', PStr current_policy),
     (''trusted_checkpoint'', PDict sample_checkpoint), (''trust_level'', PInt 0),
     (''block_merkle_proof_verified'', PBool True),
     (''canonical_block_chain_verified_at_capture'', PBool True),
     (''checkpoint_to_observed_head_transcript_persisted'', PBool False),
     (''provider_free_revalidated'', PBool True)]"

definition sample_catalog :: pyval where
  "sample_catalog = PDict
    [(''contract_version'', PStr inclusion_contract), (''verifier_policy_id'', PStr current_policy),
     (''proofs'', PList [sample_proof]), (''trusted_checkpoint'', PDict sample_checkpoint),
     (''all_transaction_bocs_included_in_blocks'', PBool True), (''catalog_digest_sha256'', PStr ''cd'')]"

lemma sample_shard_shown: "show_int masterchain_shard = ''-9223372036854775808''"
  by (simp add: masterchain_shard_def show_int_def show_nat.simps digit_char_def dec_digits_def)

lemma sample_shard_read: "int_of_text ''-9223372036854775808'' = Inr masterchain_shard"
  by (simp add: int_of_text_def strip_def is_space_def is_digit_def dec_digits_def read_nat_def
      digit_val_def max_str_digits_def masterchain_shard_def)

lemma sample_internal: "internal_checkpoint sample_checkpoint = Some (pf_checkpoint mainnet_profile)"
  by (simp add: internal_checkpoint_def sample_checkpoint_def dget_def sample_shard_read sample_shard_shown
      mainnet_profile_def block_document_def)

lemma sample_trusted: "is_current_trusted_checkpoint ''ton-mainnet'' current_policy (PDict (pf_checkpoint mainnet_profile))"
  by (simp add: is_current_trusted_checkpoint_def network_profile_def mainnet_profile_def)

lemma sample_get:
  "get sample_catalog ''proofs'' = PList [sample_proof]"
  "get sample_catalog ''trusted_checkpoint'' = PDict sample_checkpoint"
  "get sample_catalog ''contract_version'' = PStr inclusion_contract"
  "get sample_catalog ''verifier_policy_id'' = PStr current_policy"
  "get sample_catalog ''all_transaction_bocs_included_in_blocks'' = PBool True"
  "get sample_catalog ''catalog_digest_sha256'' = PStr ''cd''" "is_dict sample_catalog"
  "get sample_proof ''network'' = PStr ''ton-mainnet''" "is_dict sample_proof"
  by (simp_all add: get_def sample_catalog_def sample_proof_def dget_def is_dict_def)

lemma sample_accepted: "proof_accepted ''ton-mainnet'' (PDict sample_checkpoint) sample_proof"
  by (simp add: proof_accepted_def get_def sample_proof_def dget_def is_dict_def)

lemma sample_keys:
  "keys_are sample_checkpoint [''workchain'', ''shard'', ''seqno'', ''root_hash'', ''file_hash'']"
  by (simp add: keys_are_def sample_checkpoint_def insert_commute)

lemma sample_proven: "canonical_inclusion_proven sample_catalog (Some ''ton-mainnet'') = Inr True"
  by (simp add: canonical_inclusion_proven_def inclusion_provenance_def sample_get sample_keys
      sample_internal sample_trusted sample_accepted)

theorem inclusion_requires_trust_witness:
  "\<exists>profile. network_profile ''ton-mainnet'' = Inr profile \<and>
     py_eq (PDict (pf_checkpoint mainnet_profile)) (PDict (pf_checkpoint profile))"
  using inclusion_requires_trust [OF sample_proven] sample_internal sample_get(2) by auto

definition sample_selection :: selection where
  "sample_selection = \<lparr> sl_snapshot = 1, sl_source_sync = 1, sl_transaction = 5, sl_activity = ''act'',
     sl_semantics = ''fp'', sl_policy = ''transaction_inclusion_v1'', sl_provider = ''tonapi'',
     sl_network = ''ton-mainnet'', sl_account = ''0:0'', sl_hash = ''ab'', sl_time = ''7'' \<rparr>"

definition sample_job :: evidence_row where
  "sample_job = \<lparr> cv_id = 1, cv_public = ''job-1'', cv_case = 7, cv_selection = sample_selection,
     cv_state = Running, cv_stage = Stage_Proving_Inclusion, cv_progress = 3, cv_version = 5,
     cv_level = Chain_Inclusion_Proven, cv_idempotency = ''key'', cv_fingerprint = ''print'',
     cv_attempts = 1, cv_max = 4, cv_next = None, cv_cancel = None, cv_token = Some ''t'',
     cv_lease = Some 500, cv_heartbeat = Some 400, cv_checkpoint = (''artifact_3_bound'', False),
     cv_artifacts = \<lparr> ac_trace = Some 11, ac_trace_digest = Some ''td'', ac_trace_done = Some 300,
       ac_boc = Some 12, ac_boc_digest = Some ''bd'', ac_boc_done = Some 310,
       ac_inclusion = Some ''cd'', ac_inclusion_done = Some 320,
       ac_ledger = None, ac_ledger_digest = None, ac_ledger_done = None \<rparr>,
     cv_result = None, cv_error = None, cv_created = 100, cv_updated = 400, cv_started = Some 200,
     cv_completed = None \<rparr>"

definition published_sync :: sync_row where
  "published_sync = \<lparr> sy_id = 1, sy_public = ''sync-1'', sy_case = 7, sy_run = Some 9,
     sy_provider = ''tonapi'', sy_start = 0, sy_end = 60, sy_surfaces = [], sy_state = Succeeded, sy_stage = Stage_Completed,
     sy_progress = 3, sy_total = Some 3, sy_coverage = '''', sy_result = '''', sy_error = None,
     sy_created = 0, sy_updated = 90, sy_started = Some 10, sy_completed = Some 90, sy_version = 4,
     sy_idempotency = None, sy_fingerprint = None, sy_attempts = 1, sy_max = 4, sy_next = None,
     sy_cancel = None, sy_token = None, sy_lease = None, sy_heartbeat = Some 90,
     sy_checkpoint = (''completed'', False) \<rparr>"

fun sample_artifacts :: "artifact_kind \<Rightarrow> int \<Rightarrow> string \<Rightarrow> artifact_read" where
  "sample_artifacts Trace_Capture run hash = Read_Value (PDict
     [(''capture_id'', PStr ''11''), (''evidence_digest_sha256'', PStr ''td'')])"
| "sample_artifacts Boc_Verification run hash = Read_Value (PDict
     [(''verification_id'', PStr ''12''), (''evidence_digest_sha256'', PStr ''bd'')])"
| "sample_artifacts Block_Inclusion run hash = Read_Value sample_catalog"
| "sample_artifacts Native_Ledger run hash = Read_Value PNone"

definition proven_store :: store where
  "proven_store = \<lparr> st_cases = [], st_syncs = [published_sync], st_evidence = [sample_job],
     st_artifacts = sample_artifacts, st_runs = [9], st_manifests = [], st_checkpoints = [],
     st_catalog = [], st_reports = [], st_receipts = [] \<rparr>"

lemma sample_numbers: "show_int 11 = ''11''" "show_int 12 = ''12''"
  by (simp_all add: show_int_def show_nat.simps digit_char_def dec_digits_def)

lemma get_dict: "get (PDict d) k = dget d k"
  by (simp add: get_def)

lemma sample_catalog_dict: "sample_catalog = PDict d \<Longrightarrow> dget d ''catalog_digest_sha256'' = PStr ''cd''"
  using sample_get(6) get_dict by metis

lemma sample_revalidates:
  "revalidated_artifacts proven_store sample_job = Inr
     \<lparr> av_trace = PDict [(''capture_id'', PStr ''11''), (''evidence_digest_sha256'', PStr ''td'')],
       av_boc = PDict [(''verification_id'', PStr ''12''), (''evidence_digest_sha256'', PStr ''bd'')],
       av_inclusion = sample_catalog, av_ledger = PNone \<rparr>"
proof -
  have "validate_artifact_prefix sample_job = Inr ()"
    by (simp add: validate_artifact_prefix_def sample_job_def coordinates_def complete_or_absent_def
        expected_level_def)
  moreover have "bound_inclusion proven_store 9 ''ab'' (Some ''cd'') ''ton-mainnet'' = Inr sample_catalog"
    using sample_proven sample_catalog_dict
    by (auto simp: bound_inclusion_def legacy_artifact_read_def proven_store_def sample_catalog_def)
  ultimately show ?thesis
    by (simp add: revalidated_artifacts_def sample_job_def sample_selection_def proven_store_def
        published_sync_def sql_find_def bound_artifact_def legacy_artifact_read_def binding_def
        text_value_def dget_def sample_numbers)
qed

theorem revalidation_sound_witness:
  "get sample_catalog ''catalog_digest_sha256'' = text_value (Some ''cd'')"
  using revalidation_sound [OF sample_revalidates] by (simp add: sample_job_def)

end
