(* ===== verification/Case_Evidence_Jobs.thy ===== *)
theory Case_Evidence_Jobs
  imports Case_Evidence_Artifacts Case_Sync_Jobs
begin

text \<open>
  \<open>backend/services/case_evidence_jobs.py\<close>: the worker that captures, verifies, proves and
  derives the four proof artifacts of one pinned transaction, stage by stage.

  A session of the worker, up to its commit, is one transaction: a function on the store at one
  turn, which the database may refuse (\<open>tn_fault\<close>).  A program returns an exception or a value.
  The proof operations run outside: how many heartbeat intervals they outlive, and what they
  return or raise, is an argument; what they store changes the store between the turns.
\<close>

section \<open>Programs that raise\<close>

type_synonym 'a attempt = "(evidence_exn + 'a) prog"

definition raise :: "evidence_exn \<Rightarrow> 'a attempt" where "raise e = State_Monad.return (Inl e)"
definition yield :: "'a \<Rightarrow> 'a attempt" where "yield a = State_Monad.return (Inr a)"

definition seq :: "'a attempt \<Rightarrow> ('a \<Rightarrow> 'b attempt) \<Rightarrow> 'b attempt" where
  "seq p q = State_Monad.bind p (\<lambda>r. case r of Inl e \<Rightarrow> raise e | Inr a \<Rightarrow> q a)"

text \<open>\<open>try p except e: h e else: q\<close>.\<close>

definition handle :: "'a attempt \<Rightarrow> (evidence_exn \<Rightarrow> 'b attempt) \<Rightarrow> ('a \<Rightarrow> 'b attempt) \<Rightarrow> 'b attempt" where
  "handle p h q = State_Monad.bind p (\<lambda>r. case r of Inl e \<Rightarrow> h e | Inr a \<Rightarrow> q a)"

definition session :: "(turn \<Rightarrow> store \<Rightarrow> (evidence_exn + 'a) \<times> store) \<Rightarrow> 'a attempt" where
  "session f = transact (\<lambda>t s. if tn_fault t then (Inl Storage_Error, s) else f t s)"

definition stopped :: "bool attempt" where
  "stopped = State_Monad.bind stop_is_set yield"

text \<open>\<open>self._now()\<close> outside a session.\<close>

definition clock :: "int attempt" where
  "clock = State_Monad.bind next_turn (\<lambda>t. yield (tn_now t))"

section \<open>Configuration\<close>

record evidence_config =
  ec_lease :: int
  ec_heartbeat :: int
  ec_base :: int
  ec_cap :: int
  ec_digest :: "string \<Rightarrow> nat"
  ec_result :: "result_content \<Rightarrow> string"

definition make_evidence_worker ::
  "job_settings \<Rightarrow> int option \<Rightarrow> int option \<Rightarrow> int option \<Rightarrow> int option \<Rightarrow>
   (string \<Rightarrow> nat) \<Rightarrow> (result_content \<Rightarrow> string) \<Rightarrow> evidence_config" where
  "make_evidence_worker s lease beat base cap digest result =
    (let l = max 30 (or_default lease (js_lease s));
         h = max 2 (or_default beat (js_heartbeat s));
         b = max 1 (or_default base (js_retry_base s)) in
     \<lparr> ec_lease = l, ec_heartbeat = min h (max 2 (l div 3)), ec_base = b,
       ec_cap = max b (or_default cap (js_retry_cap s)), ec_digest = digest, ec_result = result \<rparr>)"

section \<open>Error classification\<close>

definition retryable_provider_codes :: "string list" where
  "retryable_provider_codes =
    [''provider_error'', ''provider_network_error'', ''provider_timeout'', ''provider_rate_limited'',
     ''provider_unavailable'', ''http_429'', ''http_408'', ''http_425'', ''http_500'', ''http_502'',
     ''http_503'', ''http_504'']"

definition permanent_provider_codes :: "string list" where
  "permanent_provider_codes =
    [''protocol_error'', ''provider_protocol_error'', ''provider_not_configured'',
     ''invalid_request'', ''scope_mismatch'']"

text \<open>\<open>str.isdigit\<close> and \<open>str.islower\<close> of a Latin-1 character: superscripts are digits that
  \<open>int\<close> refuses.\<close>

definition is_digit_char :: "char \<Rightarrow> bool" where
  "is_digit_char c \<longleftrightarrow> is_digit c \<or> (of_char c :: nat) \<in> {178, 179, 185}"

definition is_lower_char :: "char \<Rightarrow> bool" where
  "is_lower_char c \<longleftrightarrow> (let n = of_char c :: nat in
     (97 \<le> n \<and> n \<le> 122) \<or> n \<in> {170, 181, 186} \<or> (223 \<le> n \<and> n \<le> 246) \<or> (248 \<le> n \<and> n \<le> 255))"

text \<open>The status of a code \<open>http_<digits>\<close>; \<open>int\<close> may raise \<open>ValueError\<close>.\<close>

definition http_status :: "string \<Rightarrow> (evidence_exn + int) option" where
  "http_status code =
    (if take 5 code = ''http_'' \<and> drop 5 code \<noteq> [] \<and> list_all is_digit_char (drop 5 code)
     then Some (case int_of_text (drop 5 code) of Inl _ \<Rightarrow> Inl Other_Error | Inr n \<Rightarrow> Inr n)
     else None)"

definition provider_error_code :: "string \<Rightarrow> evidence_exn + string" where
  "provider_error_code code =
    (if code \<in> set retryable_provider_codes \<union> set permanent_provider_codes then Inr code
     else case http_status code of
         None \<Rightarrow> Inr ''provider_error''
       | Some r \<Rightarrow> bind_result r (\<lambda>n. if 400 \<le> n \<and> n \<le> 599 then Inr code else Inr ''provider_error''))"

definition is_retryable_provider_code :: "string \<Rightarrow> evidence_exn + bool" where
  "is_retryable_provider_code code =
    (if code \<in> set permanent_provider_codes then Inr False
     else case http_status code of
         Some r \<Rightarrow> bind_result r (\<lambda>n. Inr (n \<in> {408, 425, 429} \<or> (500 \<le> n \<and> n \<le> 599)))
       | None \<Rightarrow> Inr (code \<in> set retryable_provider_codes))"

definition is_retryable :: "evidence_exn \<Rightarrow> evidence_exn + bool" where
  "is_retryable e =
    (case e of
       Provider_Failure code \<Rightarrow> bind_result (provider_error_code code) is_retryable_provider_code
     | Inclusion_Failure code retryable \<Rightarrow> Inr retryable
     | Operation_Failure \<Rightarrow> Inr True
     | Storage_Error \<Rightarrow> Inr True
     | _ \<Rightarrow> Inr False)"

definition error_code :: "evidence_exn \<Rightarrow> string \<Rightarrow> evidence_exn + string" where
  "error_code e fallback =
    (case e of
       Storage_Error \<Rightarrow> Inr ''evidence_storage_unavailable''
     | Provider_Failure code \<Rightarrow> provider_error_code code
     | Inclusion_Failure code retryable \<Rightarrow>
         if 1 \<le> length code \<and> length code \<le> 64 \<and>
            list_all (\<lambda>c. is_lower_char c \<or> is_digit_char c \<or> c = CHR ''_'') code
         then Inr code else Inr (take 64 fallback)
     | Runtime_Unavailable code \<Rightarrow> Inr code
     | Stored_Conflict \<Rightarrow> Inr ''evidence_stored_conflict''
     | Trust_Insufficient \<Rightarrow> Inr ''evidence_inclusion_trust_insufficient''
     | _ \<Rightarrow> Inr (take 64 fallback))"

section \<open>Claims and guards\<close>

record claimed_evidence =
  ce_id :: int
  ce_public :: string
  ce_case :: string
  ce_snapshot :: string
  ce_activity :: string
  ce_source_sync :: string
  ce_run :: int
  ce_transaction :: int
  ce_hash :: string
  ce_network :: string
  ce_semantics :: string
  ce_token :: string
  ce_attempt :: int
  ce_max :: int

definition ev_owned :: "claimed_evidence \<Rightarrow> int \<Rightarrow> evidence_row \<Rightarrow> bool" where
  "ev_owned cl now r \<longleftrightarrow> cv_id r = ce_id cl \<and> cv_state r = Running \<and>
     cv_token r = Some (ce_token cl) \<and> later_than (cv_lease r) now"

definition ev_expired :: "int \<Rightarrow> evidence_row \<Rightarrow> bool" where
  "ev_expired now r \<longleftrightarrow> cv_state r = Running \<and> at_most (cv_lease r) now"

definition ev_claimable :: "int \<Rightarrow> evidence_row \<Rightarrow> bool" where
  "ev_claimable now r \<longleftrightarrow> cv_state r = Queued \<and> cv_cancel r = None \<and>
     cv_attempts r < cv_max r \<and> at_most (cv_next r) now"

definition update_evidence ::
  "(evidence_row \<Rightarrow> bool) \<Rightarrow> (evidence_row \<Rightarrow> evidence_row) \<Rightarrow> store \<Rightarrow> nat \<times> store" where
  "update_evidence p f s =
    (snd (sql_update p f (st_evidence s)), s\<lparr> st_evidence := fst (sql_update p f (st_evidence s)) \<rparr>)"

text \<open>Writing back a loaded row by its primary key.\<close>

definition store_row :: "evidence_row \<Rightarrow> store \<Rightarrow> store" where
  "store_row r s = snd (update_evidence (\<lambda>q. cv_id q = cv_id r) (\<lambda>_. r) s)"

section \<open>Row updates\<close>

definition no_artifacts :: artifacts where
  "no_artifacts =
    \<lparr> ac_trace = None, ac_trace_digest = None, ac_trace_done = None, ac_boc = None, ac_boc_digest = None,
      ac_boc_done = None, ac_inclusion = None, ac_inclusion_done = None, ac_ledger = None,
      ac_ledger_digest = None, ac_ledger_done = None \<rparr>"

definition clear_artifact_bindings :: "evidence_row \<Rightarrow> evidence_row" where
  "clear_artifact_bindings r =
    r\<lparr> cv_artifacts := no_artifacts, cv_result := None, cv_progress := 0, cv_level := Normalized \<rparr>"

fun state_text :: "job_state \<Rightarrow> string" where
  "state_text Queued = ''queued''"
| "state_text Running = ''running''"
| "state_text Partial = ''partial''"
| "state_text Succeeded = ''succeeded''"
| "state_text Failed = ''failed''"
| "state_text Cancelled = ''cancelled''"

fun stage_text :: "job_stage \<Rightarrow> string" where
  "stage_text Stage_Capturing_Trace = ''capturing_trace''"
| "stage_text Stage_Verifying_Bocs = ''verifying_bocs''"
| "stage_text Stage_Proving_Inclusion = ''proving_inclusion''"
| "stage_text Stage_Building_Native_Ledger = ''building_native_ledger''"
| "stage_text Stage_Finalizing = ''finalizing''"
| "stage_text Stage_Validating = ''validating''"
| "stage_text Stage_Retry_Wait = ''retry_wait''"
| "stage_text Stage_Queued = ''queued''"
| "stage_text _ = ''terminal''"

definition ev_close :: "job_state \<Rightarrow> int \<Rightarrow> evidence_row \<Rightarrow> evidence_row" where
  "ev_close state now r =
    r\<lparr> cv_state := state, cv_stage := Stage_Terminal, cv_completed := Some now, cv_updated := now,
       cv_next := None, cv_token := None, cv_lease := None, cv_checkpoint := (state_text state, False),
       cv_version := cv_version r + 1 \<rparr>"

definition ev_cancelled_row :: "int \<Rightarrow> evidence_row \<Rightarrow> evidence_row" where
  "ev_cancelled_row now r = (ev_close Cancelled now r)\<lparr> cv_result := None, cv_error := None \<rparr>"

definition ev_cancel_conflict_row :: "int \<Rightarrow> evidence_row \<Rightarrow> evidence_row" where
  "ev_cancel_conflict_row now r =
    (ev_close Failed now (clear_artifact_bindings r))
      \<lparr> cv_cancel := None, cv_result := None, cv_error := Some ''evidence_artifact_conflict'' \<rparr>"

definition ev_failed_row :: "string \<Rightarrow> int \<Rightarrow> evidence_row \<Rightarrow> evidence_row" where
  "ev_failed_row code now r = (ev_close Failed now r)\<lparr> cv_error := Some (take 64 code) \<rparr>"

definition ev_partial_row :: "string \<Rightarrow> string \<Rightarrow> int \<Rightarrow> evidence_row \<Rightarrow> evidence_row" where
  "ev_partial_row code digest now r =
    (ev_close Partial now r)\<lparr> cv_error := Some (take 64 code), cv_result := Some digest \<rparr>"

definition ev_invalid_row :: "string \<Rightarrow> int \<Rightarrow> evidence_row \<Rightarrow> evidence_row" where
  "ev_invalid_row code now r =
    (ev_close Failed now (clear_artifact_bindings r))
      \<lparr> cv_error := Some (take 64 code), cv_checkpoint := (''failed_selection_revalidation'', False) \<rparr>"

text \<open>The fenced update to the last stage, and the assignments of the same transaction.\<close>

definition ev_finalizing_row :: "int \<Rightarrow> evidence_row \<Rightarrow> evidence_row" where
  "ev_finalizing_row now r =
    r\<lparr> cv_stage := Stage_Finalizing, cv_updated := now, cv_version := cv_version r + 1 \<rparr>"

definition ev_succeeded_row :: "string \<Rightarrow> int \<Rightarrow> evidence_row \<Rightarrow> evidence_row" where
  "ev_succeeded_row digest now r =
    r\<lparr> cv_result := Some digest, cv_state := Succeeded, cv_stage := Stage_Terminal,
       cv_completed := Some now, cv_updated := now, cv_token := None, cv_lease := None,
       cv_next := None, cv_checkpoint := (''succeeded'', False) \<rparr>"

definition ev_recovered_row :: "int \<Rightarrow> evidence_row \<Rightarrow> evidence_row" where
  "ev_recovered_row now r =
    r\<lparr> cv_state := Queued, cv_stage := Stage_Retry_Wait, cv_next := Some now, cv_updated := now,
       cv_token := None, cv_lease := None, cv_error := Some ''evidence_worker_lease_expired'',
       cv_checkpoint := (''retry_wait'', True), cv_version := cv_version r + 1 \<rparr>"

definition ev_retry_row :: "string \<Rightarrow> int \<Rightarrow> int \<Rightarrow> evidence_row \<Rightarrow> evidence_row" where
  "ev_retry_row code retry_at now r =
    r\<lparr> cv_state := Queued, cv_stage := Stage_Retry_Wait, cv_next := Some retry_at, cv_updated := now,
       cv_token := None, cv_lease := None, cv_error := Some (take 64 code),
       cv_checkpoint := (''retry_wait'', True), cv_version := cv_version r + 1 \<rparr>"

definition ev_claimed_row :: "evidence_config \<Rightarrow> string \<Rightarrow> int \<Rightarrow> evidence_row \<Rightarrow> evidence_row" where
  "ev_claimed_row cf token now r =
    r\<lparr> cv_state := Running, cv_stage := Stage_Validating, cv_attempts := cv_attempts r + 1,
       cv_next := None, cv_token := Some token, cv_lease := Some (now + us (ec_lease cf)),
       cv_heartbeat := Some now, cv_started := (case cv_started r of None \<Rightarrow> Some now | s \<Rightarrow> s),
       cv_updated := now, cv_error := None, cv_checkpoint := (''validating'', False),
       cv_version := cv_version r + 1 \<rparr>"

definition ev_advanced_row :: "evidence_config \<Rightarrow> job_stage \<Rightarrow> int \<Rightarrow> evidence_row \<Rightarrow> evidence_row" where
  "ev_advanced_row cf stage now r =
    r\<lparr> cv_stage := stage, cv_updated := now, cv_heartbeat := Some now,
       cv_lease := Some (now + us (ec_lease cf)), cv_checkpoint := (stage_text stage, False),
       cv_version := cv_version r + 1 \<rparr>"

text \<open>The heartbeat names no \<open>updated_at\<close>: the column's \<open>onupdate\<close> sets it to the wall clock.\<close>

definition ev_heartbeat_row :: "evidence_config \<Rightarrow> int \<Rightarrow> int \<Rightarrow> evidence_row \<Rightarrow> evidence_row" where
  "ev_heartbeat_row cf now wall r =
    r\<lparr> cv_heartbeat := Some now, cv_lease := Some (now + us (ec_lease cf)), cv_updated := wall \<rparr>"

definition ev_bound_row :: "evidence_config \<Rightarrow> int \<Rightarrow> int \<Rightarrow> evidence_row \<Rightarrow> evidence_row" where
  "ev_bound_row cf progress now r =
    r\<lparr> cv_updated := now, cv_heartbeat := Some now, cv_lease := Some (now + us (ec_lease cf)),
       cv_checkpoint := (''artifact_'' @ show_int progress @ ''_bound'', False),
       cv_version := cv_version r + 1 \<rparr>"

section \<open>Closing a job\<close>

text \<open>Closing functions return the row to commit; \<open>later\<close> is the clock they read themselves.\<close>

definition terminal_cancel_row :: "store \<Rightarrow> int \<Rightarrow> evidence_row \<Rightarrow> evidence_exn + evidence_row" where
  "terminal_cancel_row s later job =
    (case revalidated_artifacts s job of
       Inr _ \<Rightarrow> Inr (ev_cancelled_row later job)
     | Inl Stored_Conflict \<Rightarrow> Inr (ev_cancel_conflict_row later job)
     | Inl e \<Rightarrow> Inl e)"

definition terminal_row ::
  "evidence_config \<Rightarrow> store \<Rightarrow> int \<Rightarrow> string \<Rightarrow> evidence_row \<Rightarrow> evidence_exn + evidence_row" where
  "terminal_row cf s later code job =
    (if cv_cancel job \<noteq> None then terminal_cancel_row s later job
     else case revalidated_artifacts s job of
       Inr av \<Rightarrow>
         if 0 < cv_progress job then
           bind_result (result_content_of s job av) (\<lambda>content.
             Inr (ev_partial_row code (ec_result cf content) later job))
         else Inr (ev_failed_row code later job)
     | Inl Stored_Conflict \<Rightarrow>
         Inr (ev_failed_row ''evidence_artifact_conflict'' later (clear_artifact_bindings job))
     | Inl e \<Rightarrow> Inl e)"

text \<open>Commit the closed row, or let the exception escape and roll back.\<close>

definition commit_row :: "evidence_exn + evidence_row \<Rightarrow> 'a \<Rightarrow> store \<Rightarrow> (evidence_exn + 'a) \<times> store" where
  "commit_row r a s = (case r of Inl e \<Rightarrow> (Inl e, s) | Inr q \<Rightarrow> (Inr a, store_row q s))"

text \<open>A session that fences one row by a no-op update and then works on the loaded row.\<close>

definition fenced_row ::
  "(evidence_row \<Rightarrow> bool) \<Rightarrow> 'a \<Rightarrow> (evidence_row \<Rightarrow> (evidence_exn + 'a) \<times> store) \<Rightarrow> store \<Rightarrow>
   (evidence_exn + 'a) \<times> store" where
  "fenced_row p refused f s =
    (if length (filter p (st_evidence s)) \<noteq> 1 then (Inr refused, s)
     else case sql_find p (st_evidence s) of None \<Rightarrow> (Inr refused, s) | Some job \<Rightarrow> f job)"

section \<open>Recovery\<close>

definition recover_scan ::
  "int \<Rightarrow> store \<Rightarrow>
   (evidence_exn + int list \<times> nat \<times> (int \<times> string option \<times> int option) list) \<times> store" where
  "recover_scan now s =
    (let cancelled = map cv_id (filter (\<lambda>r. ev_expired now r \<and> cv_cancel r \<noteq> None) (st_evidence s));
         (retry, s') = update_evidence
           (\<lambda>r. ev_expired now r \<and> cv_cancel r = None \<and> cv_attempts r < cv_max r)
           (ev_recovered_row now) s;
         exhausted = map (\<lambda>r. (cv_id r, cv_token r, cv_lease r))
           (filter (\<lambda>r. ev_expired now r \<and> cv_cancel r = None \<and> cv_max r \<le> cv_attempts r)
             (st_evidence s'))
     in (Inr (cancelled, retry, exhausted), s'))"

definition finish_recovered_cancel :: "int \<Rightarrow> bool attempt" where
  "finish_recovered_cancel job_id = session (\<lambda>t s.
     fenced_row (\<lambda>r. cv_id r = job_id \<and> cv_state r = Running \<and> cv_cancel r \<noteq> None) False
       (\<lambda>job. commit_row (terminal_cancel_row s (tn_later t) job) True s) s)"

definition finish_expired ::
  "evidence_config \<Rightarrow> int \<Rightarrow> int \<times> string option \<times> int option \<Rightarrow> bool attempt" where
  "finish_expired cf cutoff = (\<lambda>(job_id, token, lease). session (\<lambda>t s.
     fenced_row (\<lambda>r. cv_id r = job_id \<and> cv_state r = Running \<and> cv_token r = token \<and>
         cv_lease r = lease \<and> at_most (cv_lease r) cutoff \<and> cv_max r \<le> cv_attempts r)
       False
       (\<lambda>job. commit_row
         (if cv_cancel job \<noteq> None then terminal_cancel_row s (tn_later t) job
          else terminal_row cf s (tn_later t) ''evidence_retry_budget_exhausted'' job) True s) s))"

fun count_true :: "('a \<Rightarrow> bool attempt) \<Rightarrow> 'a list \<Rightarrow> nat attempt" where
  "count_true f [] = yield 0"
| "count_true f (x # xs) = seq (f x) (\<lambda>b. seq (count_true f xs) (\<lambda>n. yield (if b then Suc n else n)))"

definition ev_recover_expired :: "evidence_config \<Rightarrow> nat attempt" where
  "ev_recover_expired cf =
    seq clock (\<lambda>now.
    seq (session (\<lambda>_. recover_scan now)) (\<lambda>(cancelled, retry, exhausted).
    seq (count_true finish_recovered_cancel cancelled) (\<lambda>c.
    seq (count_true (finish_expired cf now) exhausted) (\<lambda>e. yield (c + retry + e)))))"

section \<open>Claiming\<close>

definition ev_claim_order :: "evidence_row \<Rightarrow> int \<times> int \<times> int" where
  "ev_claim_order r = (case cv_next r of None \<Rightarrow> 0 | Some n \<Rightarrow> n, cv_created r, cv_id r)"

text \<open>\<open>ORDER BY next_attempt_at, created_at, id LIMIT 1\<close>.\<close>

fun ev_first_claimable :: "evidence_row list \<Rightarrow> evidence_row option" where
  "ev_first_claimable [] = None"
| "ev_first_claimable (r # rs) =
    (case ev_first_claimable rs of
       None \<Rightarrow> Some r
     | Some q \<Rightarrow> Some (if precedes (ev_claim_order q) (ev_claim_order r) then q else r))"

definition ev_select :: "int \<Rightarrow> store \<Rightarrow> int option" where
  "ev_select now s = map_option cv_id (ev_first_claimable (filter (ev_claimable now) (st_evidence s)))"

definition ev_claim_update ::
  "evidence_config \<Rightarrow> int \<Rightarrow> string \<Rightarrow> int \<Rightarrow> store \<Rightarrow> (evidence_exn + bool) \<times> store" where
  "ev_claim_update cf now token candidate s =
    (let (n, s') = update_evidence (\<lambda>r. cv_id r = candidate \<and> ev_claimable now r)
           (ev_claimed_row cf token now) s
     in if n = 1 then (Inr True, s') else (Inr False, s))"

text \<open>The claim read after the commit; \<open>None\<close> when a related row is gone.\<close>

definition ev_claimed_of :: "int \<Rightarrow> string \<Rightarrow> store \<Rightarrow> claimed_evidence option" where
  "ev_claimed_of candidate token s =
    (case sql_find (\<lambda>r. cv_id r = candidate) (st_evidence s) of
       None \<Rightarrow> None
     | Some job \<Rightarrow>
         let sel = cv_selection job in
         (case (sql_find (\<lambda>c. wc_id c = cv_case job) (st_cases s),
                sql_find (\<lambda>q. sy_id q = sl_snapshot sel) (st_syncs s),
                sql_find (\<lambda>q. sy_id q = sl_source_sync sel) (st_syncs s)) of
            (Some c, Some snapshot, Some source) \<Rightarrow> Some
              \<lparr> ce_id = cv_id job, ce_public = cv_public job, ce_case = wc_public c,
                ce_snapshot = sy_public snapshot, ce_activity = sl_activity sel,
                ce_source_sync = sy_public source,
                ce_run = (case sy_run source of None \<Rightarrow> 0 | Some run \<Rightarrow> run),
                ce_transaction = sl_transaction sel, ce_hash = sl_hash sel,
                ce_network = sl_network sel, ce_semantics = sl_semantics sel, ce_token = token,
                ce_attempt = cv_attempts job, ce_max = cv_max job \<rparr>
          | _ \<Rightarrow> None))"

definition ev_claim_next :: "evidence_config \<Rightarrow> claimed_evidence option attempt" where
  "ev_claim_next cf =
    seq stopped (\<lambda>stop. if stop then yield None else
    seq clock (\<lambda>now.
    seq (session (\<lambda>_ s. (Inr (ev_select now s), s))) (\<lambda>candidate.
    case candidate of None \<Rightarrow> yield None | Some i \<Rightarrow>
    seq (session (\<lambda>t s. let (r, s') = ev_claim_update cf now (tn_token t) i s in
           (bind_result r (\<lambda>b. Inr (b, tn_token t)), s'))) (\<lambda>(claimed, token).
    if \<not> claimed then yield None
    else session (\<lambda>_ s. (Inr (ev_claimed_of i token s), s))))))"

section \<open>Statements under the lease\<close>

definition ev_fenced_update ::
  "claimed_evidence \<Rightarrow> (int \<Rightarrow> evidence_row \<Rightarrow> evidence_row) \<Rightarrow> int \<Rightarrow> store \<Rightarrow>
   (evidence_exn + bool) \<times> store" where
  "ev_fenced_update cl f now s =
    (let (n, s') = update_evidence (\<lambda>r. ev_owned cl now r \<and> cv_cancel r = None) (f now) s
     in (Inr (n = 1), s'))"

definition ev_advance :: "evidence_config \<Rightarrow> claimed_evidence \<Rightarrow> job_stage \<Rightarrow> bool attempt" where
  "ev_advance cf cl stage = session (\<lambda>t. ev_fenced_update cl (ev_advanced_row cf stage) (tn_now t))"

definition ev_heartbeat :: "evidence_config \<Rightarrow> claimed_evidence \<Rightarrow> bool attempt" where
  "ev_heartbeat cf cl =
    seq stopped (\<lambda>stop. if stop then yield False else session (\<lambda>t s.
      let (n, s') = update_evidence (ev_owned cl (tn_now t)) (ev_heartbeat_row cf (tn_now t) (tn_wall t)) s
      in (Inr (n = 1), s')))"

text \<open>Reading one column of the owned row; the row is missing when the lease is lost.\<close>

definition ev_read :: "claimed_evidence \<Rightarrow> (evidence_row \<Rightarrow> bool) \<Rightarrow> bool attempt" where
  "ev_read cl f = session (\<lambda>t s.
     (Inr (case sql_find (ev_owned cl (tn_now t)) (st_evidence s) of None \<Rightarrow> False | Some r \<Rightarrow> f r), s))"

definition ev_cancelled :: "claimed_evidence \<Rightarrow> bool attempt" where
  "ev_cancelled cl = ev_read cl (\<lambda>r. cv_cancel r \<noteq> None)"

definition bound_column :: "artifact_kind \<Rightarrow> artifacts \<Rightarrow> bool" where
  "bound_column k a =
    (case k of
       Trace_Capture \<Rightarrow> ac_trace a \<noteq> None
     | Boc_Verification \<Rightarrow> ac_boc a \<noteq> None
     | Block_Inclusion \<Rightarrow> ac_inclusion a \<noteq> None
     | Native_Ledger \<Rightarrow> ac_ledger a \<noteq> None)"

definition has_binding :: "claimed_evidence \<Rightarrow> artifact_kind \<Rightarrow> bool attempt" where
  "has_binding cl k = ev_read cl (\<lambda>r. bound_column k (cv_artifacts r))"

definition revalidate_bound :: "claimed_evidence \<Rightarrow> unit attempt" where
  "revalidate_bound cl = session (\<lambda>t s.
     (case sql_find (ev_owned cl (tn_now t)) (st_evidence s) of
        None \<Rightarrow> Inl Worker_Stop
      | Some job \<Rightarrow> bind_result (revalidated_artifacts s job) (\<lambda>_. Inr ()), s))"

definition ev_finish_cancelled :: "claimed_evidence \<Rightarrow> unit attempt" where
  "ev_finish_cancelled cl = session (\<lambda>t s.
     case sql_find (ev_owned cl (tn_now t)) (st_evidence s) of
       None \<Rightarrow> (Inr (), s)
     | Some job \<Rightarrow>
         if cv_cancel job = None then (Inr (), s)
         else commit_row (terminal_cancel_row s (tn_later t) job) () s)"

definition ev_retry_delay_us :: "evidence_config \<Rightarrow> claimed_evidence \<Rightarrow> int" where
  "ev_retry_delay_us cf cl =
    (let exponential = min (ec_cap cf) (ec_base cf * 2 ^ nat (max 0 (ce_attempt cl - 1)));
         digest = int (ec_digest cf (ce_public cl @ '':'' @ show_int (ce_attempt cl)) mod 65536);
         jittered = us exponential + (us exponential * digest + 131070) div 262140
     in min (us (ec_cap cf)) jittered)"

definition ev_schedule_retry :: "evidence_config \<Rightarrow> claimed_evidence \<Rightarrow> string \<Rightarrow> unit attempt" where
  "ev_schedule_retry cf cl code =
    seq (session (\<lambda>t. ev_fenced_update cl
      (\<lambda>now. ev_retry_row code (now + ev_retry_delay_us cf cl) now) (tn_now t)))
      (\<lambda>updated. if updated then yield () else ev_finish_cancelled cl)"

text \<open>The closing sessions: \<open>False\<close> when the fence refuses, and then a cancellation is finished.\<close>

definition ev_finish_failure :: "evidence_config \<Rightarrow> claimed_evidence \<Rightarrow> string \<Rightarrow> unit attempt" where
  "ev_finish_failure cf cl code =
    seq (session (\<lambda>t s. fenced_row (\<lambda>r. ev_owned cl (tn_now t) r \<and> cv_cancel r = None) False
      (\<lambda>job. commit_row (terminal_row cf s (tn_later t) code job) True s) s))
      (\<lambda>closed. if closed then yield () else ev_finish_cancelled cl)"

definition ev_finish_invalid_selection :: "claimed_evidence \<Rightarrow> string \<Rightarrow> unit attempt" where
  "ev_finish_invalid_selection cl code = session (\<lambda>t s.
     fenced_row (ev_owned cl (tn_now t)) ()
       (\<lambda>job. commit_row
         (if cv_cancel job \<noteq> None then terminal_cancel_row s (tn_later t) job
          else Inr (ev_invalid_row code (tn_now t) job)) () s) s)"

definition success_row :: "evidence_config \<Rightarrow> store \<Rightarrow> int \<Rightarrow> evidence_row \<Rightarrow> evidence_exn + evidence_row" where
  "success_row cf s now r =
    (let job = ev_finalizing_row now r in
     bind_result (revalidated_artifacts s job) (\<lambda>av.
       if cv_progress job \<noteq> 4 then Inl Stored_Conflict
       else bind_result (result_content_of s job av) (\<lambda>content.
         Inr (ev_succeeded_row (ec_result cf content) now job))))"

definition ev_finish_success :: "evidence_config \<Rightarrow> claimed_evidence \<Rightarrow> unit attempt" where
  "ev_finish_success cf cl =
    seq (session (\<lambda>t s. fenced_row (\<lambda>r. ev_owned cl (tn_now t) r \<and> cv_cancel r = None) False
      (\<lambda>job. commit_row (success_row cf s (tn_now t) job) True s) s))
      (\<lambda>closed. if closed then yield () else ev_finish_cancelled cl)"

section \<open>Binding artifacts\<close>

text \<open>What an operation returns: a value, or a tuple whose first component is the payload.\<close>

datatype op_value = Op_Value pyval | Op_Tuple "pyval list"

definition payload_of :: "op_value \<Rightarrow> evidence_exn + pyval" where
  "payload_of v =
    (case v of Op_Value p \<Rightarrow> Inr p | Op_Tuple [] \<Rightarrow> Inl Other_Error | Op_Tuple (p # _) \<Rightarrow> Inr p)"

text \<open>\<open>int(payload[key])\<close>, and a text column assigned from a subscript.\<close>

definition int_field :: "pyval \<Rightarrow> string \<Rightarrow> evidence_exn + int" where
  "int_field v k = bind_result (entry v k) (\<lambda>x.
     case int_of x of Inl _ \<Rightarrow> Inl Other_Error | Inr i \<Rightarrow> Inr i)"

definition text_field :: "pyval \<Rightarrow> string \<Rightarrow> evidence_exn + string option" where
  "text_field v k = bind_result (entry v k) (\<lambda>x.
     case x of PStr s \<Rightarrow> Inr (Some s) | PNone \<Rightarrow> Inr None | _ \<Rightarrow> Inl Storage_Error)"

definition bind_trace :: "op_value \<Rightarrow> int \<Rightarrow> evidence_exn + (evidence_row \<Rightarrow> evidence_row)" where
  "bind_trace v at =
    bind_result (payload_of v) (\<lambda>p. bind_result (int_field p ''capture_id'') (\<lambda>i.
    bind_result (text_field p ''evidence_digest_sha256'') (\<lambda>d.
    Inr (\<lambda>r. r\<lparr> cv_artifacts := (cv_artifacts r)\<lparr> ac_trace := Some i, ac_trace_digest := d,
      ac_trace_done := Some at \<rparr>, cv_level := Normalized, cv_progress := 1 \<rparr>))))"

definition bind_boc :: "op_value \<Rightarrow> int \<Rightarrow> evidence_exn + (evidence_row \<Rightarrow> evidence_row)" where
  "bind_boc v at =
    bind_result (payload_of v) (\<lambda>p. bind_result (int_field p ''verification_id'') (\<lambda>i.
    bind_result (text_field p ''evidence_digest_sha256'') (\<lambda>d.
    Inr (\<lambda>r. r\<lparr> cv_artifacts := (cv_artifacts r)\<lparr> ac_boc := Some i, ac_boc_digest := d,
      ac_boc_done := Some at \<rparr>, cv_level := Locally_Verified, cv_progress := 2 \<rparr>))))"

definition bind_inclusion ::
  "claimed_evidence \<Rightarrow> op_value \<Rightarrow> int \<Rightarrow> evidence_exn + (evidence_row \<Rightarrow> evidence_row)" where
  "bind_inclusion cl v at =
    (case v of
       Op_Tuple _ \<Rightarrow> Inl Trust_Insufficient
     | Op_Value p \<Rightarrow>
         bind_result (canonical_inclusion_proven p (Some (ce_network cl))) (\<lambda>proven.
         if \<not> proven then Inl Trust_Insufficient
         else bind_result (text_field p ''catalog_digest_sha256'') (\<lambda>d.
           Inr (\<lambda>r. r\<lparr> cv_artifacts := (cv_artifacts r)\<lparr> ac_inclusion := d, ac_inclusion_done := Some at \<rparr>,
             cv_level := Chain_Inclusion_Proven, cv_progress := 3 \<rparr>))))"

definition bind_ledger :: "op_value \<Rightarrow> int \<Rightarrow> evidence_exn + (evidence_row \<Rightarrow> evidence_row)" where
  "bind_ledger v at =
    bind_result (payload_of v) (\<lambda>p. bind_result (int_field p ''ledger_id'') (\<lambda>i.
    bind_result (text_field p ''evidence_digest_sha256'') (\<lambda>d.
    Inr (\<lambda>r. r\<lparr> cv_artifacts := (cv_artifacts r)\<lparr> ac_ledger := Some i, ac_ledger_digest := d,
      ac_ledger_done := Some at \<rparr>, cv_level := Chain_Inclusion_Proven, cv_progress := 4 \<rparr>))))"

definition bind_values ::
  "claimed_evidence \<Rightarrow> artifact_kind \<Rightarrow> op_value \<Rightarrow> int \<Rightarrow>
   evidence_exn + (evidence_row \<Rightarrow> evidence_row)" where
  "bind_values cl k v at =
    (case k of
       Trace_Capture \<Rightarrow> bind_trace v at
     | Boc_Verification \<Rightarrow> bind_boc v at
     | Block_Inclusion \<Rightarrow> bind_inclusion cl v at
     | Native_Ledger \<Rightarrow> bind_ledger v at)"

text \<open>\<open>_bind\<close>: the flush meets the table's CHECK constraints before the row is revalidated.\<close>

definition bind_statement ::
  "evidence_config \<Rightarrow> claimed_evidence \<Rightarrow> (evidence_row \<Rightarrow> evidence_row) \<Rightarrow> int \<Rightarrow> store \<Rightarrow>
   (evidence_exn + unit) \<times> store" where
  "bind_statement cf cl values now s =
    (case sql_find (ev_owned cl now) (st_evidence s) of
       None \<Rightarrow> (Inl Worker_Stop, s)
     | Some job \<Rightarrow>
         let bound = values job in
         if \<not> evidence_checks bound then (Inl Storage_Error, s)
         else commit_row (bind_result (revalidated_artifacts (store_row bound s) bound) (\<lambda>_.
           Inr (ev_bound_row cf (cv_progress bound) now bound))) () s)"

definition bind_artifact ::
  "evidence_config \<Rightarrow> claimed_evidence \<Rightarrow> artifact_kind \<Rightarrow> op_value \<Rightarrow> unit attempt" where
  "bind_artifact cf cl k v =
    seq clock (\<lambda>at. case bind_values cl k v at of
        Inl e \<Rightarrow> raise e
      | Inr values \<Rightarrow> session (\<lambda>t. bind_statement cf cl values (tn_now t)))"

section \<open>The pinned selection\<close>

text \<open>What the Activity service resolves, and the runtime settings the limitation reads.\<close>

record resolved_selection =
  rs_environment :: string
  rs_network :: string
  rs_data_mode :: string
  rs_provider :: string
  rs_run :: "(string \<times> string) option"
  rs_source_provider :: "string option"
  rs_source_public :: string
  rs_transaction :: int
  rs_source_run :: int
  rs_hash :: string
  rs_semantics :: string

record runtime_settings =
  rt_network :: string
  rt_real :: bool
  rt_live :: bool
  rt_provider :: string
  rt_trust :: int
  rt_configured :: bool

definition live_provider :: string where "live_provider = ''tonapi_wallet_activity_live''"

definition runtime_limitation ::
  "resolved_selection \<Rightarrow> bool \<Rightarrow> runtime_settings \<Rightarrow> string option" where
  "runtime_limitation rs runner rt =
    (if \<not> runner then Some ''evidence_runner_unavailable''
     else if rs_environment rs \<noteq> ''live'' \<or> rs_data_mode rs \<noteq> ''real''
       then Some ''demo_evidence_not_verifiable''
     else let provider_matches = (rs_provider rs = live_provider \<and>
            (case rs_source_provider rs of None \<Rightarrow> True | Some p \<Rightarrow> p = live_provider) \<and>
            rt_provider rt = ''tonapi'') in
       if \<not> rt_real rt \<or> \<not> rt_live rt \<or> \<not> provider_matches \<or>
          (case rs_run rs of None \<Rightarrow> True
           | Some (data_mode, net) \<Rightarrow> data_mode \<noteq> ''real'' \<or> net \<noteq> rs_network rs) \<or>
          rs_network rs \<noteq> ''ton-'' @ rt_network rt \<or> rt_trust rt \<noteq> 0 \<or> \<not> rt_configured rt
       then Some ''evidence_runtime_unavailable'' else None)"

definition revalidate_selection ::
  "(store \<Rightarrow> evidence_exn + resolved_selection) \<Rightarrow> runtime_settings \<Rightarrow> claimed_evidence \<Rightarrow> unit attempt"
  where
  "revalidate_selection resolve rt cl = session (\<lambda>_ s.
     (bind_result (resolve s) (\<lambda>rs.
        if rs_source_public rs \<noteq> ce_source_sync cl \<or> rs_transaction rs \<noteq> ce_transaction cl \<or>
           rs_source_run rs \<noteq> ce_run cl \<or> rs_hash rs \<noteq> ce_hash cl \<or> rs_semantics rs \<noteq> ce_semantics cl
        then Inl Stored_Conflict
        else if runtime_limitation rs True rt \<noteq> None
          then Inl (Runtime_Unavailable ''evidence_runtime_unavailable'')
        else Inr ()), s))"

section \<open>Execution\<close>

record operation_run =
  or_ticks :: nat
  or_outcome :: "evidence_exn + op_value"

record evidence_external =
  ee_resolve :: "store \<Rightarrow> evidence_exn + resolved_selection"
  ee_runtime :: runtime_settings
  ee_operation :: "artifact_kind \<Rightarrow> operation_run"

record heartbeat_flags =
  hb_cancel :: bool
  hb_stop :: bool
  hb_lost :: bool

text \<open>One pass of the waiting loop per heartbeat interval the operation outlives.\<close>

fun waiting_loop :: "evidence_config \<Rightarrow> claimed_evidence \<Rightarrow> nat \<Rightarrow> heartbeat_flags \<Rightarrow> heartbeat_flags attempt"
  where
  "waiting_loop cf cl 0 flags = yield flags"
| "waiting_loop cf cl (Suc n) flags =
    seq stopped (\<lambda>stop.
    seq (if stop then yield (flags\<lparr> hb_stop := True \<rparr>)
         else seq (ev_cancelled cl) (\<lambda>c. yield (if c then flags\<lparr> hb_cancel := True \<rparr> else flags)))
      (\<lambda>flags.
    seq (ev_heartbeat cf cl) (\<lambda>beat.
      waiting_loop cf cl n (if beat then flags else flags\<lparr> hb_lost := True \<rparr>))))"

definition call_with_heartbeats ::
  "evidence_config \<Rightarrow> claimed_evidence \<Rightarrow> operation_run \<Rightarrow> op_value attempt" where
  "call_with_heartbeats cf cl operation =
    seq stopped (\<lambda>stop. if stop then raise Worker_Stop else
    seq (waiting_loop cf cl (or_ticks operation) \<lparr> hb_cancel = False, hb_stop = False, hb_lost = False \<rparr>)
      (\<lambda>flags. if hb_cancel flags then raise Operation_Cancelled else
    seq stopped (\<lambda>stop.
      if stop \<or> hb_stop flags \<or> hb_lost flags then raise Worker_Stop
      else State_Monad.return (or_outcome operation))))"

fun stage_of :: "artifact_kind \<Rightarrow> job_stage" where
  "stage_of Trace_Capture = Stage_Capturing_Trace"
| "stage_of Boc_Verification = Stage_Verifying_Bocs"
| "stage_of Block_Inclusion = Stage_Proving_Inclusion"
| "stage_of Native_Ledger = Stage_Building_Native_Ledger"

definition retry_or_fail :: "evidence_config \<Rightarrow> claimed_evidence \<Rightarrow> string \<Rightarrow> unit attempt" where
  "retry_or_fail cf cl code =
    (if ce_attempt cl < ce_max cl then ev_schedule_retry cf cl code else ev_finish_failure cf cl code)"

text \<open>The handler of a failed proof operation.\<close>

definition stage_failure :: "evidence_config \<Rightarrow> claimed_evidence \<Rightarrow> evidence_exn \<Rightarrow> unit attempt" where
  "stage_failure cf cl e =
    (case is_retryable e of
       Inl x \<Rightarrow> raise x
     | Inr retryable \<Rightarrow>
         (case error_code e (if retryable then ''evidence_provider_unavailable'' else ''evidence_conflict'') of
            Inl x \<Rightarrow> raise x
          | Inr code \<Rightarrow>
              if retryable \<and> ce_attempt cl < ce_max cl then ev_schedule_retry cf cl code
              else ev_finish_failure cf cl
                (if retryable then ''evidence_retry_budget_exhausted'' else code)))"

text \<open>The stages in order, then the success; every early return is the program's end.\<close>

fun run_stages ::
  "evidence_config \<Rightarrow> evidence_external \<Rightarrow> claimed_evidence \<Rightarrow> artifact_kind list \<Rightarrow> unit attempt" where
  "run_stages cf ex cl [] = ev_finish_success cf cl"
| "run_stages cf ex cl (k # ks) =
    seq stopped (\<lambda>stop. if stop then raise Worker_Stop else
    seq (ev_cancelled cl) (\<lambda>cancelled. if cancelled then ev_finish_cancelled cl else
    seq (has_binding cl k) (\<lambda>bound.
    if bound then seq (revalidate_bound cl) (\<lambda>_. run_stages cf ex cl ks) else
    seq (ev_advance cf cl (stage_of k)) (\<lambda>advanced. if \<not> advanced then ev_finish_cancelled cl else
    handle (seq (call_with_heartbeats cf cl (ee_operation ex k)) (bind_artifact cf cl k))
      (\<lambda>e. if e = Worker_Stop then raise Worker_Stop
           else if e = Operation_Cancelled then ev_finish_cancelled cl
           else seq (ev_cancelled cl) (\<lambda>cancelled.
             if cancelled then ev_finish_cancelled cl else stage_failure cf cl e))
      (\<lambda>_. seq (ev_cancelled cl) (\<lambda>cancelled.
             if cancelled then ev_finish_cancelled cl else run_stages cf ex cl ks))))))"

definition execute_stages ::
  "evidence_config \<Rightarrow> evidence_external \<Rightarrow> claimed_evidence \<Rightarrow> unit attempt" where
  "execute_stages cf ex cl =
    handle (revalidate_selection (ee_resolve ex) (ee_runtime ex) cl)
      (\<lambda>e. case e of
           Runtime_Unavailable _ \<Rightarrow> retry_or_fail cf cl ''evidence_runtime_unavailable''
         | Storage_Error \<Rightarrow> retry_or_fail cf cl ''evidence_storage_unavailable''
         | _ \<Rightarrow> ev_finish_invalid_selection cl ''evidence_selection_conflict'')
      (\<lambda>_. run_stages cf ex cl [Trace_Capture, Boc_Verification, Block_Inclusion, Native_Ledger])"

definition ev_execute_claimed ::
  "evidence_config \<Rightarrow> evidence_external \<Rightarrow> claimed_evidence \<Rightarrow> unit attempt" where
  "ev_execute_claimed cf ex cl =
    handle (execute_stages cf ex cl)
      (\<lambda>e. if e = Storage_Error then retry_or_fail cf cl ''evidence_storage_unavailable'' else raise e)
      yield"

text \<open>\<open>run_once\<close>: exceptions of the recovery and of the claim escape to the runner's loop.\<close>

definition ev_run_once :: "evidence_config \<Rightarrow> evidence_external \<Rightarrow> bool attempt" where
  "ev_run_once cf ex =
    seq stopped (\<lambda>stop. if stop then yield False else
    seq (ev_recover_expired cf) (\<lambda>_.
    seq (ev_claim_next cf) (\<lambda>claimed.
    case claimed of
      None \<Rightarrow> yield False
    | Some cl \<Rightarrow>
        handle (ev_execute_claimed cf ex cl)
          (\<lambda>e. if e = Worker_Stop \<or> e = Storage_Error then yield True
               else handle (ev_finish_failure cf cl ''internal_evidence_error'')
                 (\<lambda>_. yield True) (\<lambda>_. yield True))
          (\<lambda>_. yield True))))"

end
