(* ===== verification/Case_Evidence_Service.thy ===== *)
theory Case_Evidence_Service
  imports Case_Evidence_Jobs
begin

text \<open>
  \<open>backend/services/wallet_case_evidence.py\<close>: enqueueing and cancelling a verification.  Every
  query and every commit of the request's session is a turn of its own.  The Activity service's
  resolution of the selection and the request's fingerprint are arguments.  The operations return
  the row that the source renders with \<open>_response\<close> (see \<open>evidence_response\<close>).
\<close>

datatype service_error =
    Evidence_Not_Found | Evidence_Ineligible | Evidence_Unavailable string
  | Idempotency_Conflict | Already_Active string | Integrity_Error | Resolution_Failed

type_synonym 'a service = "(service_error + 'a) prog"

definition required_case :: "string \<Rightarrow> string \<Rightarrow> store \<Rightarrow> case_row option" where
  "required_case owner public s =
    sql_find (\<lambda>c. wc_owner c = owner \<and> wc_public c = public \<and> wc_archived c = None) (st_cases s)"

section \<open>Enqueueing\<close>

record evidence_request =
  rq_snapshot :: string
  rq_activity :: string
  rq_policy :: string

text \<open>The resolution also fixes the ids and provenance the new row copies.\<close>

record resolved_request =
  rr_case :: case_row
  rr_selection :: resolved_selection
  rr_snapshot_id :: int
  rr_source_id :: int
  rr_source_mode :: string
  rr_provider :: string
  rr_logical_time :: string

definition by_key :: "int \<Rightarrow> string \<Rightarrow> store \<Rightarrow> evidence_row option" where
  "by_key case_id key s = sql_find (\<lambda>r. cv_case r = case_id \<and> cv_idempotency r = key) (st_evidence s)"

definition same_selection :: "int \<Rightarrow> int \<Rightarrow> evidence_request \<Rightarrow> evidence_row \<Rightarrow> bool" where
  "same_selection case_id snapshot rq r \<longleftrightarrow> cv_case r = case_id \<and>
     sl_snapshot (cv_selection r) = snapshot \<and> sl_activity (cv_selection r) = rq_activity rq \<and>
     sl_policy (cv_selection r) = rq_policy rq"

definition active_selection :: "int \<Rightarrow> int \<Rightarrow> evidence_request \<Rightarrow> store \<Rightarrow> evidence_row option" where
  "active_selection case_id snapshot rq s =
    sql_find (\<lambda>r. same_selection case_id snapshot rq r \<and> active_state (cv_state r)) (st_evidence s)"

definition queued_evidence_row ::
  "resolved_request \<Rightarrow> evidence_request \<Rightarrow> string \<Rightarrow> string \<Rightarrow> int \<Rightarrow> int \<Rightarrow> string \<Rightarrow> int \<Rightarrow> evidence_row" where
  "queued_evidence_row rr rq key fingerprint max_attempts i public now =
    \<lparr> cv_id = i, cv_public = public, cv_case = wc_id (rr_case rr),
      cv_selection = \<lparr> sl_snapshot = rr_snapshot_id rr, sl_source_sync = rr_source_id rr,
        sl_transaction = rs_transaction (rr_selection rr), sl_activity = rq_activity rq,
        sl_semantics = rs_semantics (rr_selection rr), sl_policy = rq_policy rq,
        sl_provider = rr_provider rr, sl_network = wc_network (rr_case rr),
        sl_account = wc_key (rr_case rr), sl_hash = rs_hash (rr_selection rr),
        sl_time = rr_logical_time rr \<rparr>,
      cv_state = Queued, cv_stage = Stage_Queued, cv_progress = 0, cv_version = 1,
      cv_level = Normalized, cv_idempotency = key, cv_fingerprint = fingerprint, cv_attempts = 0,
      cv_max = max_attempts, cv_next = Some now, cv_cancel = None, cv_token = None, cv_lease = None,
      cv_heartbeat = None, cv_checkpoint = (''queued'', False), cv_artifacts = no_artifacts,
      cv_result = None, cv_error = None, cv_created = now, cv_updated = now, cv_started = None,
      cv_completed = None \<rparr>"

text \<open>The unique indexes of the table, and the commit of an insertion: \<open>None\<close> is \<open>IntegrityError\<close>.\<close>

definition selection_key :: "evidence_row \<Rightarrow> int \<times> int \<times> string \<times> string" where
  "selection_key r = (cv_case r, sl_snapshot (cv_selection r), sl_activity (cv_selection r),
     sl_policy (cv_selection r))"

definition insert_evidence :: "evidence_row \<Rightarrow> store \<Rightarrow> store option" where
  "insert_evidence r s =
    (if evidence_checks r \<and> sl_policy (cv_selection r) = ''transaction_inclusion_v1'' \<and>
        (\<forall>q \<in> set (st_evidence s). cv_id q \<noteq> cv_id r \<and> cv_public q \<noteq> cv_public r \<and>
           (cv_case q, cv_idempotency q) \<noteq> (cv_case r, cv_idempotency r) \<and>
           \<not> (active_state (cv_state q) \<and> selection_key q = selection_key r))
     then Some (s\<lparr> st_evidence := st_evidence s @ [r] \<rparr>) else None)"

definition replay_of :: "evidence_row \<Rightarrow> string \<Rightarrow> service_error + evidence_row \<times> bool" where
  "replay_of r fingerprint =
    (if cv_fingerprint r \<noteq> fingerprint then Inl Idempotency_Conflict else Inr (r, True))"

definition enqueue_evidence ::
  "(store \<Rightarrow> service_error + resolved_request) \<Rightarrow> (evidence_request \<Rightarrow> string) \<Rightarrow> runtime_settings \<Rightarrow> int \<Rightarrow>
   string \<Rightarrow> string \<Rightarrow> evidence_request \<Rightarrow> string \<Rightarrow> bool \<Rightarrow> (evidence_row \<times> bool) service" where
  "enqueue_evidence resolve fingerprint_of rt max_attempts owner case_public rq key runner = do {
     found \<leftarrow> transact (\<lambda>_ s. (required_case owner case_public s, s));
     case found of None \<Rightarrow> State_Monad.return (Inl Evidence_Not_Found) | Some c \<Rightarrow> do {
     existing \<leftarrow> transact (\<lambda>_ s. (by_key (wc_id c) key s, s));
     case existing of
       Some r \<Rightarrow> State_Monad.return (replay_of r (fingerprint_of rq))
     | None \<Rightarrow> do {
     resolved \<leftarrow> transact (\<lambda>_ s. (resolve s, s));
     case resolved of Inl e \<Rightarrow> State_Monad.return (Inl e) | Inr rr \<Rightarrow>
     if wc_environment (rr_case rr) \<noteq> ''live'' \<or> rr_source_mode rr \<noteq> ''real''
     then State_Monad.return (Inl Evidence_Ineligible)
     else case runtime_limitation (rr_selection rr) runner rt of
       Some code \<Rightarrow> State_Monad.return (Inl (Evidence_Unavailable code))
     | None \<Rightarrow> do {
     active \<leftarrow> transact (\<lambda>_ s. (active_selection (wc_id (rr_case rr)) (rr_snapshot_id rr) rq s, s));
     case active of
       Some a \<Rightarrow> do {
         replay \<leftarrow> transact (\<lambda>_ s. (by_key (wc_id (rr_case rr)) key s, s));
         State_Monad.return (case replay of
             Some r \<Rightarrow> replay_of r (fingerprint_of rq)
           | None \<Rightarrow> Inl (Already_Active (cv_public a))) }
     | None \<Rightarrow> do {
     inserted \<leftarrow> transact (\<lambda>t s.
       let r = queued_evidence_row rr rq key (fingerprint_of rq) max_attempts
             (new_id (map cv_id (st_evidence s))) (tn_token t) (tn_now t)
       in case insert_evidence r s of None \<Rightarrow> (None, s) | Some s' \<Rightarrow> (Some r, s'));
     case inserted of
       Some r \<Rightarrow> State_Monad.return (Inr (r, False))
     | None \<Rightarrow> do {
         replay \<leftarrow> transact (\<lambda>_ s. (by_key (wc_id (rr_case rr)) key s, s));
         case replay of
           Some r \<Rightarrow> State_Monad.return (replay_of r (fingerprint_of rq))
         | None \<Rightarrow> do {
             active \<leftarrow> transact (\<lambda>_ s.
               (active_selection (wc_id (rr_case rr)) (rr_snapshot_id rr) rq s, s));
             State_Monad.return (Inl (case active of
                 Some a \<Rightarrow> Already_Active (cv_public a) | None \<Rightarrow> Integrity_Error)) } } } } } } }"

section \<open>Cancelling\<close>

definition ev_queued_cancel_row :: "int \<Rightarrow> evidence_row \<Rightarrow> evidence_row" where
  "ev_queued_cancel_row now r =
    r\<lparr> cv_state := Cancelled, cv_stage := Stage_Terminal, cv_cancel := Some now,
       cv_completed := Some now, cv_updated := now, cv_next := None, cv_token := None,
       cv_lease := None, cv_checkpoint := (''cancelled'', False), cv_version := cv_version r + 1 \<rparr>"

definition ev_running_cancel_row :: "int \<Rightarrow> evidence_row \<Rightarrow> evidence_row" where
  "ev_running_cancel_row now r =
    r\<lparr> cv_cancel := Some now, cv_updated := now, cv_version := cv_version r + 1 \<rparr>"

text \<open>The compare-and-swap on the status version the request observed.\<close>

definition cancel_swap :: "int \<Rightarrow> evidence_row \<Rightarrow> int \<Rightarrow> store \<Rightarrow> nat \<times> store" where
  "cancel_swap case_id observed now s =
    (if cv_state observed = Queued then
       update_evidence (\<lambda>r. cv_id r = cv_id observed \<and> cv_case r = case_id \<and> cv_state r = Queued \<and>
         cv_version r = cv_version observed) (ev_queued_cancel_row now) s
     else update_evidence (\<lambda>r. cv_id r = cv_id observed \<and> cv_case r = case_id \<and> cv_state r = Running \<and>
         cv_version r = cv_version observed \<and> cv_cancel r = None) (ev_running_cancel_row now) s)"

definition find_evidence :: "int \<Rightarrow> string \<Rightarrow> store \<Rightarrow> evidence_row option" where
  "find_evidence case_id public s =
    sql_find (\<lambda>r. cv_case r = case_id \<and> cv_public r = public) (st_evidence s)"

definition read_back :: "int \<Rightarrow> string \<Rightarrow> (evidence_row \<times> bool) service" where
  "read_back case_id public = do {
     refreshed \<leftarrow> transact (\<lambda>_ s. (find_evidence case_id public s, s));
     State_Monad.return (case refreshed of
         None \<Rightarrow> Inl Evidence_Not_Found
       | Some r \<Rightarrow> Inr (r, cv_state r = Running)) }"

fun cancel_loop :: "nat \<Rightarrow> int \<Rightarrow> string \<Rightarrow> (evidence_row \<times> bool) service" where
  "cancel_loop 0 case_id public = do {
     job \<leftarrow> transact (\<lambda>_ s. (find_evidence case_id public s, s));
     State_Monad.return (case job of
         None \<Rightarrow> Inl Evidence_Not_Found
       | Some r \<Rightarrow> Inr (r, cv_state r = Running \<and> cv_cancel r \<noteq> None)) }"
| "cancel_loop (Suc n) case_id public = do {
     job \<leftarrow> transact (\<lambda>_ s. (find_evidence case_id public s, s));
     case job of
       None \<Rightarrow> State_Monad.return (Inl Evidence_Not_Found)
     | Some r \<Rightarrow>
         if terminal_state (cv_state r) then State_Monad.return (Inr (r, False))
         else if cv_state r = Running \<and> cv_cancel r \<noteq> None then read_back case_id public
         else do {
           swapped \<leftarrow> transact (\<lambda>t. cancel_swap case_id r (tn_now t));
           if swapped \<noteq> 1 then cancel_loop n case_id public
           else read_back case_id public } }"

definition cancel_attempts :: nat where "cancel_attempts = 8"

definition cancel_evidence :: "string \<Rightarrow> string \<Rightarrow> string \<Rightarrow> (evidence_row \<times> bool) service" where
  "cancel_evidence owner case_public public = do {
     found \<leftarrow> transact (\<lambda>_ s. (required_case owner case_public s, s));
     case found of
       None \<Rightarrow> State_Monad.return (Inl Evidence_Not_Found)
     | Some c \<Rightarrow> cancel_loop cancel_attempts (wc_id c) public }"

end
