(* ===== verification/Case_Evidence_Steps.thy ===== *)
theory Case_Evidence_Steps
  imports Case_Evidence_Service
begin

text \<open>
  The evidence jobs as a state machine: the changes a row can undergo, the invariant of the
  table, and the worker and the service as programs whose transactions only commit such changes.
\<close>

section \<open>Row steps\<close>

inductive evidence_row_step :: "string set \<Rightarrow> evidence_row \<Rightarrow> evidence_row \<Rightarrow> bool" for A where
  recovered: "cv_state r = Running \<Longrightarrow> cv_cancel r = None \<Longrightarrow> cv_attempts r < cv_max r \<Longrightarrow>
    evidence_row_step A r (ev_recovered_row now r)"
| cancelled: "cv_state r = Running \<Longrightarrow> cv_cancel r \<noteq> None \<Longrightarrow>
    evidence_row_step A r (ev_cancelled_row now r)"
| cancel_conflict: "cv_state r = Running \<Longrightarrow> evidence_row_step A r (ev_cancel_conflict_row now r)"
| failed: "cv_state r = Running \<Longrightarrow> cv_cancel r = None \<Longrightarrow> cv_progress r = 0 \<Longrightarrow>
    evidence_row_step A r (ev_failed_row code now r)"
| artifact_conflict: "cv_state r = Running \<Longrightarrow> cv_cancel r = None \<Longrightarrow>
    evidence_row_step A r (ev_failed_row code now (clear_artifact_bindings r))"
| partial: "cv_state r = Running \<Longrightarrow> cv_cancel r = None \<Longrightarrow> 0 < cv_progress r \<Longrightarrow>
    evidence_row_step A r (ev_partial_row code digest now r)"
| invalid: "cv_state r = Running \<Longrightarrow> cv_cancel r = None \<Longrightarrow>
    evidence_row_step A r (ev_invalid_row code now r)"
| succeeded: "cv_state r = Running \<Longrightarrow> cv_cancel r = None \<Longrightarrow> cv_progress r = 4 \<Longrightarrow>
    evidence_row_step A r (ev_succeeded_row digest now (ev_finalizing_row now r))"
| claimed: "ev_claimable now r \<Longrightarrow> t \<in> A \<Longrightarrow> evidence_row_step A r (ev_claimed_row cf t now r)"
| advanced: "cv_state r = Running \<Longrightarrow> evidence_row_step A r (ev_advanced_row cf (stage_of k) now r)"
| heartbeat: "cv_state r = Running \<Longrightarrow> evidence_row_step A r (ev_heartbeat_row cf now wall r)"
| bound: "cv_state r = Running \<Longrightarrow> cv_progress r \<le> p \<Longrightarrow>
    b = r\<lparr> cv_artifacts := a, cv_level := l, cv_progress := p \<rparr> \<Longrightarrow> evidence_checks b \<Longrightarrow>
    evidence_row_step A r (ev_bound_row cf n now b)"
| retry: "cv_state r = Running \<Longrightarrow> cv_cancel r = None \<Longrightarrow> evidence_row_step A r (ev_retry_row code at now r)"
| queued_cancel: "cv_state r = Queued \<Longrightarrow> evidence_row_step A r (ev_queued_cancel_row now r)"
| running_cancel: "cv_state r = Running \<Longrightarrow> evidence_row_step A r (ev_running_cancel_row now r)"

lemmas ev_row_defs = ev_close_def ev_cancelled_row_def ev_cancel_conflict_row_def ev_failed_row_def
  ev_partial_row_def ev_invalid_row_def ev_finalizing_row_def ev_succeeded_row_def
  ev_recovered_row_def ev_retry_row_def ev_claimed_row_def ev_advanced_row_def ev_heartbeat_row_def
  ev_bound_row_def ev_queued_cancel_row_def ev_running_cancel_row_def clear_artifact_bindings_def

definition evidence_row_ok :: "evidence_row \<Rightarrow> bool" where
  "evidence_row_ok r \<longleftrightarrow> evidence_checks r \<and>
     (cv_result r \<noteq> None \<longleftrightarrow> cv_state r = Partial \<or> cv_state r = Succeeded) \<and>
     (cv_state r = Running \<longrightarrow> 1 \<le> cv_attempts r)"

text \<open>The parts of the CHECK constraints, over the columns they read.\<close>

lemma lifecycle_cong:
  "cv_state q = cv_state r \<Longrightarrow> cv_stage q = cv_stage r \<Longrightarrow> cv_next q = cv_next r \<Longrightarrow>
   cv_token q = cv_token r \<Longrightarrow> cv_lease q = cv_lease r \<Longrightarrow> cv_completed q = cv_completed r \<Longrightarrow>
   cv_started q = cv_started r \<Longrightarrow> evidence_lifecycle q = evidence_lifecycle r"
  by (simp only: evidence_lifecycle_def)

lemma prefix_cong:
  "cv_artifacts q = cv_artifacts r \<Longrightarrow> cv_progress q = cv_progress r \<Longrightarrow> cv_level q = cv_level r \<Longrightarrow>
   evidence_artifact_prefix q = evidence_artifact_prefix r"
  by (simp only: evidence_artifact_prefix_def)

lemma prefix_cleared: "cv_artifacts r = no_artifacts \<Longrightarrow> cv_progress r = 0 \<Longrightarrow> cv_level r = Normalized \<Longrightarrow>
   evidence_artifact_prefix r"
  by (simp add: evidence_artifact_prefix_def no_artifacts_def)

lemma step_prefix:
  "evidence_row_step A r r' \<Longrightarrow> evidence_artifact_prefix r \<Longrightarrow> evidence_artifact_prefix r'"
proof (induction rule: evidence_row_step.induct)
  case (bound r p b a l cf n now)
  then have "evidence_artifact_prefix b" by (simp only: evidence_checks_def)
  then show ?case by (simp add: ev_row_defs cong: prefix_cong) 
qed (simp_all add: ev_row_defs prefix_cleared cong: prefix_cong)


lemma step_bounds:
  "evidence_row_step A r r' \<Longrightarrow> 0 \<le> cv_progress r \<and> cv_progress r \<le> 4 \<Longrightarrow>
   0 \<le> cv_progress r' \<and> cv_progress r' \<le> 4"
proof (induction rule: evidence_row_step.induct)
  case (bound r p b a l cf n now)
  then have "0 \<le> cv_progress b" "cv_progress b \<le> 4" by (simp_all only: evidence_checks_def)
  then show ?case by (simp add: ev_row_defs)
qed (simp_all add: ev_row_defs)

lemma stage_of_facts [simp]:
  "stage_of k \<in> {Stage_Validating, Stage_Capturing_Trace, Stage_Verifying_Bocs,
     Stage_Proving_Inclusion, Stage_Building_Native_Ledger, Stage_Finalizing}"
  by (cases k) simp_all

lemma step_lifecycle:
  "evidence_row_step A r r' \<Longrightarrow> evidence_lifecycle r \<Longrightarrow> evidence_lifecycle r'"
proof (induction rule: evidence_row_step.induct)
  case (advanced r cf k now)
  then show ?case using stage_of_facts [of k] by (auto simp: evidence_lifecycle_def ev_row_defs)
next
  case (claimed now r t cf)
  then show ?case by (auto simp: evidence_lifecycle_def ev_row_defs ev_claimable_def split: option.splits)
qed (auto simp: evidence_lifecycle_def ev_row_defs)

lemma lifecycle_stage: "evidence_lifecycle r \<Longrightarrow>
   cv_stage r \<notin> {Stage_Ingesting, Stage_Cancelling, Stage_Completed, Stage_Completed_With_Limitations,
     Stage_Failed, Stage_Cancelled}"
  by (auto simp: evidence_lifecycle_def)

lemma step_columns:
  "evidence_row_step A r r' \<Longrightarrow> evidence_lifecycle r \<Longrightarrow> evidence_cancel_state r \<Longrightarrow>
   0 \<le> cv_attempts r \<and> 1 \<le> cv_max r \<and> cv_attempts r \<le> cv_max r \<Longrightarrow>
   evidence_cancel_state r' \<and> 0 \<le> cv_attempts r' \<and> 1 \<le> cv_max r' \<and> cv_attempts r' \<le> cv_max r'"
  by (induction rule: evidence_row_step.induct)
    (auto simp: evidence_cancel_state_def ev_row_defs ev_claimable_def)

lemma step_state_progress: "evidence_row_step A r r' \<Longrightarrow> evidence_state_progress r'"
proof (induction rule: evidence_row_step.induct)
  case (bound r p b a l cf n now)
  then show ?case by (simp add: evidence_state_progress_def ev_row_defs)
qed (simp_all add: evidence_state_progress_def ev_row_defs ev_claimable_def)

lemma step_checks: "evidence_row_step A r r' \<Longrightarrow> evidence_checks r \<Longrightarrow> evidence_checks r'"
  unfolding evidence_checks_def [of r]
  by (simp only: evidence_checks_def [of r'])
    (blast dest: step_columns step_lifecycle lifecycle_stage step_bounds step_prefix step_state_progress)

lemma evidence_row_step_ok: "evidence_row_step A r r' \<Longrightarrow> evidence_row_ok r \<Longrightarrow> evidence_row_ok r'"
proof -
  assume s: "evidence_row_step A r r'" and ok: "evidence_row_ok r"
  have "(cv_result r' \<noteq> None \<longleftrightarrow> cv_state r' = Partial \<or> cv_state r' = Succeeded) \<and>
      (cv_state r' = Running \<longrightarrow> 1 \<le> cv_attempts r')"
  proof -
    have "(cv_result r \<noteq> None \<longleftrightarrow> cv_state r = Partial \<or> cv_state r = Succeeded)"
      "cv_state r = Running \<longrightarrow> 1 \<le> cv_attempts r" "0 \<le> cv_attempts r"
      using ok by (simp_all add: evidence_row_ok_def evidence_checks_def)
    with s show ?thesis
      by (induction rule: evidence_row_step.induct) (auto simp: ev_row_defs ev_claimable_def)
  qed
  with s ok show ?thesis by (simp add: evidence_row_ok_def step_checks)
qed

lemma evidence_row_step_facts:
  "evidence_row_step A r r' \<Longrightarrow> cv_id r' = cv_id r \<and> cv_case r' = cv_case r \<and> cv_public r' = cv_public r \<and>
     cv_selection r' = cv_selection r \<and> cv_idempotency r' = cv_idempotency r \<and>
     cv_fingerprint r' = cv_fingerprint r \<and> active_state (cv_state r) \<and>
     cv_version r \<le> cv_version r' \<and> cv_attempts r \<le> cv_attempts r' \<and> cv_max r' = cv_max r \<and>
     (cv_progress r \<le> cv_progress r' \<or> cv_state r' = Failed) \<and>
     (cv_token r' = cv_token r \<or> cv_token r' = None \<or>
        (\<exists>t \<in> A. cv_token r' = Some t) \<and> cv_attempts r' = cv_attempts r + 1)"
  by (induction rule: evidence_row_step.induct) (auto simp: ev_row_defs ev_claimable_def)

interpretation evidence: leased_rows evidence_row_step cv_id cv_state cv_token cv_version cv_attempts
  cv_max evidence_row_ok
proof (unfold_locales, goal_cases)
  case (1 A r r')
  then show ?case by (rule evidence_row_step_ok)
next
  case (6 A r r')
  from evidence_row_step_facts [OF this] show ?case by metis
next
  case (7 r)
  then show ?case by (simp add: evidence_row_ok_def evidence_checks_def)
qed (use evidence_row_step_facts in blast)+

section \<open>Tables\<close>

text \<open>The invariant of the table: its rows and its unique indexes.\<close>

definition unique_keys :: "evidence_row list \<Rightarrow> bool" where
  "unique_keys rows \<longleftrightarrow> distinct (map cv_public rows) \<and>
     distinct (map (\<lambda>r. (cv_case r, cv_idempotency r)) rows)"

definition unique_active :: "evidence_row list \<Rightarrow> bool" where
  "unique_active rows \<longleftrightarrow> distinct (map selection_key (filter (\<lambda>r. active_state (cv_state r)) rows))"

definition evidence_ok :: "store \<Rightarrow> bool" where
  "evidence_ok s \<longleftrightarrow> evidence.table_ok (st_evidence s) \<and> unique_keys (st_evidence s) \<and>
     unique_active (st_evidence s)"

text \<open>A transaction in a store that keeps the invariant: every row stays or steps, and a new row
  respects the unique indexes.\<close>

definition evidence_step :: "string set \<Rightarrow> store \<Rightarrow> store \<Rightarrow> bool" where
  "evidence_step A s s' \<longleftrightarrow> (evidence_ok s \<longrightarrow>
     evidence.table_step A (st_evidence s) (st_evidence s') \<and>
     unique_keys (st_evidence s') \<and> unique_active (st_evidence s'))"

lemma evidence_step_ok: "evidence_step A s s' \<Longrightarrow> evidence_ok s \<Longrightarrow> evidence_ok s'"
  using evidence.table_step_ok by (auto simp: evidence_step_def evidence_ok_def)

lemma evidence_steps:
  "(evidence_step A)\<^sup>*\<^sup>* s s' \<Longrightarrow> evidence_ok s \<Longrightarrow>
   evidence_ok s' \<and> (evidence.table_step A)\<^sup>*\<^sup>* (st_evidence s) (st_evidence s')"
proof (induction rule: rtranclp_induct)
  case (step t u)
  then have "evidence_ok t" "(evidence.table_step A)\<^sup>*\<^sup>* (st_evidence s) (st_evidence t)" by auto
  moreover from this step.hyps(2) have "evidence.table_step A (st_evidence t) (st_evidence u)"
    by (simp add: evidence_step_def)
  ultimately show ?case using evidence_step_ok [OF step.hyps(2)]
    by (auto intro: rtranclp.rtrancl_into_rtrancl)
qed simp

lemma distinct_filter_map:
  "distinct (map g (filter P xs)) \<Longrightarrow> (\<And>x. x \<in> set xs \<Longrightarrow> g (f x) = g x \<and> (Q (f x) \<longrightarrow> P x)) \<Longrightarrow>
   distinct (map g (filter Q (map f xs)))"
  by (induction xs) (auto split: if_splits)

text \<open>Rows that stay or step in place.\<close>

lemma map_evidence_step:
  assumes rows: "st_evidence s' = map f (st_evidence s)"
    and f: "\<And>r. evidence_ok s \<Longrightarrow> r \<in> set (st_evidence s) \<Longrightarrow> f r = r \<or> evidence_row_step A r (f r)"
  shows "evidence_step A s s'"
  unfolding evidence_step_def
proof (intro impI conjI)
  assume ok: "evidence_ok s"
  note f = f [OF ok]
  show "evidence.table_step A (st_evidence s) (st_evidence s')"
    unfolding evidence.table_step_def rows by (intro exI [of _ f] exI [of _ "[]"]) (use f in auto)
  have same: "cv_public (f r) = cv_public r \<and> cv_case (f r) = cv_case r \<and> cv_idempotency (f r) = cv_idempotency r \<and>
      selection_key (f r) = selection_key r \<and> (active_state (cv_state (f r)) \<longrightarrow> active_state (cv_state r))"
    if "r \<in> set (st_evidence s)" for r
    using f [OF that] evidence_row_step_facts [of A r "f r"] by (auto simp: selection_key_def)
  have "map (\<lambda>r. (cv_case r, cv_idempotency r)) (map f (st_evidence s)) =
      map (\<lambda>r. (cv_case r, cv_idempotency r)) (st_evidence s)"
    "map cv_public (map f (st_evidence s)) = map cv_public (st_evidence s)"
    using same by (simp_all add: comp_def)
  with ok show "unique_keys (st_evidence s')" by (simp only: unique_keys_def evidence_ok_def rows)
  show "unique_active (st_evidence s')"
    using ok same unfolding unique_active_def evidence_ok_def rows
    by (intro distinct_filter_map [where P = "\<lambda>r. active_state (cv_state r)"]) auto
qed

lemma evidence_step_refl: "st_evidence s' = st_evidence s \<Longrightarrow> evidence_step A s s'"
  by (rule map_evidence_step [of _ id]) simp_all

lemma update_evidence_rows [simp]:
  "st_evidence (snd (update_evidence p f s)) = map (\<lambda>r. if p r then f r else r) (st_evidence s)"
  "fst (update_evidence p f s) = length (filter p (st_evidence s))"
  by (simp_all add: update_evidence_def sql_update_def)

lemma update_evidence_step:
  assumes "\<And>r. evidence_ok s \<Longrightarrow> r \<in> set (st_evidence s) \<Longrightarrow> p r \<Longrightarrow> evidence_row_step A r (f r)"
  shows "evidence_step A s (snd (update_evidence p f s))"
  by (rule map_evidence_step [OF update_evidence_rows(1)]) (use assms in auto)

lemma unique_evidence_id:
  "distinct (map cv_id rows) \<Longrightarrow> q \<in> set rows \<Longrightarrow> r \<in> set rows \<Longrightarrow> cv_id q = cv_id r \<Longrightarrow> q = r"
  by (induction rows) (auto simp: rev_image_eqI)

text \<open>Writing back a stepped row.\<close>

lemma store_row_step:
  assumes job: "job \<in> set (st_evidence s)"
    and step: "evidence_ok s \<Longrightarrow> evidence_row_step A job r"
  shows "evidence_step A s (store_row r s)"
  unfolding store_row_def
proof (rule update_evidence_step)
  fix q assume ok: "evidence_ok s" and q: "q \<in> set (st_evidence s)" "cv_id q = cv_id r"
  have "cv_id r = cv_id job" using evidence_row_step_facts [OF step [OF ok]] by simp
  with ok q job have "q = job"
    using unique_evidence_id by (auto simp: evidence_ok_def evidence.table_ok_def)
  with step [OF ok] show "evidence_row_step A q r" by simp
qed

lemma insert_evidence_step:
  assumes "insert_evidence r s = Some s'" "cv_token r = None" "cv_result r = None" "cv_state r = Queued"
  shows "evidence_step A s s'"
proof -
  have s': "st_evidence s' = st_evidence s @ [r]" and checks: "evidence_checks r"
    and new: "\<forall>q \<in> set (st_evidence s). cv_id q \<noteq> cv_id r \<and> cv_public q \<noteq> cv_public r \<and>
      (cv_case q, cv_idempotency q) \<noteq> (cv_case r, cv_idempotency r) \<and>
      \<not> (active_state (cv_state q) \<and> selection_key q = selection_key r)"
    using assms(1) by (auto simp: insert_evidence_def split: if_splits)
  have ok: "evidence_row_ok r" using checks assms by (simp add: evidence_row_ok_def)
  show ?thesis
    unfolding evidence_step_def s'
  proof (intro impI conjI)
    show "evidence.table_step A (st_evidence s) (st_evidence s @ [r])"
      unfolding evidence.table_step_def
      by (intro exI [of _ id] exI [of _ "[r]"]) (use ok assms new in auto)
    assume inv: "evidence_ok s"
    then show "unique_keys (st_evidence s @ [r])" using new by (auto simp: evidence_ok_def unique_keys_def)
    show "unique_active (st_evidence s @ [r])"
      using inv new assms by (auto simp: evidence_ok_def unique_active_def)
  qed
qed

section \<open>Closing rows\<close>

named_theorems evidence_steps_intro

lemma terminal_cancel_step:
  "terminal_cancel_row s later job = Inr q \<Longrightarrow> cv_state job = Running \<Longrightarrow> cv_cancel job \<noteq> None \<Longrightarrow>
   evidence_row_step A job q"
  by (auto simp: terminal_cancel_row_def split: sum.splits evidence_exn.splits
      intro: evidence_row_step.cancelled evidence_row_step.cancel_conflict)

lemma terminal_row_step:
  assumes "terminal_row cf s later code job = Inr q" "cv_state job = Running" "0 \<le> cv_progress job"
  shows "evidence_row_step A job q"
proof (cases "cv_cancel job")
  case (Some c)
  with assms(1,2) show ?thesis by (auto simp: terminal_row_def intro: terminal_cancel_step)
next
  case None
  with assms show ?thesis
    by (auto simp: terminal_row_def bind_result_Inr split: sum.splits evidence_exn.splits if_splits
        intro: evidence_row_step.failed evidence_row_step.artifact_conflict evidence_row_step.partial)
qed

lemma success_row_Inr:
  assumes "success_row cf s now job = Inr q"
  obtains av content where "revalidated_artifacts s (ev_finalizing_row now job) = Inr av"
    "cv_progress job = 4" "result_content_of s (ev_finalizing_row now job) av = Inr content"
    "q = ev_succeeded_row (ec_result cf content) now (ev_finalizing_row now job)"
proof -
  have "cv_progress (ev_finalizing_row now job) = cv_progress job" by (simp add: ev_finalizing_row_def)
  with assms that show thesis by (auto simp: success_row_def Let_def bind_result_Inr split: if_splits)
qed

lemma success_row_step:
  "success_row cf s now job = Inr q \<Longrightarrow> cv_state job = Running \<Longrightarrow> cv_cancel job = None \<Longrightarrow>
   evidence_row_step A job q"
  by (erule success_row_Inr) (simp add: evidence_row_step.succeeded)

lemma commit_row_step:
  assumes "job \<in> set (st_evidence s)" "\<And>q. r = Inr q \<Longrightarrow> evidence_ok s \<Longrightarrow> evidence_row_step A job q"
  shows "evidence_step A s (snd (commit_row r a s))"
  using assms by (cases r) (auto simp: commit_row_def intro: evidence_step_refl store_row_step)

lemma fenced_row_step:
  assumes "\<And>job. job \<in> set (st_evidence s) \<Longrightarrow> p job \<Longrightarrow> evidence_step A s (snd (f job))"
  shows "evidence_step A s (snd (fenced_row p a f s))"
  using assms by (auto simp: fenced_row_def intro: evidence_step_refl dest: sql_find_Some split: option.split)

lemma ok_progress: "evidence_ok s \<Longrightarrow> job \<in> set (st_evidence s) \<Longrightarrow> 0 \<le> cv_progress job"
  by (auto simp: evidence_ok_def evidence.table_ok_def list_all_iff evidence_row_ok_def evidence_checks_def)

lemma ok_checks: "evidence_ok s \<Longrightarrow> job \<in> set (st_evidence s) \<Longrightarrow> evidence_checks job"
  by (auto simp: evidence_ok_def evidence.table_ok_def list_all_iff evidence_row_ok_def)

section \<open>Binding an artifact\<close>

lemma bind_values_shape:
  assumes "bind_values cl k v at = Inr f"
  obtains a l p where "f = (\<lambda>r. r\<lparr> cv_artifacts := a r, cv_level := l, cv_progress := p \<rparr>)"
    "\<And>r. p < 2 \<longrightarrow> ac_boc (a r) = ac_boc (cv_artifacts r)"
    "\<And>r. p < 3 \<longrightarrow> ac_inclusion (a r) = ac_inclusion (cv_artifacts r)"
    "\<And>r. p < 4 \<longrightarrow> ac_ledger (a r) = ac_ledger (cv_artifacts r)" "1 \<le> p"
proof (cases k)
  case Trace_Capture
  with assms show thesis
    by (auto simp: bind_values_def bind_trace_def bind_result_Inr intro: that)
next
  case Boc_Verification
  with assms show thesis
    by (auto simp: bind_values_def bind_boc_def bind_result_Inr intro: that)
next
  case Block_Inclusion
  with assms show thesis
    by (auto simp: bind_values_def bind_inclusion_def bind_result_Inr split: op_value.splits if_splits
        intro: that)
next
  case Native_Ledger
  with assms show thesis
    by (auto simp: bind_values_def bind_ledger_def bind_result_Inr intro: that)
qed

lemma checks_columns:
  assumes "evidence_checks r"
  shows "(ac_trace (cv_artifacts r) \<noteq> None \<longleftrightarrow> 1 \<le> cv_progress r) \<and>
     (ac_boc (cv_artifacts r) \<noteq> None \<longleftrightarrow> 2 \<le> cv_progress r) \<and>
     (ac_inclusion (cv_artifacts r) \<noteq> None \<longleftrightarrow> 3 \<le> cv_progress r) \<and>
     (ac_ledger (cv_artifacts r) \<noteq> None \<longleftrightarrow> 4 \<le> cv_progress r)"
  using assms prefix_columns prefix_valid by (simp add: evidence_checks_def)

lemma bind_values_step:
  assumes "bind_values cl k v at = Inr f" "cv_state r = Running" "evidence_checks r" "evidence_checks (f r)"
  shows "evidence_row_step A r (ev_bound_row cf n now (f r))"
proof -
  obtain a l p where f: "f = (\<lambda>r. r\<lparr> cv_artifacts := a r, cv_level := l, cv_progress := p \<rparr>)"
    and keep: "\<And>r. p < 2 \<longrightarrow> ac_boc (a r) = ac_boc (cv_artifacts r)"
      "\<And>r. p < 3 \<longrightarrow> ac_inclusion (a r) = ac_inclusion (cv_artifacts r)"
      "\<And>r. p < 4 \<longrightarrow> ac_ledger (a r) = ac_ledger (cv_artifacts r)" "1 \<le> p"
    by (rule bind_values_shape [OF assms(1)], rule that)
  have cols: "ac_boc (a r) \<noteq> None \<longleftrightarrow> 2 \<le> p" "ac_inclusion (a r) \<noteq> None \<longleftrightarrow> 3 \<le> p"
    "ac_ledger (a r) \<noteq> None \<longleftrightarrow> 4 \<le> p" "p \<le> 4"
    using checks_columns [OF assms(4)] assms(4) by (simp_all add: f evidence_checks_def)
  have "cv_progress r \<le> 4" using assms(3) by (simp add: evidence_checks_def)
  have "\<not> p < cv_progress r"
  proof
    assume less: "p < cv_progress r"
    have r: "ac_boc (cv_artifacts r) \<noteq> None \<longleftrightarrow> 2 \<le> cv_progress r"
      "ac_inclusion (cv_artifacts r) \<noteq> None \<longleftrightarrow> 3 \<le> cv_progress r"
      "ac_ledger (cv_artifacts r) \<noteq> None \<longleftrightarrow> 4 \<le> cv_progress r"
      using checks_columns [OF assms(3)] by simp_all
    consider "p = 1" | "p = 2" | "p = 3" using less \<open>cv_progress r \<le> 4\<close> keep(4) by linarith
    then show False
    proof cases
      case 1
      with less r(1) have "ac_boc (cv_artifacts r) \<noteq> None" by linarith
      moreover have "ac_boc (a r) = ac_boc (cv_artifacts r)" using keep(1) [of r] 1 by linarith
      ultimately show False using cols(1) 1 by simp
    next
      case 2
      with less r(2) have "ac_inclusion (cv_artifacts r) \<noteq> None" by linarith
      moreover have "ac_inclusion (a r) = ac_inclusion (cv_artifacts r)" using keep(2) [of r] 2 by linarith
      ultimately show False using cols(2) 2 by simp
    next
      case 3
      with less r(3) have "ac_ledger (cv_artifacts r) \<noteq> None" by linarith
      moreover have "ac_ledger (a r) = ac_ledger (cv_artifacts r)" using keep(3) [of r] 3 by linarith
      ultimately show False using cols(3) 3 by simp
    qed
  qed
  then have "cv_progress r \<le> p" by simp
  then show ?thesis
    using assms(2,4) unfolding f by (intro evidence_row_step.bound [OF _ _ refl]) simp_all
qed

lemma bind_statement_step:
  assumes "bind_values cl k v at = Inr f"
  shows "evidence_step A s (snd (bind_statement cf cl f now s))"
proof (cases "sql_find (ev_owned cl now) (st_evidence s)")
  case None
  then show ?thesis by (simp add: bind_statement_def evidence_step_refl)
next
  case (Some job)
  then have job: "job \<in> set (st_evidence s)" "cv_state job = Running"
    using sql_find_Some [OF Some] by (simp_all add: ev_owned_def)
  show ?thesis
  proof (cases "evidence_checks (f job)")
    case True
    have "evidence_step A s (snd (commit_row
        (bind_result (revalidated_artifacts (store_row (f job) s) (f job)) (\<lambda>_.
           Inr (ev_bound_row cf (cv_progress (f job)) now (f job)))) () s))"
      by (rule commit_row_step [OF job(1)])
        (use bind_values_step [OF assms job(2) ok_checks [OF _ job(1)] True] in \<open>auto simp: bind_result_Inr\<close>)
    with Some True show ?thesis by (simp add: bind_statement_def Let_def)
  qed (simp add: Some bind_statement_def Let_def evidence_step_refl)
qed

end
