(* ===== verification/Case_Evidence_Progress.thy ===== *)
theory Case_Evidence_Progress
  imports Case_Evidence_Steps
begin

text \<open>
  The evidence worker (\<^verbatim>\<open>case_evidence_jobs.py\<close>) and the evidence service
  (\<^verbatim>\<open>wallet_case_evidence.py\<close>) only commit steps of the job state machine, under every
  schedule of the other sessions; what that gives for the stored jobs.
\<close>

section \<open>The worker keeps to the steps\<close>

abbreviation ekeeps :: "string set \<Rightarrow> 'a prog \<Rightarrow> bool" where
  "ekeeps A p \<equiv> keeps (evidence_step A) A p"

lemma ekeeps_raise [evidence_steps_intro]: "ekeeps A (raise e)"
  unfolding raise_def by (rule keeps_return)

lemma ekeeps_yield [evidence_steps_intro]: "ekeeps A (yield a)"
  unfolding yield_def by (rule keeps_return)

lemma ekeeps_seq [evidence_steps_intro]: "ekeeps A p \<Longrightarrow> (\<And>a. ekeeps A (q a)) \<Longrightarrow> ekeeps A (seq p q)"
  unfolding seq_def by (rule keeps_bind) (auto split: sum.split intro: ekeeps_raise)

lemma ekeeps_handle [evidence_steps_intro]:
  "ekeeps A p \<Longrightarrow> (\<And>e. ekeeps A (h e)) \<Longrightarrow> (\<And>a. ekeeps A (q a)) \<Longrightarrow> ekeeps A (handle p h q)"
  unfolding handle_def by (rule keeps_bind) (auto split: sum.split)

lemma ekeeps_session [evidence_steps_intro]:
  assumes "\<And>t s. tn_token t \<in> A \<Longrightarrow> evidence_step A s (snd (f t s))"
  shows "ekeeps A (session f)"
  unfolding session_def transact_def
  by (intro keeps_turn keeps_with_store) (use assms in auto)

lemma ekeeps_read [evidence_steps_intro]: "ekeeps A (session (\<lambda>t s. (f t s, s)))"
  by (rule ekeeps_session) (simp add: evidence_step_refl)

lemma ekeeps_stopped [evidence_steps_intro]: "ekeeps A stopped"
  unfolding stopped_def by (intro keeps_bind keeps_stop ekeeps_yield)

lemma ekeeps_clock [evidence_steps_intro]: "ekeeps A clock"
  unfolding clock_def by (intro keeps_turn ekeeps_yield)

lemma ekeeps_if [evidence_steps_intro]:
  "(b \<Longrightarrow> ekeeps A p) \<Longrightarrow> (\<not> b \<Longrightarrow> ekeeps A q) \<Longrightarrow> ekeeps A (if b then p else q)"
  by simp

lemma ekeeps_recovered_cancel [evidence_steps_intro]: "ekeeps A (finish_recovered_cancel i)"
  unfolding finish_recovered_cancel_def
  by (intro ekeeps_session fenced_row_step commit_row_step) (auto intro: terminal_cancel_step)

lemma ekeeps_expired [evidence_steps_intro]: "ekeeps A (finish_expired cf cutoff x)"
  unfolding finish_expired_def split_def
  by (intro ekeeps_session fenced_row_step commit_row_step)
    (auto intro: terminal_cancel_step terminal_row_step ok_progress split: if_splits)

lemma ekeeps_count [evidence_steps_intro]: "(\<And>x. ekeeps A (f x)) \<Longrightarrow> ekeeps A (count_true f xs)"
  by (induction xs) (auto intro!: evidence_steps_intro)

lemma recover_scan_step: "evidence_step A s (snd (recover_scan now s))"
  unfolding recover_scan_def Let_def split_def snd_conv
  by (intro update_evidence_step) (auto simp: ev_expired_def intro: evidence_row_step.recovered)

lemma ekeeps_recover [evidence_steps_intro]: "ekeeps A (ev_recover_expired cf)"
  unfolding ev_recover_expired_def split_def
  by (intro evidence_steps_intro) (simp add: recover_scan_step)

lemma claim_update_step:
  "t \<in> A \<Longrightarrow> evidence_step A s (snd (ev_claim_update cf now t i s))"
  using update_evidence_step [of s "\<lambda>r. cv_id r = i \<and> ev_claimable now r" A "ev_claimed_row cf t now"]
  by (auto simp: ev_claim_update_def Let_def split_def intro: evidence_row_step.claimed evidence_step_refl)

lemma ekeeps_claim [evidence_steps_intro]: "ekeeps A (ev_claim_next cf)"
  unfolding ev_claim_next_def split_def Let_def
  by (intro evidence_steps_intro) (auto split: option.split intro!: evidence_steps_intro claim_update_step)

lemma fenced_update_step:
  assumes "\<And>r. cv_state r = Running \<Longrightarrow> cv_cancel r = None \<Longrightarrow> evidence_row_step A r (f now r)"
  shows "evidence_step A s (snd (ev_fenced_update cl f now s))"
  unfolding ev_fenced_update_def Let_def split_def snd_conv
  by (intro update_evidence_step assms) (auto simp: ev_owned_def)

lemma ekeeps_advance [evidence_steps_intro]: "ekeeps A (ev_advance cf cl (stage_of k))"
  unfolding ev_advance_def by (intro ekeeps_session fenced_update_step evidence_row_step.advanced)

lemma ekeeps_heartbeat [evidence_steps_intro]: "ekeeps A (ev_heartbeat cf cl)"
  unfolding ev_heartbeat_def Let_def split_def
  by (intro evidence_steps_intro)
    (auto intro!: update_evidence_step simp: ev_owned_def intro: evidence_row_step.heartbeat)

lemma ekeeps_columns [evidence_steps_intro]:
  "ekeeps A (ev_read cl f)" "ekeeps A (ev_cancelled cl)" "ekeeps A (has_binding cl k)"
  "ekeeps A (revalidate_bound cl)" "ekeeps A (revalidate_selection resolve rt cl)"
  unfolding ev_read_def ev_cancelled_def has_binding_def revalidate_bound_def revalidate_selection_def
  by (rule ekeeps_read)+

lemma ekeeps_finish_cancelled [evidence_steps_intro]: "ekeeps A (ev_finish_cancelled cl)"
  unfolding ev_finish_cancelled_def
proof (intro ekeeps_session)
  fix t s
  show "evidence_step A s (snd (case sql_find (ev_owned cl (tn_now t)) (st_evidence s) of None \<Rightarrow> (Inr (), s)
      | Some job \<Rightarrow> if cv_cancel job = None then (Inr (), s)
        else commit_row (terminal_cancel_row s (tn_later t) job) () s))"
    by (cases "sql_find (ev_owned cl (tn_now t)) (st_evidence s)")
      (auto simp: ev_owned_def evidence_step_refl dest!: sql_find_Some
        intro!: commit_row_step intro: terminal_cancel_step)
qed

lemma ekeeps_retry [evidence_steps_intro]: "ekeeps A (ev_schedule_retry cf cl code)"
  unfolding ev_schedule_retry_def
  by (intro evidence_steps_intro) (intro fenced_update_step evidence_row_step.retry)

lemma ekeeps_failure [evidence_steps_intro]: "ekeeps A (ev_finish_failure cf cl code)"
  unfolding ev_finish_failure_def
  by (intro evidence_steps_intro)
    (intro fenced_row_step commit_row_step; auto simp: ev_owned_def intro: terminal_row_step ok_progress)

lemma ekeeps_invalid [evidence_steps_intro]: "ekeeps A (ev_finish_invalid_selection cl code)"
  unfolding ev_finish_invalid_selection_def
  by (intro ekeeps_session fenced_row_step commit_row_step)
    (auto simp: ev_owned_def intro: terminal_cancel_step evidence_row_step.invalid split: if_splits)

lemma ekeeps_success [evidence_steps_intro]: "ekeeps A (ev_finish_success cf cl)"
  unfolding ev_finish_success_def
  by (intro evidence_steps_intro)
    (intro fenced_row_step commit_row_step; auto simp: ev_owned_def intro: success_row_step)

lemma ekeeps_bind [evidence_steps_intro]: "ekeeps A (bind_artifact cf cl k v)"
  unfolding bind_artifact_def
  by (intro evidence_steps_intro)
    (auto split: sum.split intro!: evidence_steps_intro intro: bind_statement_step)

lemma ekeeps_waiting [evidence_steps_intro]: "ekeeps A (waiting_loop cf cl n flags)"
  by (induction n arbitrary: flags) (auto intro!: evidence_steps_intro)

lemma ekeeps_call [evidence_steps_intro]: "ekeeps A (call_with_heartbeats cf cl operation)"
  unfolding call_with_heartbeats_def by (intro evidence_steps_intro keeps_return)

lemma ekeeps_retry_or_fail [evidence_steps_intro]: "ekeeps A (retry_or_fail cf cl code)"
  unfolding retry_or_fail_def by (intro evidence_steps_intro)

lemma ekeeps_stage_failure [evidence_steps_intro]: "ekeeps A (stage_failure cf cl e)"
  unfolding stage_failure_def by (auto split: sum.split intro!: evidence_steps_intro)

lemma ekeeps_stages [evidence_steps_intro]: "ekeeps A (run_stages cf ex cl ks)"
proof (induction ks)
  case (Cons k ks)
  then show ?case unfolding run_stages.simps by (intro evidence_steps_intro)
qed (simp add: ekeeps_success)

lemma ekeeps_execute [evidence_steps_intro]: "ekeeps A (ev_execute_claimed cf ex cl)"
  unfolding ev_execute_claimed_def execute_stages_def
  by (intro evidence_steps_intro) (auto split: evidence_exn.split intro!: evidence_steps_intro)

lemma ekeeps_run_once: "ekeeps A (ev_run_once cf ex)"
  unfolding ev_run_once_def
  by (intro evidence_steps_intro) (auto split: option.split intro!: evidence_steps_intro)

section \<open>The service keeps to the steps\<close>

lemma ekeeps_query: "ekeeps A (transact (\<lambda>t s. (f t s, s)))"
  by (intro keeps_transact r_into_rtranclp evidence_step_refl) simp

lemma cancel_swap_step: "evidence_step A s (snd (cancel_swap case_id observed now s))"
  unfolding cancel_swap_def
  by (auto intro!: update_evidence_step intro: evidence_row_step.queued_cancel evidence_row_step.running_cancel)

lemma ekeeps_swap: "ekeeps A (transact (\<lambda>t. cancel_swap case_id r (tn_now t)))"
  by (intro keeps_transact r_into_rtranclp cancel_swap_step)

lemma ekeeps_read_back: "ekeeps A (read_back case_id public)"
  unfolding read_back_def by (intro keeps_bind ekeeps_query keeps_return)

lemma ekeeps_cancel_loop: "ekeeps A (cancel_loop n case_id public)"
proof (induction n)
  case 0
  then show ?case unfolding cancel_loop.simps by (intro keeps_bind ekeeps_query keeps_return)
next
  case (Suc n)
  then show ?case unfolding cancel_loop.simps
    by (intro keeps_bind ekeeps_query)
      (auto split: option.split intro!: keeps_return keeps_bind ekeeps_swap ekeeps_read_back)
qed

lemma ekeeps_cancel: "ekeeps A (cancel_evidence owner case_public public)"
  unfolding cancel_evidence_def
  by (intro keeps_bind ekeeps_query) (auto split: option.split intro!: keeps_return ekeeps_cancel_loop)

lemma ekeeps_insert:
  "ekeeps A (transact (\<lambda>t s. let r = queued_evidence_row rr rq key fp m (i s) (tn_token t) (tn_now t)
     in case insert_evidence r s of None \<Rightarrow> (None, s) | Some s' \<Rightarrow> (Some r, s')))"
proof (intro keeps_transact r_into_rtranclp)
  fix t s
  let ?r = "queued_evidence_row rr rq key fp m (i s) (tn_token t) (tn_now t)"
  show "evidence_step A s (snd (let r = ?r in
      case insert_evidence r s of None \<Rightarrow> (None, s) | Some s' \<Rightarrow> (Some r, s')))"
    using insert_evidence_step [of ?r s]
    by (auto simp: queued_evidence_row_def Let_def evidence_step_refl split: option.split)
qed

lemma ekeeps_enqueue:
  "ekeeps A (enqueue_evidence resolve fingerprint_of rt m owner case_public rq key runner)"
proof -
  note qs = keeps_return keeps_bind ekeeps_query ekeeps_insert
  show ?thesis unfolding enqueue_evidence_def
    by (intro keeps_bind ekeeps_query)
      (auto split: option.split sum.split intro!: qs)
qed

section \<open>Properties of the state machine\<close>


text \<open>C18: a worker iteration, whatever the proof operations and the database do and whatever
  others commit in between, only commits steps of the job state machine; every CHECK constraint
  and unique index of the table holds afterwards.\<close>

theorem evidence_run_refines:
  assumes "sched_keeps (evidence_step A) A w" "evidence_ok (w_store w)"
  shows "evidence_ok (w_store (snd (run_state (ev_run_once cf ex) w))) \<and>
     (evidence.table_step A)\<^sup>*\<^sup>* (st_evidence (w_store w))
       (st_evidence (w_store (snd (run_state (ev_run_once cf ex) w))))"
  using ekeeps_run_once [of A cf ex] assms evidence_steps unfolding keeps_def by blast


lemma update_evidence_none:
  "\<forall>r \<in> set (st_evidence s). \<not> p r \<Longrightarrow> update_evidence p f s = (0, s)"
  by (simp add: update_evidence_def sql_update_def prod_eq_iff map_idI filter_empty_conv)

text \<open>C19: a claim whose lease token is gone from its job, and is not drawn again, writes nothing
  any more: no update, no artifact, and no closing.\<close>

theorem evidence_claim_fenced:
  assumes "(evidence_step A)\<^sup>*\<^sup>* s s'" "evidence_ok s" "ce_token cl \<notin> A"
    and "\<forall>r \<in> set (st_evidence s). cv_id r = ce_id cl \<longrightarrow> cv_token r \<noteq> Some (ce_token cl)"
  shows "ev_fenced_update cl f now s' = (Inr False, s') \<and>
     bind_statement cf cl values now s' = (Inl Worker_Stop, s') \<and>
     fenced_row (\<lambda>r. ev_owned cl now r \<and> cv_cancel r = None) False g s' = (Inr False, s')"
proof -
  have "\<forall>r \<in> set (st_evidence s'). cv_id r = ce_id cl \<longrightarrow> cv_token r \<noteq> Some (ce_token cl)"
    using evidence.tables_fenced [OF _ assms(3,4)] evidence_steps [OF assms(1,2)] by blast
  then have n: "\<forall>r \<in> set (st_evidence s'). \<not> ev_owned cl now r" by (auto simp: ev_owned_def)
  then have "filter (\<lambda>r. ev_owned cl now r \<and> cv_cancel r = None) (st_evidence s') = []"
    by (auto simp: filter_empty_conv)
  moreover have "sql_find (ev_owned cl now) (st_evidence s') = None" using n by (simp add: sql_find_None)
  ultimately show ?thesis
    using n by (simp add: ev_fenced_update_def update_evidence_none bind_statement_def fenced_row_def)
qed

section \<open>A concrete job\<close>

definition evidence_worker :: evidence_config where
  "evidence_worker = \<lparr> ec_lease = 90, ec_heartbeat = 20, ec_base = 10, ec_cap = 300,
     ec_digest = length, ec_result = rc_case \<rparr>"

definition evidence_others :: evidence_external where
  "evidence_others = \<lparr> ee_resolve = (\<lambda>_. Inl Stored_Conflict),
     ee_runtime = \<lparr> rt_network = ''mainnet'', rt_real = True, rt_live = True, rt_provider = ''tonapi'',
       rt_trust = 0, rt_configured = True \<rparr>,
     ee_operation = (\<lambda>_. \<lparr> or_ticks = 1, or_outcome = Inl Operation_Failure \<rparr>) \<rparr>"

definition evidence_world :: world where
  "evidence_world = \<lparr> w_store = proven_store, w_turn = 0, w_sched = (\<lambda>n. \<lparr> tn_now = 600, tn_later = 601,
     tn_wall = 600, tn_fault = False, tn_env = (\<lambda>s. s), tn_stop = False, tn_token = ''drawn'' \<rparr>) \<rparr>"

definition gone_claim :: claimed_evidence where
  "gone_claim = \<lparr> ce_id = 1, ce_public = ''job-1'', ce_case = ''case-7'', ce_snapshot = ''sync-1'',
     ce_activity = ''act'', ce_source_sync = ''sync-1'', ce_run = 9, ce_transaction = 5, ce_hash = ''ab'',
     ce_network = ''ton-mainnet'', ce_semantics = ''fp'', ce_token = ''gone'', ce_attempt = 1, ce_max = 4 \<rparr>"

lemma sample_job_ok: "evidence_row_ok sample_job"
  by (simp add: evidence_row_ok_def evidence_checks_def evidence_state_progress_def
      evidence_cancel_state_def evidence_lifecycle_def evidence_artifact_prefix_def sample_job_def)

lemma proven_store_ok: "evidence_ok proven_store"
  using sample_job_ok
  by (simp add: evidence_ok_def evidence.table_ok_def unique_keys_def unique_active_def proven_store_def)

lemma proven_store_cancelled:
  "(evidence_step A)\<^sup>*\<^sup>* proven_store (snd (cancel_swap 7 sample_job 450 proven_store))"
  by (rule r_into_rtranclp) (rule cancel_swap_step)

theorem evidence_run_refines_witness:
  "evidence_ok (w_store (snd (run_state (ev_run_once evidence_worker evidence_others) evidence_world)))"
proof -
  have "sched_keeps (evidence_step {''drawn''}) {''drawn''} evidence_world"
    by (simp add: sched_keeps_def evidence_world_def)
  from evidence_run_refines [OF this] proven_store_ok show ?thesis by (simp add: evidence_world_def)
qed


theorem evidence_claim_fenced_witness:
  "bind_statement evidence_worker gone_claim id 460 (snd (cancel_swap 7 sample_job 450 proven_store)) =
     (Inl Worker_Stop, snd (cancel_swap 7 sample_job 450 proven_store))"
proof -
  have "ce_token gone_claim \<notin> {}" by simp
  moreover have "\<forall>r \<in> set (st_evidence proven_store). cv_id r = ce_id gone_claim \<longrightarrow>
      cv_token r \<noteq> Some (ce_token gone_claim)"
    by (simp add: proven_store_def sample_job_def gone_claim_def)
  ultimately show ?thesis
    by (rule evidence_claim_fenced [OF proven_store_cancelled proven_store_ok, THEN conjunct2, THEN conjunct1])
qed

end
