(* ===== verification/Case_Evidence_Results.thy ===== *)
theory Case_Evidence_Results
  imports Case_Evidence_Progress
begin

text \<open>
  What the evidence worker publishes and the evidence service answers: a success only for a proven
  inclusion, results that the read path accepts, the flag of a cancellation, replayed requests,
  the classification of provider codes and the timing of the worker.
\<close>

section \<open>Published results\<close>

lemma revalidated_cong:
  "cv_artifacts q = cv_artifacts r \<Longrightarrow> cv_progress q = cv_progress r \<Longrightarrow> cv_level q = cv_level r \<Longrightarrow>
   cv_selection q = cv_selection r \<Longrightarrow> st_syncs s' = st_syncs s \<Longrightarrow> st_artifacts s' = st_artifacts s \<Longrightarrow>
   revalidated_artifacts s' q = revalidated_artifacts s r"
proof -
  assume a: "cv_artifacts q = cv_artifacts r" "cv_progress q = cv_progress r" "cv_level q = cv_level r"
    "cv_selection q = cv_selection r" "st_syncs s' = st_syncs s" "st_artifacts s' = st_artifacts s"
  have "legacy_artifact_read s' = legacy_artifact_read s" by (intro ext) (simp only: legacy_artifact_read_def a)
  then have "bound_artifact s' = bound_artifact s" "bound_inclusion s' = bound_inclusion s"
    by (intro ext; simp only: bound_artifact_def bound_inclusion_def)+
  moreover have "validate_artifact_prefix q = validate_artifact_prefix r"
    by (simp only: validate_artifact_prefix_def a)
  ultimately show ?thesis by (simp only: revalidated_artifacts_def a)
qed

lemma content_cong:
  "cv_case q = cv_case r \<Longrightarrow> cv_selection q = cv_selection r \<Longrightarrow> cv_level q = cv_level r \<Longrightarrow>
   st_syncs s' = st_syncs s \<Longrightarrow> st_cases s' = st_cases s \<Longrightarrow>
   result_content_of s' q av = result_content_of s r av"
  by (simp add: result_content_of_def Let_def split: option.split)

lemma store_row_other [simp]:
  "st_syncs (store_row q s) = st_syncs s" "st_cases (store_row q s) = st_cases s"
  "st_artifacts (store_row q s) = st_artifacts s"
  by (simp_all add: store_row_def update_evidence_def)

lemma provenance_of_PNone: "inclusion_provenance PNone e = Inr None"
  by (simp add: inclusion_provenance_def is_dict_def)

lemma prefix_level: "validate_artifact_prefix r = Inr () \<Longrightarrow> cv_level r = expected_level (cv_progress r)"
  by (simp add: validate_prefix_iff)

text \<open>Which artifacts a revalidated job has, by its progress.\<close>

lemma revalidated_present:
  assumes "revalidated_artifacts s r = Inr av"
  shows "(av_trace av \<noteq> PNone \<longleftrightarrow> 1 \<le> cv_progress r) \<and> (av_boc av \<noteq> PNone \<longleftrightarrow> 2 \<le> cv_progress r) \<and>
     (av_inclusion av \<noteq> PNone \<longleftrightarrow> 3 \<le> cv_progress r) \<and> (av_ledger av \<noteq> PNone \<longleftrightarrow> 4 \<le> cv_progress r)"
proof -
  obtain run where r: "validate_artifact_prefix r = Inr ()"
    "bound_artifact s Trace_Capture run (sl_hash (cv_selection r)) (ac_trace (cv_artifacts r))
       (ac_trace_digest (cv_artifacts r)) ''capture_id'' = Inr (av_trace av)"
    "bound_artifact s Boc_Verification run (sl_hash (cv_selection r)) (ac_boc (cv_artifacts r))
       (ac_boc_digest (cv_artifacts r)) ''verification_id'' = Inr (av_boc av)"
    "bound_inclusion s run (sl_hash (cv_selection r)) (ac_inclusion (cv_artifacts r))
       (sl_network (cv_selection r)) = Inr (av_inclusion av)"
    "bound_artifact s Native_Ledger run (sl_hash (cv_selection r)) (ac_ledger (cv_artifacts r))
       (ac_ledger_digest (cv_artifacts r)) ''ledger_id'' = Inr (av_ledger av)"
    by (rule revalidated_Inr [OF assms])
  have art: "v \<noteq> PNone \<longleftrightarrow> i \<noteq> None" if "bound_artifact s k run h i d f = Inr v" for k h i d f v
    using that bound_artifact_Inr [OF that] by (cases i) (auto simp: bound_artifact_def)
  have inc: "av_inclusion av \<noteq> PNone \<longleftrightarrow> ac_inclusion (cv_artifacts r) \<noteq> None"
    using r(4) bound_inclusion_Inr by (cases "ac_inclusion (cv_artifacts r)") (auto simp: bound_inclusion_def)
  show ?thesis
    using prefix_columns [OF r(1)] art [OF r(2)] art [OF r(3)] art [OF r(5)] inc by simp
qed

lemma revalidated_provenance:
  assumes "revalidated_artifacts s r = Inr av"
  obtains p where "inclusion_provenance (av_inclusion av) (Some (sl_network (cv_selection r))) = Inr p"
    "p \<noteq> None \<longleftrightarrow> 3 \<le> cv_progress r"
proof (cases "3 \<le> cv_progress r")
  case True
  with revalidation_facts [OF assms]
  have "canonical_inclusion_proven (av_inclusion av) (Some (sl_network (cv_selection r))) = Inr True" by simp
  with True that show thesis by (auto simp: canonical_inclusion_proven_def bind_result_Inr)
next
  case False
  with revalidated_present [OF assms] have "av_inclusion av = PNone" by blast
  with False that [of None] show thesis by (simp add: provenance_of_PNone)
qed

lemma step_views_count:
  assumes "revalidated_artifacts s r = Inr av" "0 \<le> cv_progress r" "cv_progress r \<le> 4"
  obtains views where "step_views r av = Inr views" "int (length (filter ev_done views)) = cv_progress r"
proof -
  have p: "evidence_artifact_prefix r" using assms prefix_valid revalidated_Inr by metis
  note pres = revalidated_present [OF assms(1)]
  have v: "step_view (code, level, v, d, c) =
      Inr \<lparr> ev_code = code, ev_done = (v \<noteq> PNone), ev_level = (if v \<noteq> PNone then Some level else None),
        ev_digest = (if v \<noteq> PNone then d else None), ev_completed = (if v \<noteq> PNone then c else None) \<rparr>"
    if "v \<noteq> PNone \<longleftrightarrow> d \<noteq> None \<and> c \<noteq> None" for code level v d c
    using that by (simp add: step_view_def)
  let ?a = "cv_artifacts r"
  have c: "av_trace av \<noteq> PNone \<longleftrightarrow> ac_trace_digest ?a \<noteq> None \<and> ac_trace_done ?a \<noteq> None"
    "av_boc av \<noteq> PNone \<longleftrightarrow> ac_boc_digest ?a \<noteq> None \<and> ac_boc_done ?a \<noteq> None"
    "av_inclusion av \<noteq> PNone \<longleftrightarrow> ac_inclusion ?a \<noteq> None \<and> ac_inclusion_done ?a \<noteq> None"
    "av_ledger av \<noteq> PNone \<longleftrightarrow> ac_ledger_digest ?a \<noteq> None \<and> ac_ledger_done ?a \<noteq> None"
    using pres p unfolding evidence_artifact_prefix_def Let_def by (elim disjE conjE; simp)+
  consider "cv_progress r = 0" | "cv_progress r = 1" | "cv_progress r = 2" | "cv_progress r = 3" |
    "cv_progress r = 4" using assms by linarith
  then have "int (length (filter id [av_trace av \<noteq> PNone, av_boc av \<noteq> PNone, av_inclusion av \<noteq> PNone,
      av_ledger av \<noteq> PNone])) = cv_progress r"
    unfolding pres [THEN conjunct1] pres [THEN conjunct2, THEN conjunct1]
      pres [THEN conjunct2, THEN conjunct2, THEN conjunct1] pres [THEN conjunct2, THEN conjunct2, THEN conjunct2]
    by cases simp_all
  then have n: "int (length (filter ev_done views)) = cv_progress r"
    if "map ev_done views = [av_trace av \<noteq> PNone, av_boc av \<noteq> PNone, av_inclusion av \<noteq> PNone,
      av_ledger av \<noteq> PNone]" for views
    unfolding that [symmetric] by (simp only: filter_map length_map comp_def id_def)
  show thesis
    by (rule that, unfold step_views_def Let_def each.simps v [OF c(1)] v [OF c(2)] v [OF c(3)] v [OF c(4)]
        bind_result_simps, rule refl, rule n) simp
qed

text \<open>A row published with the digest of its own content is shown.\<close>

lemma published_row_shown:
  assumes rv: "revalidated_artifacts s q = Inr av" and bounds: "0 \<le> cv_progress q" "cv_progress q \<le> 4"
    and content: "result_content_of s q av = Inr content" "cv_result q = Some (digest content)"
    and ledger: "ledger_summary (av_ledger av) = Inr summary"
  shows "\<exists>vw. evidence_response digest s q = Inr vw \<and> vw_progress vw = cv_progress q \<and>
     (cv_state q \<in> {Partial, Succeeded} \<longrightarrow> vw_result vw = cv_result q) \<and>
     (vw_provenance vw \<noteq> None \<longleftrightarrow> 3 \<le> cv_progress q)"
proof -
  obtain views where views: "step_views q av = Inr views"
    "int (length (filter ev_done views)) = cv_progress q"
    by (rule step_views_count [OF rv bounds])
  obtain p where p: "inclusion_provenance (av_inclusion av) (Some (sl_network (cv_selection q))) = Inr p"
    "p \<noteq> None \<longleftrightarrow> 3 \<le> cv_progress q"
    by (rule revalidated_provenance [OF rv])
  have "validate_artifact_prefix q = Inr ()" using revalidated_Inr [OF rv] by blast
  with rv views p content ledger show ?thesis unfolding evidence_response_def by (simp add: Let_def)
qed

lemma ev_succeeded_columns:
  "cv_artifacts (ev_succeeded_row d now (ev_finalizing_row now r)) = cv_artifacts r"
  "cv_progress (ev_succeeded_row d now (ev_finalizing_row now r)) = cv_progress r"
  "cv_level (ev_succeeded_row d now (ev_finalizing_row now r)) = cv_level r"
  "cv_selection (ev_succeeded_row d now (ev_finalizing_row now r)) = cv_selection r"
  "cv_case (ev_succeeded_row d now (ev_finalizing_row now r)) = cv_case r"
  "cv_state (ev_succeeded_row d now (ev_finalizing_row now r)) = Succeeded"
  "cv_result (ev_succeeded_row d now (ev_finalizing_row now r)) = Some d"
  "cv_artifacts (ev_finalizing_row now r) = cv_artifacts r" "cv_progress (ev_finalizing_row now r) = cv_progress r"
  "cv_level (ev_finalizing_row now r) = cv_level r" "cv_selection (ev_finalizing_row now r) = cv_selection r"
  "cv_case (ev_finalizing_row now r) = cv_case r"
  by (simp_all add: ev_succeeded_row_def ev_finalizing_row_def)

lemma ev_partial_columns:
  "cv_artifacts (ev_partial_row code d now r) = cv_artifacts r" "cv_progress (ev_partial_row code d now r) = cv_progress r"
  "cv_level (ev_partial_row code d now r) = cv_level r" "cv_selection (ev_partial_row code d now r) = cv_selection r"
  "cv_case (ev_partial_row code d now r) = cv_case r" "cv_state (ev_partial_row code d now r) = Partial"
  "cv_result (ev_partial_row code d now r) = Some d"
  by (simp_all add: ev_partial_row_def ev_close_def)

lemma success_row_facts:
  assumes "success_row cf s now job = Inr q"
  obtains av content where "revalidated_artifacts s q = Inr av" "cv_progress q = 4"
    "result_content_of s q av = Inr content" "cv_result q = Some (ec_result cf content)"
    "cv_state q = Succeeded"
proof -
  obtain av content where r: "revalidated_artifacts s (ev_finalizing_row now job) = Inr av"
    "cv_progress job = 4" "result_content_of s (ev_finalizing_row now job) av = Inr content"
    "q = ev_succeeded_row (ec_result cf content) now (ev_finalizing_row now job)"
    by (rule success_row_Inr [OF assms])
  have "revalidated_artifacts s q = revalidated_artifacts s (ev_finalizing_row now job)"
    by (rule revalidated_cong) (simp_all only: r(4) ev_succeeded_columns)
  moreover have "result_content_of s q av = result_content_of s (ev_finalizing_row now job) av"
    by (rule content_cong) (simp_all only: r(4) ev_succeeded_columns)
  ultimately show thesis using r by (intro that [of av content]) (simp_all add: ev_succeeded_columns)
qed

lemma partial_row_facts:
  assumes "terminal_row cf s now code job = Inr q" "cv_state q \<in> {Partial, Succeeded}"
  obtains av content where "revalidated_artifacts s q = Inr av" "0 < cv_progress q"
    "result_content_of s q av = Inr content" "cv_result q = Some (ec_result cf content)"
proof -
  have "cv_cancel job = None"
    using assms by (auto simp: terminal_row_def terminal_cancel_row_def ev_cancelled_row_def
        ev_cancel_conflict_row_def ev_close_def split: sum.splits evidence_exn.splits if_splits)
  with assms obtain av content where r: "revalidated_artifacts s job = Inr av" "0 < cv_progress job"
    "result_content_of s job av = Inr content" "q = ev_partial_row code (ec_result cf content) now job"
    by (auto simp: terminal_row_def ev_failed_row_def ev_close_def bind_result_Inr
        split: sum.splits evidence_exn.splits if_splits)
  have "revalidated_artifacts s q = revalidated_artifacts s job"
    by (rule revalidated_cong) (simp_all only: r(4) ev_partial_columns)
  moreover have "result_content_of s q av = result_content_of s job av"
    by (rule content_cong) (simp_all only: r(4) ev_partial_columns)
  ultimately show thesis using r by (intro that [of av content]) (simp_all add: ev_partial_columns)
qed

text \<open>C16: a job is closed as succeeded only if its four artifacts are stored and read back with the
  digests it recorded, the inclusion is proven for its network at the trusted checkpoint, and its
  result digest is the digest of exactly that content.\<close>

theorem success_requires_proof:
  assumes "success_row cf s now job = Inr q"
  shows "cv_state q = Succeeded \<and> cv_progress q = 4 \<and> cv_level q = Chain_Inclusion_Proven \<and>
     (\<exists>av content. revalidated_artifacts s q = Inr av \<and>
        av_trace av \<noteq> PNone \<and> av_boc av \<noteq> PNone \<and> av_ledger av \<noteq> PNone \<and>
        canonical_inclusion_proven (av_inclusion av) (Some (sl_network (cv_selection q))) = Inr True \<and>
        result_content_of s q av = Inr content \<and> cv_result q = Some (ec_result cf content))"
proof -
  obtain av content where r: "revalidated_artifacts s q = Inr av" "cv_progress q = 4"
    "result_content_of s q av = Inr content" "cv_result q = Some (ec_result cf content)"
    "cv_state q = Succeeded"
    by (rule success_row_facts [OF assms])
  have "cv_level q = expected_level 4"
    using revalidated_Inr [OF r(1)] prefix_level [of q] r(2) by metis
  with r revalidation_facts [OF r(1)] revalidated_present [OF r(1)] show ?thesis
    by (auto simp: expected_level_def)
qed

lemma stored_row_shown:
  assumes "revalidated_artifacts s q = Inr av" "0 \<le> cv_progress q" "cv_progress q \<le> 4"
    "result_content_of s q av = Inr content" "cv_result q = Some (digest content)"
    "cv_state q \<in> {Partial, Succeeded}" "ledger_summary (av_ledger av) = Inr summary"
  shows "\<exists>vw. evidence_response digest (store_row q s) q = Inr vw \<and> vw_progress vw = cv_progress q \<and>
     vw_result vw = cv_result q \<and> (vw_provenance vw \<noteq> None \<longleftrightarrow> 3 \<le> cv_progress q)"
proof -
  have "revalidated_artifacts (store_row q s) q = revalidated_artifacts s q"
    by (rule revalidated_cong) simp_all
  moreover have "result_content_of (store_row q s) q av = result_content_of s q av"
    by (rule content_cong) simp_all
  ultimately show ?thesis
    using published_row_shown [of "store_row q s" q av content digest summary] assms by auto
qed

lemma revalidated_ledger:
  assumes "revalidated_artifacts s r = Inr av"
    and "\<And>run v. st_artifacts s Native_Ledger run (sl_hash (cv_selection r)) = Read_Value v \<Longrightarrow>
      \<exists>summary. ledger_summary v = Inr summary"
  shows "\<exists>summary. ledger_summary (av_ledger av) = Inr summary"
proof -
  obtain run where "bound_artifact s Native_Ledger run (sl_hash (cv_selection r))
      (ac_ledger (cv_artifacts r)) (ac_ledger_digest (cv_artifacts r)) ''ledger_id'' = Inr (av_ledger av)"
    by (rule revalidated_Inr [OF assms(1)])
  then show ?thesis
    using assms(2) by (auto simp: bound_artifact_def bind_result_Inr legacy_artifact_read_def
        ledger_summary_def [of PNone] split: option.splits artifact_read.splits)
qed

text \<open>C17: the result the worker publishes, complete or partial, is accepted by the read path in
  the state the publication leaves: the same digest, the same progress, and inclusion provenance
  exactly from the third stage on.  The ledger reader is assumed to return the entries that the
  result copies.\<close>

theorem published_results_readable:
  assumes "success_row cf s now job = Inr q \<or> terminal_row cf s now code job = Inr q"
    and "cv_state q \<in> {Partial, Succeeded}" "cv_progress q \<le> 4"
    and "\<And>run v. st_artifacts s Native_Ledger run (sl_hash (cv_selection q)) = Read_Value v \<Longrightarrow>
      \<exists>summary. ledger_summary v = Inr summary"
  shows "\<exists>vw. evidence_response (ec_result cf) (store_row q s) q = Inr vw \<and>
     vw_progress vw = cv_progress q \<and> vw_result vw = cv_result q \<and> vw_result vw \<noteq> None \<and>
     (vw_provenance vw \<noteq> None \<longleftrightarrow> 3 \<le> cv_progress q)"
proof -
  obtain av content where r: "revalidated_artifacts s q = Inr av" "0 < cv_progress q"
    "result_content_of s q av = Inr content" "cv_result q = Some (ec_result cf content)"
    using assms(1)
  proof
    assume "success_row cf s now job = Inr q"
    from success_row_facts [OF this] that show thesis by (metis zero_less_numeral)
  next
    assume "terminal_row cf s now code job = Inr q"
    from partial_row_facts [OF this assms(2)] that show thesis by metis
  qed
  moreover obtain summary where "ledger_summary (av_ledger av) = Inr summary"
    using revalidated_ledger [OF r(1)] assms(4) by blast
  ultimately show ?thesis
    using stored_row_shown [of s q av content "ec_result cf" summary] assms(2,3) by auto
qed

section \<open>A completed job\<close>

fun complete_artifacts :: "artifact_kind \<Rightarrow> int \<Rightarrow> string \<Rightarrow> artifact_read" where
  "complete_artifacts Native_Ledger run hash = Read_Value (PDict
     [(''ledger_id'', PStr ''13''), (''evidence_digest_sha256'', PStr ''ld''),
      (''activity_count'', PInt 1), (''incoming_nanoton'', PStr ''5''), (''outgoing_nanoton'', PStr ''0''),
      (''self_nanoton'', PStr ''0'')])"
| "complete_artifacts Trace_Capture run hash = sample_artifacts Trace_Capture run hash"
| "complete_artifacts Boc_Verification run hash = sample_artifacts Boc_Verification run hash"
| "complete_artifacts Block_Inclusion run hash = sample_artifacts Block_Inclusion run hash"

definition evidence_case :: case_row where
  "evidence_case = \<lparr> wc_id = 7, wc_public = ''case-7'', wc_owner = ''local'', wc_network = ''ton-mainnet'',
     wc_environment = ''live'', wc_key = ''0:0'', wc_version = ''ton_raw_address_v1'', wc_display = ''0:0'', wc_label = None, wc_note = None,
     wc_created = 0, wc_updated = 50, wc_archived = None, wc_metadata_version = 1 \<rparr>"

definition complete_job :: evidence_row where
  "complete_job = sample_job\<lparr> cv_progress := 4, cv_artifacts := (cv_artifacts sample_job)
     \<lparr> ac_ledger := Some 13, ac_ledger_digest := Some ''ld'', ac_ledger_done := Some 330 \<rparr> \<rparr>"

definition complete_store :: store where
  "complete_store = proven_store\<lparr> st_cases := [evidence_case], st_evidence := [complete_job],
     st_artifacts := complete_artifacts \<rparr>"

lemma complete_number: "show_int 13 = ''13''"
  by (simp add: show_int_def show_nat.simps digit_char_def dec_digits_def)

lemma complete_revalidates:
  "revalidated_artifacts complete_store complete_job = Inr
     \<lparr> av_trace = PDict [(''capture_id'', PStr ''11''), (''evidence_digest_sha256'', PStr ''td'')],
       av_boc = PDict [(''verification_id'', PStr ''12''), (''evidence_digest_sha256'', PStr ''bd'')],
       av_inclusion = sample_catalog,
       av_ledger = PDict [(''ledger_id'', PStr ''13''), (''evidence_digest_sha256'', PStr ''ld''),
      (''activity_count'', PInt 1), (''incoming_nanoton'', PStr ''5''), (''outgoing_nanoton'', PStr ''0''),
      (''self_nanoton'', PStr ''0'')] \<rparr>"
proof -
  have "validate_artifact_prefix complete_job = Inr ()"
    by (simp add: validate_artifact_prefix_def complete_job_def sample_job_def coordinates_def
        complete_or_absent_def expected_level_def)
  moreover have "bound_inclusion complete_store 9 ''ab'' (Some ''cd'') ''ton-mainnet'' = Inr sample_catalog"
    using sample_proven sample_catalog_dict
    by (auto simp: bound_inclusion_def legacy_artifact_read_def complete_store_def sample_catalog_def)
  ultimately show ?thesis
    by (simp add: revalidated_artifacts_def complete_job_def sample_job_def sample_selection_def
        complete_store_def proven_store_def published_sync_def sql_find_def bound_artifact_def
        legacy_artifact_read_def binding_def text_value_def dget_def sample_numbers complete_number)
qed

lemma complete_content:
  assumes "revalidated_artifacts complete_store complete_job = Inr av"
  shows "\<exists>content. result_content_of complete_store complete_job av = Inr content \<and>
    rc_case content = ''case-7''"
proof -
  obtain p where "inclusion_provenance (av_inclusion av)
      (Some (sl_network (cv_selection complete_job))) = Inr p"
    using revalidated_provenance [OF assms] by blast
  then show ?thesis
    by (simp add: result_content_of_def complete_job_def sample_job_def sample_selection_def
        complete_store_def proven_store_def published_sync_def evidence_case_def sql_find_def)
qed

lemma complete_success:
  "success_row evidence_worker complete_store 480 complete_job = Inr
     (ev_succeeded_row ''case-7'' 480 (ev_finalizing_row 480 complete_job))"
proof -
  have "revalidated_artifacts complete_store (ev_finalizing_row 480 complete_job) =
      revalidated_artifacts complete_store complete_job"
    by (rule revalidated_cong) (simp_all only: ev_succeeded_columns)
  moreover have "result_content_of complete_store (ev_finalizing_row 480 complete_job) av =
      result_content_of complete_store complete_job av" for av
    by (rule content_cong) (simp_all only: ev_succeeded_columns)
  ultimately show ?thesis
    using complete_content [OF complete_revalidates] complete_revalidates
    by (auto simp: success_row_def Let_def ev_succeeded_columns evidence_worker_def complete_job_def)
qed

lemma complete_ledger:
  "st_artifacts complete_store Native_Ledger run hash = Read_Value v \<Longrightarrow> \<exists>summary. ledger_summary v = Inr summary"
  by (auto simp: complete_store_def ledger_summary_def ledger_entries_def entry_def)

theorem success_requires_proof_witness:
  "canonical_inclusion_proven sample_catalog (Some ''ton-mainnet'') = Inr True \<and>
   cv_state (ev_succeeded_row ''case-7'' 480 (ev_finalizing_row 480 complete_job)) = Succeeded"
  using success_requires_proof [OF complete_success] sample_proven by blast

theorem published_results_readable_witness:
  "\<exists>vw. evidence_response rc_case
       (store_row (ev_succeeded_row ''case-7'' 480 (ev_finalizing_row 480 complete_job)) complete_store)
       (ev_succeeded_row ''case-7'' 480 (ev_finalizing_row 480 complete_job)) = Inr vw \<and>
     vw_result vw = Some ''case-7'' \<and> vw_progress vw = 4"
proof -
  have c: "ec_result evidence_worker = rc_case" "cv_progress complete_job = 4"
    by (simp_all add: evidence_worker_def complete_job_def)
  show ?thesis
    using published_results_readable [OF disjI1, OF complete_success] complete_ledger
    unfolding ev_succeeded_columns c by auto
qed

end
