(* ===== verification/Case_Evidence_Requests.thy ===== *)
theory Case_Evidence_Requests
  imports Case_Evidence_Results
begin

text \<open>
  What the evidence service answers while the worker and other requests interfere: the flag of a
  cancellation and the replay of a repeated request.  Also the classification of provider codes and
  the timing of the worker.
\<close>

section \<open>Provider codes\<close>










section \<open>Timing\<close>

lemma make_evidence_bounds:
  "let cf = make_evidence_worker s lease hb base cap digest result in
     30 \<le> ec_lease cf \<and> 2 \<le> ec_heartbeat cf \<and> 3 * ec_heartbeat cf \<le> ec_lease cf \<and>
     1 \<le> ec_base cf \<and> ec_base cf \<le> ec_cap cf"
proof -
  have "3 * (l div 3) \<le> l" "10 \<le> l div 3" if "30 \<le> l" for l :: int using that by auto
  then show ?thesis by (auto simp: make_evidence_worker_def Let_def min_def max_def)
qed

lemma evidence_delay_bounds:
  assumes "1 \<le> ec_base cf" "ec_base cf \<le> ec_cap cf"
  shows "us (ec_base cf) \<le> ev_retry_delay_us cf cl \<and> ev_retry_delay_us cf cl \<le> us (ec_cap cf)"
  unfolding ev_retry_delay_us_def Let_def by (rule jittered_backoff [unfolded Let_def]) (use assms in simp_all)

text \<open>Whatever the settings, the evidence worker's lease is at least 30 seconds and at least three
  heartbeats long, and every retry waits between the base and the cap.\<close>

theorem evidence_worker_timing:
  "let cf = make_evidence_worker s lease hb base cap digest result in
     30 \<le> ec_lease cf \<and> 2 \<le> ec_heartbeat cf \<and> 3 * ec_heartbeat cf \<le> ec_lease cf \<and>
     us (ec_base cf) \<le> ev_retry_delay_us cf cl \<and> ev_retry_delay_us cf cl \<le> us (ec_cap cf)"
  using make_evidence_bounds [of s lease hb base cap digest result]
    evidence_delay_bounds [of "make_evidence_worker s lease hb base cap digest result" cl]
  unfolding Let_def by blast

section \<open>Facts that interference keeps\<close>

text \<open>A property of the table that every step keeps, and the worlds in which it holds.\<close>

definition stable :: "string set \<Rightarrow> (evidence_row list \<Rightarrow> bool) \<Rightarrow> bool" where
  "stable A P \<longleftrightarrow> (\<forall>s s'. evidence_ok s \<longrightarrow> evidence_step A s s' \<longrightarrow> P (st_evidence s) \<longrightarrow> P (st_evidence s'))"

definition amid :: "string set \<Rightarrow> (evidence_row list \<Rightarrow> bool) \<Rightarrow> world \<Rightarrow> bool" where
  "amid A P w \<longleftrightarrow> sched_keeps (evidence_step A) A w \<and> evidence_ok (w_store w) \<and> P (st_evidence (w_store w))"

lemma stable_steps:
  assumes "stable A P" "(evidence_step A)\<^sup>*\<^sup>* s s'" "evidence_ok s" "P (st_evidence s)"
  shows "evidence_ok s' \<and> P (st_evidence s')"
  using assms(2)
proof (induction rule: rtranclp_induct)
  case (step t u)
  then show ?case using assms(1) evidence_step_ok unfolding stable_def by blast
qed (use assms in blast)

lemma amid_transact:
  assumes "stable A P"
    and "\<And>t s. evidence_ok s \<Longrightarrow> P (st_evidence s) \<Longrightarrow> tn_token t \<in> A \<Longrightarrow>
      evidence_step A s (snd (f t s)) \<and> Q (fst (f t s)) (st_evidence (snd (f t s)))"
  shows "triple (amid A P) (transact f) (\<lambda>a. amid A (Q a))"
  unfolding triple_def
proof (intro allI impI)
  fix w assume w: "amid A P w"
  let ?t = "w_sched w (w_turn w)"
  let ?s = "tn_env ?t (w_store w)"
  have "(evidence_step A)\<^sup>*\<^sup>* (w_store w) ?s" "tn_token ?t \<in> A"
    using w by (auto simp: amid_def sched_keeps_def)
  moreover from this have ok: "evidence_ok ?s" "P (st_evidence ?s)"
    using stable_steps [OF assms(1)] w by (auto simp: amid_def)
  ultimately have "evidence_step A ?s (snd (f ?t ?s))" "Q (fst (f ?t ?s)) (st_evidence (snd (f ?t ?s)))"
    using assms(2) by blast+
  with ok evidence_step_ok w
  show "amid A (Q (fst (run_state (transact f) w))) (snd (run_state (transact f) w))"
    by (auto simp: amid_def run_transact Let_def sched_keeps_def)
qed

lemma amid_query:
  assumes "stable A P" "\<And>t s. evidence_ok s \<Longrightarrow> P (st_evidence s) \<Longrightarrow> Q (f t s) (st_evidence s)"
  shows "triple (amid A P) (transact (\<lambda>t s. (f t s, s))) (\<lambda>a. amid A (Q a))"
  by (rule amid_transact [OF assms(1)]) (simp add: assms(2) evidence_step_refl)

lemma amid_return: "(\<And>rows. P rows \<Longrightarrow> Q a rows) \<Longrightarrow> triple (amid A P) (State_Monad.return a) (\<lambda>a. amid A (Q a))"
  by (rule triple_return) (simp add: amid_def)

text \<open>Existence of a row whose steps keep a property.\<close>

lemma stable_ex:
  assumes "\<And>r r'. evidence_row_step A r r' \<Longrightarrow> p r \<Longrightarrow> p r'"
  shows "stable A (\<lambda>rows. \<exists>r \<in> set rows. p r)"
  unfolding stable_def
proof (intro allI impI)
  fix s s' assume ok: "evidence_ok s" and st: "evidence_step A s s'" and "\<exists>r \<in> set (st_evidence s). p r"
  then obtain r where r: "r \<in> set (st_evidence s)" "p r" by blast
  from ok st have "evidence.table_step A (st_evidence s) (st_evidence s')" by (simp add: evidence_step_def)
  from evidence.table_step_row [OF this r(1)] obtain r'
    where r': "r' \<in> set (st_evidence s')" "r' = r \<or> evidence_row_step A r r'" .
  from r'(2) r(2) assms have "p r'" by blast
  with r'(1) show "\<exists>r \<in> set (st_evidence s'). p r" by blast
qed

lemma stable_True: "stable A (\<lambda>_. True)"
  by (simp add: stable_def)

section \<open>The flag of a cancellation\<close>

text \<open>A job that is closed, or running with a requested cancellation.\<close>

definition cancelling :: "evidence_row \<Rightarrow> bool" where
  "cancelling r \<longleftrightarrow> terminal_state (cv_state r) \<or> (cv_state r = Running \<and> cv_cancel r \<noteq> None)"

definition named :: "int \<Rightarrow> int \<Rightarrow> string \<Rightarrow> evidence_row \<Rightarrow> bool" where
  "named i case_id public r \<longleftrightarrow> cv_id r = i \<and> cv_case r = case_id \<and> cv_public r = public"

lemma cancelling_step: "evidence_row_step A r r' \<Longrightarrow> cancelling r \<Longrightarrow> cancelling r'"
  by (induction rule: evidence_row_step.induct) (auto simp: cancelling_def ev_row_defs ev_claimable_def)

lemma named_step: "evidence_row_step A r r' \<Longrightarrow> named i c p r \<Longrightarrow> named i c p r'"
  using evidence_row_step_facts by (metis named_def)

lemma unique_named:
  assumes "evidence_ok s" "q \<in> set (st_evidence s)" "r \<in> set (st_evidence s)" "cv_public q = cv_public r"
  shows "q = r"
proof -
  have "distinct (map cv_public (st_evidence s))" using assms(1) by (simp add: evidence_ok_def unique_keys_def)
  then have "inj_on cv_public (set (st_evidence s))" by (simp add: distinct_map)
  with assms show ?thesis by (simp add: inj_on_def)
qed

lemma find_evidence_facts:
  "find_evidence case_id public s = Some r \<Longrightarrow>
     r \<in> set (st_evidence s) \<and> cv_case r = case_id \<and> cv_public r = public"
  using sql_find_Some by (fastforce simp: find_evidence_def)

text \<open>What the request answers, over the table it leaves.\<close>

definition flag_right :: "service_error + evidence_row \<times> bool \<Rightarrow> evidence_row list \<Rightarrow> bool" where
  "flag_right a rows \<longleftrightarrow> (\<forall>r b. a = Inr (r, b) \<longrightarrow> r \<in> set rows \<and>
     (b \<longleftrightarrow> cv_state r = Running \<and> cv_cancel r \<noteq> None))"

abbreviation has :: "(evidence_row \<Rightarrow> bool) \<Rightarrow> evidence_row list \<Rightarrow> bool" where
  "has p rows \<equiv> \<exists>r \<in> set rows. p r"

lemma read_back_flag:
  "triple (amid A (has (\<lambda>r. named i case_id public r \<and> cancelling r))) (read_back case_id public)
     (\<lambda>a. amid A (flag_right a))"
  unfolding read_back_def
proof (rule triple_bind [OF amid_query [where Q = "\<lambda>a rows. flag_right (case a of
      None \<Rightarrow> Inl Evidence_Not_Found | Some r \<Rightarrow> Inr (r, cv_state r = Running)) rows"]])
  show "stable A (has (\<lambda>r. named i case_id public r \<and> cancelling r))"
    by (rule stable_ex) (use cancelling_step named_step in blast)
next
  fix t :: turn and s assume ok: "evidence_ok s"
    and "has (\<lambda>r. named i case_id public r \<and> cancelling r) (st_evidence s)"
  then obtain q where q: "q \<in> set (st_evidence s)" "named i case_id public q" "cancelling q" by blast
  show "flag_right (case find_evidence case_id public s of
      None \<Rightarrow> Inl Evidence_Not_Found | Some r \<Rightarrow> Inr (r, cv_state r = Running)) (st_evidence s)"
  proof (cases "find_evidence case_id public s")
    case (Some r)
    note r = find_evidence_facts [OF Some]
    with q(2) have "r = q" by (intro unique_named [OF ok _ q(1)]) (simp_all add: named_def)
    with r Some q(3) show ?thesis by (simp add: flag_right_def cancelling_def) force
  qed (simp add: flag_right_def)
qed (rule amid_return)

text \<open>A swap that updated one row leaves the named row cancelling.\<close>

lemma swap_cancels:
  assumes ok: "evidence_ok s" and q: "q \<in> set (st_evidence s)" "named (cv_id r) case_id public q"
    and one: "fst (cancel_swap case_id r now s) = 1"
  shows "has (\<lambda>q. named (cv_id r) case_id public q \<and> cancelling q) (st_evidence (snd (cancel_swap case_id r now s)))"
proof -
  obtain p f where sw: "cancel_swap case_id r now s = update_evidence p f s"
    and f: "\<And>x. p x \<Longrightarrow> cv_id x = cv_id r \<and> named (cv_id x) (cv_case x) (cv_public x) (f x) \<and> cancelling (f x)"
    by (cases "cv_state r = Queued")
      (auto simp: cancel_swap_def named_def cancelling_def ev_queued_cancel_row_def ev_running_cancel_row_def
        intro: that)
  from one have "filter p (st_evidence s) \<noteq> []" by (auto simp: sw)
  then obtain x where x: "x \<in> set (st_evidence s)" "p x" using hd_in_set by fastforce
  have "x = q"
    using unique_evidence_id [of "st_evidence s" x q] ok x(1) q f [OF x(2)]
    by (auto simp: evidence_ok_def evidence.table_ok_def named_def)
  with x q(2) f [OF x(2)] show ?thesis
    unfolding sw update_evidence_rows by (intro bexI [of _ "f q"]) (auto simp: named_def image_iff)
qed

lemma cancel_loop_flag:
  "triple (amid A (\<lambda>_. True)) (cancel_loop n case_id public) (\<lambda>a. amid A (flag_right a))"
proof (induction n)
  case 0
  show ?case unfolding cancel_loop.simps
  proof (rule triple_bind [OF amid_query [where Q = "\<lambda>a rows. \<forall>r. a = Some r \<longrightarrow> r \<in> set rows"]])
    show "stable A (\<lambda>_. True)" by (rule stable_True)
  next
    fix t :: turn and s
    show "\<forall>r. find_evidence case_id public s = Some r \<longrightarrow> r \<in> set (st_evidence s)"
      using find_evidence_facts by blast
  qed (rule amid_return, auto simp: flag_right_def split: option.split)
next
  case (Suc n)
  let ?Q = "\<lambda>a rows. \<forall>r. a = Some r \<longrightarrow> r \<in> set rows \<and> named (cv_id r) case_id public r"
  have swap: "triple (amid A (has (named (cv_id r) case_id public))) (transact (\<lambda>t. cancel_swap case_id r (tn_now t)))
      (\<lambda>a. amid A (\<lambda>rows. a = 1 \<longrightarrow> has (\<lambda>q. named (cv_id r) case_id public q \<and> cancelling q) rows))" for r
  proof (rule amid_transact)
    show "stable A (has (named (cv_id r) case_id public))" by (rule stable_ex) (use named_step in blast)
  next
    fix t s assume "evidence_ok s" "has (named (cv_id r) case_id public) (st_evidence s)"
    then show "evidence_step A s (snd (cancel_swap case_id r (tn_now t) s)) \<and>
      (fst (cancel_swap case_id r (tn_now t) s) = 1 \<longrightarrow>
        has (\<lambda>q. named (cv_id r) case_id public q \<and> cancelling q)
          (st_evidence (snd (cancel_swap case_id r (tn_now t) s))))"
      using cancel_swap_step swap_cancels by blast
  qed
  show ?case unfolding cancel_loop.simps
  proof (rule triple_bind [OF amid_query [where Q = ?Q]])
    show "stable A (\<lambda>_. True)" by (rule stable_True)
  next
    fix t :: turn and s
    show "?Q (find_evidence case_id public s) (st_evidence s)"
      using find_evidence_facts by (auto simp: named_def)
  next
    fix a show "triple (amid A (?Q a)) (case a of None \<Rightarrow> State_Monad.return (Inl Evidence_Not_Found)
      | Some r \<Rightarrow> if terminal_state (cv_state r) then State_Monad.return (Inr (r, False))
         else if cv_state r = Running \<and> cv_cancel r \<noteq> None then read_back case_id public
         else do { swapped \<leftarrow> transact (\<lambda>t. cancel_swap case_id r (tn_now t));
           if swapped \<noteq> 1 then cancel_loop n case_id public else read_back case_id public })
      (\<lambda>a. amid A (flag_right a))"
    proof (cases a)
      case None
      then show ?thesis by (auto simp: flag_right_def intro: amid_return)
    next
      case (Some r)
      have reading: "triple (amid A P) (read_back case_id public) (\<lambda>a. amid A (flag_right a))"
        if "\<And>rows. P rows \<Longrightarrow> has (\<lambda>q. named (cv_id r) case_id public q \<and> cancelling q) rows" for P
        by (rule triple_weaken [OF read_back_flag]) (use that in \<open>auto simp: amid_def\<close>)
      have loop: "triple (amid A P) (cancel_loop n case_id public) (\<lambda>a. amid A (flag_right a))" for P
        by (rule triple_weaken [OF Suc]) (auto simp: amid_def)
      have swap': "triple (amid A (?Q (Some r))) (transact (\<lambda>t. cancel_swap case_id r (tn_now t)))
          (\<lambda>a. amid A (\<lambda>rows. a = 1 \<longrightarrow> has (\<lambda>q. named (cv_id r) case_id public q \<and> cancelling q) rows))"
        by (rule triple_weaken [OF swap]) (auto simp: amid_def)
      show ?thesis unfolding Some option.case
      proof (intro triple_if triple_bind [OF swap'])
        show "triple (amid A (?Q (Some r))) (State_Monad.return (Inr (r, False))) (\<lambda>a. amid A (flag_right a))"
          if "terminal_state (cv_state r)"
          by (rule amid_return) (use that in \<open>auto simp: flag_right_def\<close>)
      qed (auto simp: amid_def cancelling_def intro!: reading loop)
    qed
  qed
qed

lemma cancel_evidence_flag:
  "triple (amid A (\<lambda>_. True)) (cancel_evidence owner case_public public) (\<lambda>a. amid A (flag_right a))"
  unfolding cancel_evidence_def
proof (rule triple_bind [OF amid_query [where Q = "\<lambda>_ _. True"]])
  fix found :: "case_row option"
  show "triple (amid A (\<lambda>_. True)) (case found of None \<Rightarrow> State_Monad.return (Inl Evidence_Not_Found)
      | Some c \<Rightarrow> cancel_loop cancel_attempts (wc_id c) public) (\<lambda>a. amid A (flag_right a))"
    by (cases found) (auto simp: flag_right_def cancel_loop_flag intro: amid_return)
qed (simp_all add: stable_True)

text \<open>the flag a cancellation answers is true exactly when the stored job is still running with
  its cancellation requested, whatever the worker and other requests do meanwhile.\<close>

theorem cancel_flag_exact:
  assumes "sched_keeps (evidence_step A) A w" "evidence_ok (w_store w)"
    and "fst (run_state (cancel_evidence owner case_public public) w) = Inr (r, flag)"
  shows "r \<in> set (st_evidence (w_store (snd (run_state (cancel_evidence owner case_public public) w)))) \<and>
     (flag \<longleftrightarrow> cv_state r = Running \<and> cv_cancel r \<noteq> None)"
  using cancel_evidence_flag [of A owner case_public public] assms
  by (auto simp: triple_def amid_def flag_right_def)

section \<open>Replayed requests\<close>

text \<open>The row that answers an idempotency key.\<close>

definition keyed :: "evidence_row \<Rightarrow> evidence_row \<Rightarrow> bool" where
  "keyed r q \<longleftrightarrow> cv_id q = cv_id r \<and> cv_case q = cv_case r \<and> cv_idempotency q = cv_idempotency r \<and>
     cv_fingerprint q = cv_fingerprint r \<and> cv_selection q = cv_selection r"

lemma keyed_step: "evidence_row_step A q q' \<Longrightarrow> keyed r q \<Longrightarrow> keyed r q'"
  unfolding keyed_def by (drule evidence_row_step_facts) simp

lemma stable_keyed: "stable A (has (keyed r))"
  by (rule stable_ex) (use keyed_step in blast)

lemma unique_keyed:
  assumes "evidence_ok s" "q \<in> set (st_evidence s)" "r \<in> set (st_evidence s)"
    "cv_case q = cv_case r" "cv_idempotency q = cv_idempotency r"
  shows "q = r"
proof -
  have "inj_on (\<lambda>r. (cv_case r, cv_idempotency r)) (set (st_evidence s))"
    using assms(1) by (simp add: evidence_ok_def unique_keys_def distinct_map)
  with assms show ?thesis by (simp add: inj_on_def)
qed

lemma by_key_keyed:
  assumes "evidence_ok s" "has (keyed r) (st_evidence s)"
  obtains q where "by_key (cv_case r) (cv_idempotency r) s = Some q" "keyed r q"
proof -
  obtain q where q: "q \<in> set (st_evidence s)" "keyed r q" using assms(2) by blast
  then have "by_key (cv_case r) (cv_idempotency r) s \<noteq> None"
    by (auto simp: by_key_def sql_find_None keyed_def)
  then obtain x where x: "by_key (cv_case r) (cv_idempotency r) s = Some x" by blast
  then have "x \<in> set (st_evidence s)" "cv_case x = cv_case r" "cv_idempotency x = cv_idempotency r"
    using sql_find_Some [OF x [unfolded by_key_def]] by simp_all
  with q assms(1) have "x = q" by (intro unique_keyed) (auto simp: keyed_def)
  with x q that show thesis by blast
qed

text \<open>What a successful enqueue answers, over the table it leaves.\<close>

definition answered :: "string \<Rightarrow> string \<Rightarrow> service_error + evidence_row \<times> bool \<Rightarrow> evidence_row list \<Rightarrow> bool" where
  "answered key fp a rows \<longleftrightarrow> (\<forall>r b. a = Inr (r, b) \<longrightarrow> cv_idempotency r = key \<and> cv_fingerprint r = fp \<and>
     has (keyed r) rows)"

abbreviation answers :: "string set \<Rightarrow> string \<Rightarrow> string \<Rightarrow> (evidence_row \<times> bool) service \<Rightarrow> bool" where
  "answers A key fp p \<equiv> triple (amid A (\<lambda>_. True)) p (\<lambda>a. amid A (answered key fp a))"

lemma answered_replay:
  "r \<in> set rows \<Longrightarrow> cv_idempotency r = key \<Longrightarrow> answered key fp (replay_of r fp) rows"
  by (auto simp: answered_def replay_of_def keyed_def)

lemma answers_error: "answers A key fp (State_Monad.return (Inl e))"
  by (rule amid_return) (simp add: answered_def)

lemma answers_query:
  "(\<And>a. answers A key fp (q a)) \<Longrightarrow> answers A key fp (State_Monad.bind (transact (\<lambda>t s. (f t s, s))) q)"
  by (rule triple_bind [OF amid_query [where Q = "\<lambda>_ _. True"]]) (simp_all add: stable_True)

lemma answers_any: "answers A key fp p \<Longrightarrow> triple (amid A P) p (\<lambda>a. amid A (answered key fp a))"
  by (erule triple_weaken) (simp_all add: amid_def)

lemma by_key_query:
  "triple (amid A (\<lambda>_. True)) (transact (\<lambda>_ s. (by_key i key s, s)))
     (\<lambda>a. amid A (\<lambda>rows. \<forall>r. a = Some r \<longrightarrow> r \<in> set rows \<and> cv_idempotency r = key))"
proof (rule amid_query [OF stable_True])
  fix t :: turn and s
  show "\<forall>r. by_key i key s = Some r \<longrightarrow> r \<in> set (st_evidence s) \<and> cv_idempotency r = key"
    using sql_find_Some by (fastforce simp: by_key_def)
qed

lemma answers_key:
  "answers A key fp q \<Longrightarrow> answers A key fp (State_Monad.bind (transact (\<lambda>_ s. (by_key i key s, s)))
     (\<lambda>a. case a of None \<Rightarrow> q | Some r \<Rightarrow> State_Monad.return (replay_of r fp)))"
  by (rule triple_bind [OF by_key_query])
    (auto split: option.split intro!: amid_return intro: answers_any answered_replay)

lemma answers_key_last:
  "answers A key fp (State_Monad.bind (transact (\<lambda>_ s. (by_key i key s, s)))
     (\<lambda>a. State_Monad.return (case a of None \<Rightarrow> Inl e | Some r \<Rightarrow> replay_of r fp)))"
  by (rule triple_bind [OF by_key_query], rule amid_return)
    (auto split: option.split intro: answered_replay simp: answered_def [of key fp "Inl e"])

lemma answers_insert:
  assumes "answers A key fp q"
  shows "answers A key fp (State_Monad.bind
      (transact (\<lambda>t s. let r = queued_evidence_row rr rq key fp m (i s) (tn_token t) (tn_now t)
         in case insert_evidence r s of None \<Rightarrow> (None, s) | Some s' \<Rightarrow> (Some r, s')))
      (\<lambda>a. case a of None \<Rightarrow> q | Some r \<Rightarrow> State_Monad.return (Inr (r, False))))"
proof (rule triple_bind [OF amid_transact [where Q = "\<lambda>a rows. \<forall>r. a = Some r \<longrightarrow>
    answered key fp (Inr (r, False)) rows"]])
  fix t s
  let ?r = "queued_evidence_row rr rq key fp m (i s) (tn_token t) (tn_now t)"
  let ?f = "let r = ?r in case insert_evidence r s of None \<Rightarrow> (None, s) | Some s' \<Rightarrow> (Some r, s')"
  have "evidence_step A s (snd ?f)"
    using insert_evidence_step [of ?r s]
    by (auto simp: queued_evidence_row_def Let_def evidence_step_refl split: option.split)
  moreover have "\<forall>r. fst ?f = Some r \<longrightarrow> answered key fp (Inr (r, False)) (st_evidence (snd ?f))"
    by (auto simp: Let_def insert_evidence_def answered_def keyed_def queued_evidence_row_def
        split: option.split if_splits)
  ultimately show "evidence_step A s (snd ?f) \<and>
      (\<forall>r. fst ?f = Some r \<longrightarrow> answered key fp (Inr (r, False)) (st_evidence (snd ?f)))" by blast
qed (use assms in \<open>auto simp: stable_True split: option.split intro!: amid_return intro: answers_any\<close>)

lemma enqueue_answers:
  "answers A key (fp rq) (enqueue_evidence resolve fp rt m owner cp rq key runner)"
  unfolding enqueue_evidence_def
  by (intro answers_query answers_key)
    (auto split: option.split sum.split intro!: answers_error answers_query answers_key
       answers_key_last answers_insert)

lemma replay_query:
  assumes "cv_case r = i" "cv_idempotency r = key"
  shows "triple (amid A (has (keyed r))) (State_Monad.bind (transact (\<lambda>_ s. (by_key i key s, s)))
     (\<lambda>a. case a of None \<Rightarrow> q | Some x \<Rightarrow> State_Monad.return (replay_of x fp)))
     (\<lambda>a. amid A (\<lambda>_. \<exists>x. keyed r x \<and> a = replay_of x fp))"
proof (rule triple_bind [OF amid_query [where Q = "\<lambda>a _. \<exists>x. a = Some x \<and> keyed r x"]])
  fix t :: turn and s assume "evidence_ok s" "has (keyed r) (st_evidence s)"
  then obtain x where "by_key (cv_case r) (cv_idempotency r) s = Some x" "keyed r x"
    by (rule by_key_keyed)
  with assms show "\<exists>x. by_key i key s = Some x \<and> keyed r x" by simp
next
  fix a
  show "triple (amid A (\<lambda>_. \<exists>x. a = Some x \<and> keyed r x))
      (case a of None \<Rightarrow> q | Some x \<Rightarrow> State_Monad.return (replay_of x fp))
      (\<lambda>a. amid A (\<lambda>_. \<exists>x. keyed r x \<and> a = replay_of x fp))"
    by (cases a) (auto simp: triple_def amid_def)
qed (rule stable_keyed)

lemma enqueue_again:
  assumes w: "amid A (has (keyed r)) w"
    and c: "required_case owner cp (tn_env (w_sched w (w_turn w)) (w_store w)) = Some c" "wc_id c = cv_case r"
    and key: "cv_idempotency r = key"
  shows "\<exists>x. keyed r x \<and> fst (run_state (enqueue_evidence resolve fp rt m owner cp rq key runner) w) =
    replay_of x (fp rq)"
proof -
  let ?p = "transact (\<lambda>_ s. (required_case owner cp s, s))"
  have fst: "fst (run_state ?p w) = Some c" using c(1) by (simp add: run_transact Let_def)
  have "triple (amid A (has (keyed r))) ?p (\<lambda>a. amid A (has (keyed r)))"
    by (rule amid_query [OF stable_keyed]) simp
  with w have w1: "amid A (has (keyed r)) (snd (run_state ?p w))" by (auto simp: triple_def)
  note q = replay_query [of r "wc_id c" key A, OF c(2) [symmetric] key]
  show ?thesis
    unfolding enqueue_evidence_def run_bind [of ?p] fst option.case
    by (rule triple_post [OF q w1, unfolded amid_def, THEN conjunct2, THEN conjunct2])
qed

text \<open>C27: repeating a successful enqueue with the same idempotency key answers the job it created, or
  a conflict when the request differs, and never a second job; the worker and other requests may
  do anything in between.\<close>

theorem enqueue_replays:
  assumes "sched_keeps (evidence_step A) A w" "evidence_ok (w_store w)"
    and "run_state (enqueue_evidence resolve fp rt m owner cp rq key runner) w = (Inr (r, b), w')"
    and "required_case owner cp (tn_env (w_sched w' (w_turn w')) (w_store w')) = Some c" "wc_id c = cv_case r"
  shows "\<exists>x. cv_id x = cv_id r \<and> cv_selection x = cv_selection r \<and>
     fst (run_state (enqueue_evidence resolve' fp rt' m' owner cp rq' key runner') w') =
       (if fp rq' = fp rq then Inr (x, True) else Inl Idempotency_Conflict)"
proof -
  have "amid A (\<lambda>_. True) w" using assms(1,2) by (simp add: amid_def)
  from triple_run [OF enqueue_answers this assms(3)] have "amid A (answered key (fp rq) (Inr (r, b))) w'" .
  then have w': "amid A (has (keyed r)) w'" and r: "cv_idempotency r = key" "cv_fingerprint r = fp rq"
    by (auto simp: amid_def answered_def)
  from enqueue_again [OF w' assms(4,5) r(1), of resolve' fp rt' m' rq' runner']
  obtain x where "keyed r x" "fst (run_state (enqueue_evidence resolve' fp rt' m' owner cp rq' key runner') w') =
      replay_of x (fp rq')" by blast
  with r(2) show ?thesis by (intro exI [of _ x]) (auto simp: keyed_def replay_of_def)
qed

section \<open>Concrete requests\<close>

definition request_world :: "store \<Rightarrow> world" where
  "request_world s = \<lparr> w_store = s, w_turn = 0, w_sched = (\<lambda>n. \<lparr> tn_now = 490, tn_later = 491,
     tn_wall = 490, tn_fault = False, tn_env = (\<lambda>s. s), tn_stop = False, tn_token = ''drawn'' \<rparr>) \<rparr>"

definition empty_store :: store where
  "empty_store = complete_store\<lparr> st_evidence := [] \<rparr>"

definition evidence_resolution :: resolved_request where
  "evidence_resolution = \<lparr> rr_case = evidence_case, rr_selection = \<lparr> rs_environment = ''live'',
       rs_network = ''ton-mainnet'', rs_data_mode = ''real'', rs_provider = live_provider,
       rs_run = Some (''real'', ''ton-mainnet''), rs_source_provider = None, rs_source_public = ''sync-1'',
       rs_transaction = 5, rs_source_run = 9, rs_hash = ''ab'', rs_semantics = ''fp'' \<rparr>,
     rr_snapshot_id = 1, rr_source_id = 1, rr_source_mode = ''real'', rr_provider = live_provider,
     rr_logical_time = ''7'' \<rparr>"

definition evidence_runtime :: runtime_settings where
  "evidence_runtime = \<lparr> rt_network = ''mainnet'', rt_real = True, rt_live = True, rt_provider = ''tonapi'',
     rt_trust = 0, rt_configured = True \<rparr>"

definition sample_request :: evidence_request where
  "sample_request = \<lparr> rq_snapshot = ''sync-1'', rq_activity = ''act'', rq_policy = ''transaction_inclusion_v1'' \<rparr>"

lemma request_world_simps [simp]:
  "w_store (request_world s) = s" "w_turn (request_world s) = 0"
  "sched_keeps (evidence_step {''drawn''}) {''drawn''} (request_world s)"
  "tn_env (w_sched (request_world s) n) = (\<lambda>s. s)" "tn_now (w_sched (request_world s) n) = 490"
  "tn_token (w_sched (request_world s) n) = ''drawn''"
  by (simp_all add: request_world_def sched_keeps_def)

lemma complete_job_ok: "evidence_ok complete_store"
  using sample_job_ok
  by (simp add: evidence_ok_def evidence.table_ok_def unique_keys_def unique_active_def complete_store_def
      complete_job_def evidence_row_ok_def evidence_checks_def evidence_state_progress_def
      evidence_cancel_state_def evidence_lifecycle_def evidence_artifact_prefix_def sample_job_def)

lemma sample_cancellation:
  "fst (run_state (cancel_evidence ''local'' ''case-7'' ''job-1'') (request_world complete_store)) =
     Inr (ev_running_cancel_row 490 complete_job, True)"
proof -
  have c: "required_case ''local'' ''case-7'' complete_store = Some evidence_case"
    by (simp add: required_case_def sql_find_def complete_store_def evidence_case_def)
  have f: "find_evidence 7 ''job-1'' complete_store = Some complete_job"
    by (simp add: find_evidence_def sql_find_def complete_store_def complete_job_def sample_job_def)
  let ?s = "complete_store\<lparr> st_evidence := [ev_running_cancel_row 490 complete_job] \<rparr>"
  have w: "cancel_swap 7 complete_job 490 complete_store = (1, ?s)"
    by (simp add: cancel_swap_def update_evidence_def sql_update_def complete_store_def complete_job_def
        sample_job_def)
  have g: "find_evidence 7 ''job-1'' ?s = Some (ev_running_cancel_row 490 complete_job)"
    by (simp add: find_evidence_def sql_find_def ev_running_cancel_row_def complete_job_def sample_job_def)
  have j: "cv_state complete_job = Running" "cv_cancel complete_job = None" "wc_id evidence_case = 7"
    "cv_state (ev_running_cancel_row 490 complete_job) = Running" "cancel_attempts = 8"
    by (simp_all add: complete_job_def sample_job_def evidence_case_def ev_running_cancel_row_def cancel_attempts_def)
  show ?thesis
    by (simp add: cancel_evidence_def run_bind run_transact Let_def c f w g j read_back_def
        cancel_loop.simps(2) [of 7, unfolded Suc_numeral semiring_norm])
qed

theorem cancel_flag_exact_witness:
  "cv_state (ev_running_cancel_row 490 complete_job) = Running \<and>
   cv_cancel (ev_running_cancel_row 490 complete_job) \<noteq> None"
  using cancel_flag_exact [OF request_world_simps(3) _ sample_cancellation] complete_job_ok by simp

lemma empty_store_ok: "evidence_ok empty_store"
  by (simp add: evidence_ok_def evidence.table_ok_def unique_keys_def unique_active_def empty_store_def)

definition first_row :: evidence_row where
  "first_row = queued_evidence_row evidence_resolution sample_request ''key'' ''print'' 3
     (new_id []) ''drawn'' 490"

lemma sample_enqueue:
  "run_state (enqueue_evidence (\<lambda>_. Inr evidence_resolution) (\<lambda>_. ''print'') evidence_runtime 3
       ''local'' ''case-7'' sample_request ''key'' True) (request_world empty_store) =
     (Inr (first_row, False), (request_world empty_store)
        \<lparr> w_turn := 5, w_store := empty_store\<lparr> st_evidence := [first_row] \<rparr> \<rparr>)"
proof -
  have c: "required_case ''local'' ''case-7'' empty_store = Some evidence_case"
    by (simp add: required_case_def sql_find_def empty_store_def complete_store_def evidence_case_def)
  have e: "by_key i k empty_store = None" "active_selection i n sample_request empty_store = None"
    "st_evidence empty_store = []" for i k n
    by (simp_all add: by_key_def active_selection_def sql_find_def empty_store_def)
  have r: "wc_environment (rr_case evidence_resolution) = ''live''" "rr_source_mode evidence_resolution = ''real''"
    "runtime_limitation (rr_selection evidence_resolution) True evidence_runtime = None"
    by (simp_all add: evidence_resolution_def evidence_case_def runtime_limitation_def evidence_runtime_def
        live_provider_def)
  have i: "insert_evidence first_row empty_store = Some (empty_store\<lparr> st_evidence := [first_row] \<rparr>)"
    by (simp add: insert_evidence_def e first_row_def queued_evidence_row_def sample_request_def
        evidence_checks_def evidence_state_progress_def evidence_cancel_state_def evidence_lifecycle_def
        evidence_artifact_prefix_def no_artifacts_def)
  show ?thesis
    by (simp add: enqueue_evidence_def run_bind run_transact Let_def c e r i first_row_def [symmetric])
qed

theorem enqueue_replays_witness:
  "\<exists>x. cv_id x = cv_id first_row \<and> cv_selection x = cv_selection first_row \<and>
     fst (run_state (enqueue_evidence (\<lambda>_. Inl Resolution_Failed) (\<lambda>_. ''print'') evidence_runtime 3
         ''local'' ''case-7'' sample_request ''key'' True) ((request_world empty_store)
        \<lparr> w_turn := 5, w_store := empty_store\<lparr> st_evidence := [first_row] \<rparr> \<rparr>)) = Inr (x, True)"
proof -
  have c: "required_case ''local'' ''case-7'' (empty_store\<lparr> st_evidence := [first_row] \<rparr>) = Some evidence_case"
    by (simp add: required_case_def sql_find_def empty_store_def complete_store_def evidence_case_def)
  have i: "wc_id evidence_case = cv_case first_row"
    by (simp add: evidence_case_def first_row_def queued_evidence_row_def evidence_resolution_def)
  show ?thesis
    using enqueue_replays [OF request_world_simps(3) _ sample_enqueue _ i,
        where resolve' = "\<lambda>_. Inl Resolution_Failed" and rt' = evidence_runtime and m' = 3
        and rq' = sample_request and runner' = True] c
    by (simp add: empty_store_ok request_world_def)
qed

end
