(* ===== verification/Case_Evidence_Scope.thy ===== *)
theory Case_Evidence_Scope
  imports Case_Evidence_Jobs
begin

text \<open>
  \<open>backend/services/wallet_case_evidence.py\<close>: the scope validation that every read of a job runs,
  and the process-wide selection cache that spares active jobs the repeated resolution.

  \<open>time.monotonic\<close> is read as a number of microseconds.  The transaction table, the run and
  observation checks of the Activity service and the digest of a request are arguments.
\<close>

section \<open>The selection cache\<close>

text \<open>An \<open>OrderedDict\<close> from keys to expiry times, the least recently used entry first.\<close>

type_synonym 'k cache = "('k \<times> int) list"

definition cache_ttl :: int where "cache_ttl = 5000000"
definition cache_max :: nat where "cache_max = 1024"

definition pop_key :: "'k \<Rightarrow> 'k cache \<Rightarrow> 'k cache" where
  "pop_key k c = filter (\<lambda>e. fst e \<noteq> k) c"

definition cache_hit :: "'k \<Rightarrow> int \<Rightarrow> 'k cache \<Rightarrow> bool \<times> 'k cache" where
  "cache_hit k now c =
    (case map_of c k of
       None \<Rightarrow> (False, c)
     | Some expires \<Rightarrow>
         if expires \<le> now then (False, pop_key k c) else (True, pop_key k c @ [(k, expires)]))"

text \<open>\<open>while len(cache) > max: popitem(last=False)\<close>.\<close>

function evict :: "'k cache \<Rightarrow> 'k cache" where
  "evict c = (if cache_max < length c then evict (tl c) else c)"
  by pat_completeness auto
termination by (relation "measure length") auto

declare evict.simps [simp del]

definition cache_store :: "'k \<Rightarrow> int \<Rightarrow> 'k cache \<Rightarrow> 'k cache" where
  "cache_store k now c = evict (pop_key k c @ [(k, now + cache_ttl)])"

definition selection_cache_key ::
  "evidence_row \<Rightarrow> string \<times> int \<times> int \<times> int \<times> int \<times> int \<times> string \<times> string \<times> string" where
  "selection_cache_key r = (let sel = cv_selection r in
    (cv_public r, cv_version r, cv_case r, sl_snapshot sel, sl_source_sync sel, sl_transaction sel,
     sl_activity sel, sl_semantics sel, cv_fingerprint r))"

section \<open>The scope of a job\<close>

record transaction_row =
  tr_run :: int
  tr_hash :: "string option"
  tr_time :: "string option"

text \<open>An observation of a transaction, with the Activity id it yields for its case.\<close>

record observation =
  ob_identity :: "string option"
  ob_provider :: string
  ob_semantics :: string
  ob_activity :: string

record scope_reads =
  sr_transaction :: "int \<Rightarrow> transaction_row option"
  sr_run_matches :: "sync_row \<Rightarrow> case_row \<Rightarrow> bool"
  sr_observation :: "case_row \<Rightarrow> sync_row \<Rightarrow> transaction_row \<Rightarrow> observation option"
  sr_fingerprint :: "string \<Rightarrow> string \<Rightarrow> string \<Rightarrow> string"

definition published :: "sync_row \<Rightarrow> bool" where
  "published q \<longleftrightarrow> sy_state q \<in> {Partial, Succeeded} \<and> sy_run q \<noteq> None \<and> sy_provider q = live_provider"

definition source_scope ::
  "scope_reads \<Rightarrow> evidence_row \<Rightarrow> case_row \<Rightarrow> sync_row \<Rightarrow> sync_row \<Rightarrow> transaction_row \<Rightarrow> bool" where
  "source_scope rd r c snapshot source tr \<longleftrightarrow>
     wc_archived c = None \<and> sy_case snapshot = cv_case r \<and> sy_case source = cv_case r \<and>
     sy_id source \<le> sy_id snapshot \<and> published snapshot \<and> published source \<and>
     sy_run source = Some (tr_run tr) \<and>
     sl_network (cv_selection r) = wc_network c \<and> sl_account (cv_selection r) = wc_key c \<and>
     sl_policy (cv_selection r) = ''transaction_inclusion_v1'' \<and>
     cv_fingerprint r = sr_fingerprint rd (sy_public snapshot) (sl_activity (cv_selection r))
       (sl_policy (cv_selection r)) \<and>
     sr_run_matches rd source c"

definition observation_scope :: "evidence_row \<Rightarrow> transaction_row \<Rightarrow> observation option \<Rightarrow> bool" where
  "observation_scope r tr ob \<longleftrightarrow>
     (case ob of
        None \<Rightarrow> False
      | Some x \<Rightarrow>
          ob_identity x \<noteq> None \<and> sl_provider (cv_selection r) = ob_provider x \<and>
          ob_semantics x = sl_semantics (cv_selection r) \<and> ob_activity x = sl_activity (cv_selection r) \<and>
          tr_hash tr = Some (sl_hash (cv_selection r)) \<and> tr_time tr = Some (sl_time (cv_selection r)))"

definition stored_scope :: "scope_reads \<Rightarrow> store \<Rightarrow> evidence_row \<Rightarrow> bool" where
  "stored_scope rd s r =
    (case (sql_find (\<lambda>c. wc_id c = cv_case r) (st_cases s),
           sql_find (\<lambda>q. sy_id q = sl_snapshot (cv_selection r)) (st_syncs s),
           sql_find (\<lambda>q. sy_id q = sl_source_sync (cv_selection r)) (st_syncs s),
           sr_transaction rd (sl_transaction (cv_selection r))) of
       (Some c, Some snapshot, Some source, Some tr) \<Rightarrow>
         source_scope rd r c snapshot source tr \<and> observation_scope r tr (sr_observation rd c source tr)
     | _ \<Rightarrow> False)"

text \<open>The ids the Activity service resolves a selection to.\<close>

record resolution =
  rv_case :: int
  rv_snapshot :: int
  rv_source :: int
  rv_run :: int
  rv_transaction :: int
  rv_semantics :: string

definition agrees :: "store \<Rightarrow> evidence_row \<Rightarrow> resolution \<Rightarrow> bool" where
  "agrees s r v \<longleftrightarrow> rv_case v = cv_case r \<and> rv_snapshot v = sl_snapshot (cv_selection r) \<and>
     rv_source v = sl_source_sync (cv_selection r) \<and>
     (case sql_find (\<lambda>q. sy_id q = sl_source_sync (cv_selection r)) (st_syncs s) of
        None \<Rightarrow> False | Some q \<Rightarrow> sy_run q = Some (rv_run v)) \<and>
     rv_transaction v = sl_transaction (cv_selection r) \<and> rv_semantics v = sl_semantics (cv_selection r)"

text \<open>
  \<open>_validate_job_scope\<close>.  \<open>resolve\<close> is the Activity service's answer, its own exceptions already
  mapped; \<open>canonical\<close> the resolutions a catalog read brings along; \<open>now\<close> and \<open>later\<close> the clock at
  the lookup and at the store.
\<close>

type_synonym selection_cache =
  "(string \<times> int \<times> int \<times> int \<times> int \<times> int \<times> string \<times> string \<times> string) cache"

record scope_request =
  sq_row :: evidence_row
  sq_store :: store
  sq_reads :: scope_reads
  sq_resolve :: "evidence_exn + resolution"
  sq_canonical :: "(string \<Rightarrow> resolution option) option"
  sq_allow :: bool
  sq_now :: int
  sq_later :: int

definition cached_scope :: "scope_request \<Rightarrow> bool" where
  "cached_scope q \<longleftrightarrow> sq_allow q \<and> active_state (cv_state (sq_row q))"

definition look_up :: "scope_request \<Rightarrow> selection_cache \<Rightarrow> bool \<times> selection_cache" where
  "look_up q c =
    (if cached_scope q then cache_hit (selection_cache_key (sq_row q)) (sq_now q) c else (False, c))"

definition resolved_scope :: "scope_request \<Rightarrow> bool \<Rightarrow> evidence_exn + resolution option" where
  "resolved_scope q hit =
    (case sq_canonical q of
       None \<Rightarrow> if hit then Inr None else bind_result (sq_resolve q) (\<lambda>v. Inr (Some v))
     | Some m \<Rightarrow> (case m (sl_activity (cv_selection (sq_row q))) of
           None \<Rightarrow> Inl Stored_Conflict | Some v \<Rightarrow> Inr (Some v)))"

definition settle_scope ::
  "scope_request \<Rightarrow> bool \<Rightarrow> selection_cache \<Rightarrow> (evidence_exn + unit) \<times> selection_cache" where
  "settle_scope q hit c =
    (case resolved_scope q hit of
       Inl e \<Rightarrow> (Inl e, c)
     | Inr resolved \<Rightarrow>
         if hit then (Inr (), c)
         else if \<not> (case resolved of None \<Rightarrow> False | Some v \<Rightarrow> agrees (sq_store q) (sq_row q) v)
           then (Inl Stored_Conflict, c)
         else (Inr (), if cached_scope q then cache_store (selection_cache_key (sq_row q)) (sq_later q) c
                       else c))"

definition validate_job_scope ::
  "scope_request \<Rightarrow> selection_cache \<Rightarrow> (evidence_exn + unit) \<times> selection_cache" where
  "validate_job_scope q c =
    (if \<not> stored_scope (sq_reads q) (sq_store q) (sq_row q) then (Inl Stored_Conflict, c)
     else let (hit, c') = look_up q c in settle_scope q hit c')"

text \<open>A sequence of validations, sharing the cache.\<close>

fun validations :: "scope_request list \<Rightarrow> selection_cache \<Rightarrow> selection_cache" where
  "validations [] c = c"
| "validations (q # qs) c = validations qs (snd (validate_job_scope q c))"

section \<open>The cache is bounded\<close>

definition cache_ok :: "'k cache \<Rightarrow> bool" where
  "cache_ok c \<longleftrightarrow> distinct (map fst c) \<and> length c \<le> cache_max"

lemma evict_suffix: "\<exists>n. evict c = drop n c"
proof (induction c rule: evict.induct)
  case (1 c)
  show ?case
  proof (cases "cache_max < length c")
    case True
    with 1 obtain n where "evict (tl c) = drop n (tl c)" by blast
    with True have "evict c = drop (Suc n) c" by (simp add: evict.simps [of c] drop_Suc)
    then show ?thesis by blast
  qed (auto simp: evict.simps [of c] intro: exI [of _ 0])
qed

lemma evict_length: "length (evict c) \<le> cache_max"
  by (induction c rule: evict.induct) (subst evict.simps, simp)

lemma distinct_pop: "distinct (map fst c) \<Longrightarrow> distinct (map fst (pop_key k c @ [(k, e)]))"
  by (auto simp: pop_key_def distinct_map_filter)

lemma length_pop: "map_of c k = Some e \<Longrightarrow> length (pop_key k c) < length c"
  unfolding pop_key_def by (rule length_filter_less [of "(k, e)"]) (auto dest: map_of_SomeD)

lemma cache_hit_ok: "cache_ok c \<Longrightarrow> cache_ok (snd (cache_hit k now c))"
proof (cases "map_of c k")
  case (Some e)
  assume ok: "cache_ok c"
  have "cache_ok (pop_key k c)"
    using ok by (auto simp: cache_ok_def pop_key_def distinct_map_filter intro: le_trans [OF length_filter_le])
  moreover have "cache_ok (pop_key k c @ [(k, e)])"
    using ok length_pop [OF Some] distinct_pop [of c k e] unfolding cache_ok_def by simp
  ultimately show ?thesis using Some by (simp add: cache_hit_def)
qed (simp add: cache_hit_def)

lemma cache_store_ok: "cache_ok c \<Longrightarrow> cache_ok (cache_store k now c)"
proof -
  assume "cache_ok c"
  then have "distinct (map fst (pop_key k c @ [(k, now + cache_ttl)]))"
    unfolding cache_ok_def by (blast intro: distinct_pop)
  moreover obtain n where "cache_store k now c = drop n (pop_key k c @ [(k, now + cache_ttl)])"
    using evict_suffix unfolding cache_store_def by blast
  ultimately have "distinct (map fst (cache_store k now c))"
    by (simp only: drop_map [symmetric] distinct_drop)
  then show ?thesis by (simp add: cache_ok_def cache_store_def evict_length)
qed

lemma look_up_cache:
  "snd (look_up q c) = c \<or> snd (look_up q c) = snd (cache_hit (selection_cache_key (sq_row q)) (sq_now q) c)"
  "fst (look_up q c) \<Longrightarrow> fst (cache_hit (selection_cache_key (sq_row q)) (sq_now q) c)"
  by (auto simp: look_up_def split: if_splits)

lemma settle_cache:
  "snd (settle_scope q hit c) = c \<or>
   (\<not> hit \<and> fst (settle_scope q hit c) = Inr () \<and>
      snd (settle_scope q hit c) = cache_store (selection_cache_key (sq_row q)) (sq_later q) c)"
  by (auto simp: settle_scope_def split: sum.split)

lemma validate_cases:
  obtains "validate_job_scope q c = (Inl Stored_Conflict, c)"
  | "stored_scope (sq_reads q) (sq_store q) (sq_row q)"
    "validate_job_scope q c = settle_scope q (fst (look_up q c)) (snd (look_up q c))"
  by (cases "stored_scope (sq_reads q) (sq_store q) (sq_row q)") (simp_all add: validate_job_scope_def split_def Let_def)

lemma validate_ok:
  assumes "cache_ok c"
  shows "cache_ok (snd (validate_job_scope q c))"
proof -
  have "cache_ok (snd (look_up q c))" using look_up_cache(1) [of q c] cache_hit_ok [OF assms] assms by metis
  then show ?thesis
    using assms settle_cache [of q "fst (look_up q c)" "snd (look_up q c)"] cache_store_ok
    by (cases rule: validate_cases [of q c]) auto
qed

lemma validations_ok: "cache_ok c \<Longrightarrow> cache_ok (validations qs c)"
  by (induction qs arbitrary: c) (simp_all add: validate_ok)

text \<open>whatever jobs are validated, the process-wide selection cache never holds two entries for
  one key nor more than 1024 entries.\<close>

theorem selection_cache_bounded:
  "distinct (map fst (validations qs [])) \<and> length (validations qs []) \<le> 1024"
  using validations_ok [of "[]" qs] by (simp add: cache_ok_def cache_max_def)

section \<open>What an acceptance rests on\<close>

text \<open>A full validation: the Activity service resolved the selection to the job's own ids.\<close>

definition fully_validated :: "scope_request \<Rightarrow> bool" where
  "fully_validated q \<longleftrightarrow> stored_scope (sq_reads q) (sq_store q) (sq_row q) \<and>
     (\<exists>v. agrees (sq_store q) (sq_row q) v \<and>
        (case sq_canonical q of
           None \<Rightarrow> sq_resolve q = Inr v
         | Some m \<Rightarrow> m (sl_activity (cv_selection (sq_row q))) = Some v))"

definition backed :: "scope_request list \<Rightarrow> selection_cache \<Rightarrow> bool" where
  "backed qs c \<longleftrightarrow> (\<forall>(k, e) \<in> set c. \<exists>p \<in> set qs. fully_validated p \<and>
     selection_cache_key (sq_row p) = k \<and> e = sq_later p + cache_ttl)"

lemma backed_subset: "backed qs c \<Longrightarrow> set d \<subseteq> set c \<Longrightarrow> backed qs d"
  by (auto simp: backed_def)

lemma hit_subset: "set (snd (cache_hit k now c)) \<subseteq> set c"
  by (auto simp: cache_hit_def pop_key_def dest: map_of_SomeD split: option.split)

lemma cache_hit_True:
  "fst (cache_hit k now c) \<Longrightarrow> \<exists>e. (k, e) \<in> set c \<and> now < e"
  by (auto simp: cache_hit_def dest: map_of_SomeD split: option.splits if_splits)

lemma backed_store:
  assumes "backed qs c" "p \<in> set qs" "fully_validated p" "selection_cache_key (sq_row p) = k"
  shows "backed qs (cache_store k (sq_later p) c)"
proof -
  obtain n where "cache_store k (sq_later p) c = drop n (pop_key k c @ [(k, sq_later p + cache_ttl)])"
    using evict_suffix unfolding cache_store_def by blast
  then have "set (cache_store k (sq_later p) c) \<subseteq> insert (k, sq_later p + cache_ttl) (set c)"
    using set_drop_subset by (fastforce simp: pop_key_def)
  with assms show ?thesis unfolding backed_def by blast
qed

text \<open>A validation that ends well without a hit is a full one.\<close>

lemma settle_full:
  assumes "fst (settle_scope q hit c) = Inr ()" "\<not> hit" "stored_scope (sq_reads q) (sq_store q) (sq_row q)"
  shows "fully_validated q"
  using assms by (auto simp: settle_scope_def resolved_scope_def fully_validated_def bind_result_Inr
      split: sum.splits option.splits if_splits)

lemma validate_backed:
  assumes "backed qs c" "q \<in> set qs"
  shows "backed qs (snd (validate_job_scope q c))"
proof (cases rule: validate_cases [of q c])
  case 1
  with assms show ?thesis by simp
next
  case 2
  let ?h = "fst (look_up q c)" and ?c = "snd (look_up q c)"
  have c: "backed qs ?c" using look_up_cache(1) [of q c] backed_subset [OF assms(1) hit_subset] assms(1) by metis
  from settle_cache [of q ?h ?c] show ?thesis
  proof
    assume "\<not> ?h \<and> fst (settle_scope q ?h ?c) = Inr () \<and>
      snd (settle_scope q ?h ?c) = cache_store (selection_cache_key (sq_row q)) (sq_later q) ?c"
    moreover from this have "fully_validated q" using settle_full [of q ?h ?c] 2(1) by blast
    ultimately show ?thesis unfolding 2(2) using backed_store [OF c assms(2)] by metis
  qed (use c 2(2) in simp)
qed

lemma validations_backed: "backed qs c \<Longrightarrow> set ps \<subseteq> set qs \<Longrightarrow> backed qs (validations ps c)"
  by (induction ps arbitrary: c) (simp_all add: validate_backed)

text \<open>C28: a read of a job passes the scope validation only if the stored rows still match and the
  Activity service resolves the selection to the job's own ids, now or, for the very same row
  version, in a validation that ended less than five seconds before.\<close>

theorem scope_acceptance_recent:
  assumes "fst (validate_job_scope q (validations qs [])) = Inr ()"
  shows "stored_scope (sq_reads q) (sq_store q) (sq_row q) \<and>
     (fully_validated q \<or> (\<exists>p \<in> set qs. fully_validated p \<and>
        cv_public (sq_row p) = cv_public (sq_row q) \<and> cv_version (sq_row p) = cv_version (sq_row q) \<and>
        cv_fingerprint (sq_row p) = cv_fingerprint (sq_row q) \<and> sq_now q < sq_later p + 5000000))"
proof (cases "fully_validated q")
  case False
  let ?c = "validations qs []"
  have 2: "stored_scope (sq_reads q) (sq_store q) (sq_row q)" "fst (look_up q ?c)"
  proof -
    have "stored_scope (sq_reads q) (sq_store q) (sq_row q) \<and>
        fst (settle_scope q (fst (look_up q ?c)) (snd (look_up q ?c))) = Inr ()"
      using assms by (cases rule: validate_cases [of q ?c]) simp_all
    note a = this
    then show "stored_scope (sq_reads q) (sq_store q) (sq_row q)" by (rule conjunct1)
    show "fst (look_up q ?c)"
      by (rule ccontr) (use False settle_full [OF conjunct2 [OF a] _ conjunct1 [OF a]] in iprover)
  qed
  obtain e where e: "(selection_cache_key (sq_row q), e) \<in> set ?c" "sq_now q < e"
    by (rule exE [OF cache_hit_True [OF look_up_cache(2) [OF 2(2)]]], erule conjE, rule that)
  have "backed qs (validations qs [])" by (rule validations_backed) (simp_all add: backed_def)
  with e(1) obtain p where "p \<in> set qs" "fully_validated p"
    "selection_cache_key (sq_row p) = selection_cache_key (sq_row q)" "e = sq_later p + cache_ttl"
    unfolding backed_def by blast
  with 2 e(2) show ?thesis by (intro conjI disjI2 bexI [of _ p]) (simp_all add: selection_cache_key_def Let_def cache_ttl_def)
qed (simp add: fully_validated_def)

section \<open>Two reads of a running job\<close>

definition scope_case :: case_row where
  "scope_case = \<lparr> wc_id = 7, wc_public = ''case-7'', wc_owner = ''local'', wc_network = ''ton-mainnet'',
     wc_environment = ''live'', wc_key = ''0:0'', wc_version = ''ton_raw_address_v1'', wc_display = ''0:0'', wc_label = None, wc_note = None,
     wc_created = 0, wc_updated = 50, wc_archived = None, wc_metadata_version = 1 \<rparr>"

definition scope_store :: store where
  "scope_store = proven_store\<lparr> st_cases := [scope_case],
     st_syncs := [published_sync\<lparr> sy_provider := live_provider \<rparr>] \<rparr>"

definition scope_rows :: scope_reads where
  "scope_rows = \<lparr> sr_transaction = (\<lambda>_. Some \<lparr> tr_run = 9, tr_hash = Some ''ab'', tr_time = Some ''7'' \<rparr>),
     sr_run_matches = (\<lambda>_ _. True),
     sr_observation = (\<lambda>_ _ _. Some \<lparr> ob_identity = Some ''id'', ob_provider = ''tonapi'',
       ob_semantics = ''fp'', ob_activity = ''act'' \<rparr>),
     sr_fingerprint = (\<lambda>_ _ _. ''print'') \<rparr>"

definition first_read :: scope_request where
  "first_read = \<lparr> sq_row = sample_job, sq_store = scope_store, sq_reads = scope_rows,
     sq_resolve = Inr \<lparr> rv_case = 7, rv_snapshot = 1, rv_source = 1, rv_run = 9, rv_transaction = 5,
       rv_semantics = ''fp'' \<rparr>, sq_canonical = None, sq_allow = True, sq_now = 1000, sq_later = 1200 \<rparr>"

definition second_read :: scope_request where
  "second_read = first_read\<lparr> sq_resolve := Inl Stored_Conflict, sq_now := 4000000 \<rparr>"

lemma first_scope: "stored_scope scope_rows scope_store sample_job"
  by (simp add: stored_scope_def sql_find_def scope_store_def sample_job_def sample_selection_def
      published_sync_def scope_case_def scope_rows_def source_scope_def observation_scope_def published_def)

lemma first_cache: "validations [first_read] [] = [(selection_cache_key sample_job, 5001200)]"
  using first_scope
  by (simp add: validate_job_scope_def first_read_def look_up_def cached_scope_def cache_hit_def
      settle_scope_def resolved_scope_def agrees_def sql_find_def scope_store_def published_sync_def
      cache_store_def pop_key_def evict.simps cache_max_def cache_ttl_def)
    (simp add: sample_job_def sample_selection_def)

lemma second_accepted: "fst (validate_job_scope second_read (validations [first_read] [])) = Inr ()"
  unfolding first_cache using first_scope
  by (simp add: validate_job_scope_def second_read_def first_read_def look_up_def cached_scope_def
      cache_hit_def settle_scope_def resolved_scope_def) (simp add: sample_job_def)

theorem scope_acceptance_recent_witness:
  "fully_validated first_read \<and> sq_now second_read < sq_later first_read + 5000000"
proof -
  have "\<not> fully_validated second_read"
    by (simp add: fully_validated_def second_read_def first_read_def)
  with scope_acceptance_recent [OF second_accepted] show ?thesis by simp
qed

end
