(* ===== verification/Case_Lifecycle.thy ===== *)
theory Case_Lifecycle
  imports Ton_Address Case_Sync_Jobs
begin

text \<open>
  The lifecycle of a Wallet Case: \<open>backend/services/wallet_cases.py\<close>
  (\<open>create_or_open_case\<close>, \<open>update_case_metadata\<close>, \<open>archive_case\<close>, \<open>restore_case\<close>,
  \<open>delete_case\<close>) over \<open>backend/repositories/wallet_cases.py\<close>.

  A request is a sequence of short transactions in the world of \<open>Case_Store\<close>: its reads, its
  guarded statement with everything committed with it, and its reads of the answer are turns, and
  any other session may commit between two of them.
\<close>

section \<open>Requests, answers and errors\<close>

text \<open>\<open>WalletCaseCreateRequest\<close> and \<open>WalletCaseMetadataUpdateRequest\<close>; a field of the update
  is \<open>None\<close> when the request leaves it out (\<open>model_fields_set\<close>).\<close>

record create_request =
  cq_address :: string
  cq_network :: ton_network
  cq_environment :: string
  cq_label :: "string option"
  cq_note :: "string option"

record metadata_request =
  mq_expected :: int
  mq_label :: "string option option"
  mq_note :: "string option option"

definition clean_optional_text :: "nat \<Rightarrow> string option \<Rightarrow> string option option" where
  "clean_optional_text limit value =
    (case value of
       None \<Rightarrow> Some None
     | Some s \<Rightarrow> if limit < length s then None
         else Some (let cleaned = strip s in if cleaned = [] then None else Some cleaned))"

definition clean_wallet_address :: "string \<Rightarrow> string option" where
  "clean_wallet_address value =
    (let cleaned = strip value in
     if length value < 1 \<or> 128 < length value \<or> cleaned = [] then None else Some cleaned)"

text \<open>The validated payloads; \<open>None\<close> is the \<open>ValidationError\<close> of the model.\<close>

definition validate_create :: "create_request \<Rightarrow> create_request option" where
  "validate_create q = do {
     address \<leftarrow> clean_wallet_address (cq_address q);
     label \<leftarrow> clean_optional_text 120 (cq_label q);
     note \<leftarrow> clean_optional_text 4000 (cq_note q);
     if cq_network q = Ton_Unknown \<or> cq_environment q \<notin> {''demo'', ''live''} then None
     else Some (q\<lparr> cq_address := address, cq_label := label, cq_note := note \<rparr>) }"

definition clean_field :: "nat \<Rightarrow> string option option \<Rightarrow> string option option option" where
  "clean_field limit given =
    (case given of None \<Rightarrow> Some None | Some v \<Rightarrow> map_option Some (clean_optional_text limit v))"

definition validate_metadata :: "metadata_request \<Rightarrow> metadata_request option" where
  "validate_metadata q = do {
     label \<leftarrow> clean_field 120 (mq_label q);
     note \<leftarrow> clean_field 4000 (mq_note q);
     if mq_expected q < 1 \<or> (mq_label q = None \<and> mq_note q = None) then None
     else Some (q\<lparr> mq_label := label, mq_note := note \<rparr>) }"

text \<open>
  The errors: \<open>ValueError\<close>, \<open>WalletCaseNotFound\<close>, \<open>WalletCaseMetadataConflict\<close> with the current
  version, \<open>WalletCaseArchiveConflict\<close> and \<open>WalletCaseDeletionConflict\<close> with the active jobs,
  \<open>WalletCaseRuntimeConflict\<close>, \<open>IntegrityError\<close>, and the ORM's errors for a row that vanished.
\<close>

datatype case_error =
    Invalid_Case | Case_Not_Found | Metadata_Conflict int
  | Archive_Conflict "string option" "string option"
  | Deletion_Conflict "string option" "string option"
  | Runtime_Conflict | Integrity_Error | Stale_Row

text \<open>What \<open>_case_response\<close> is built from: the row and the attempts it shows.\<close>

record case_reply =
  rp_case :: case_row
  rp_latest :: "sync_row option"
  rp_active :: "sync_row option"
  rp_snapshot :: "sync_row option"

section \<open>Queries\<close>

definition get_by_identity :: "string \<Rightarrow> string \<Rightarrow> string \<Rightarrow> string \<Rightarrow> store \<Rightarrow> case_row option" where
  "get_by_identity owner net environment key s =
    sql_find (\<lambda>c. wc_owner c = owner \<and> wc_network c = net \<and> wc_environment c = environment \<and>
      wc_key c = key) (st_cases s)"

definition get_any_by_public_id :: "string \<Rightarrow> string \<Rightarrow> store \<Rightarrow> case_row option" where
  "get_any_by_public_id owner public s =
    sql_find (\<lambda>c. wc_owner c = owner \<and> wc_public c = public) (st_cases s)"

definition get_active_sync :: "int \<Rightarrow> store \<Rightarrow> sync_row option" where
  "get_active_sync case_id s =
    sql_find (\<lambda>r. sy_case r = case_id \<and> active_state (sy_state r)) (st_syncs s)"

definition get_active_evidence :: "int \<Rightarrow> store \<Rightarrow> evidence_row option" where
  "get_active_evidence case_id s =
    sql_find (\<lambda>r. cv_case r = case_id \<and> active_state (cv_state r)) (st_evidence s)"

text \<open>The row with the largest id among those a condition selects.\<close>

definition newest_sync :: "(sync_row \<Rightarrow> bool) \<Rightarrow> store \<Rightarrow> sync_row option" where
  "newest_sync p s =
    (case filter p (st_syncs s) of [] \<Rightarrow> None
     | rows \<Rightarrow> sql_find (\<lambda>r. sy_id r = Max (sy_id ` set rows)) rows)"

definition latest_sync :: "int \<Rightarrow> store \<Rightarrow> sync_row option" where
  "latest_sync case_id = newest_sync (\<lambda>r. sy_case r = case_id)"

definition latest_usable_sync :: "int \<Rightarrow> store \<Rightarrow> sync_row option" where
  "latest_usable_sync case_id =
    newest_sync (\<lambda>r. sy_case r = case_id \<and> sy_state r \<in> {Partial, Succeeded})"

definition case_reply_of :: "case_row \<Rightarrow> store \<Rightarrow> case_reply" where
  "case_reply_of c s =
    \<lparr> rp_case = c, rp_latest = latest_sync (wc_id c) s, rp_active = get_active_sync (wc_id c) s,
      rp_snapshot = latest_usable_sync (wc_id c) s \<rparr>"

text \<open>The answers about an archived Case show no active attempt.\<close>

definition idle_reply_of :: "case_row \<Rightarrow> store \<Rightarrow> case_reply" where
  "idle_reply_of c s = (case_reply_of c s)\<lparr> rp_active := None \<rparr>"

definition read_only :: "(store \<Rightarrow> 'a) \<Rightarrow> 'a prog" where
  "read_only f = transact (\<lambda>_ s. (f s, s))"

section \<open>Runtime settings\<close>

text \<open>The settings \<open>_settings_for_scope\<close> reads, and the status of the activity provider.\<close>

record case_settings =
  rs_real :: bool
  rs_network :: string
  rs_provider :: string
  rs_live_enabled :: bool
  rs_configured :: bool
  rs_available :: bool

definition settings_for_scope :: "string \<Rightarrow> string \<Rightarrow> case_settings \<Rightarrow> case_settings option" where
  "settings_for_scope net environment rs =
    (let runtime_network = (if take 4 net = ''ton-'' then drop 4 net else net) in
     if environment = ''demo'' then
       Some (rs\<lparr> rs_real := False, rs_provider := ''mock'', rs_live_enabled := False,
         rs_network := runtime_network \<rparr>)
     else if \<not> rs_real rs then None
     else if rs_network rs \<noteq> runtime_network then None
     else if rs_provider rs \<noteq> ''tonapi'' \<or> \<not> rs_live_enabled rs then None
     else if \<not> (rs_configured rs \<and> rs_available rs) then None
     else Some rs)"

section \<open>Creation\<close>

definition requested_identity :: "create_request \<Rightarrow> (case_error, string \<times> string) result" where
  "requested_identity q =
    (let i = derive_ton_wallet_identity (PStr (cq_address q)) (Some (cq_network q)) in
     case canonical_address i of
       None \<Rightarrow> Inl Invalid_Case
     | Some key \<Rightarrow>
         if status i \<noteq> Network_Scoped \<or> key = [] then Inl Invalid_Case
         else if network i \<noteq> cq_network q then Inl Invalid_Case
         else if cq_environment q = ''live'' \<and> workchain_id i \<notin> {Some (- 1), Some 0}
         then Inl Invalid_Case
         else Inr (key, version i))"

definition new_case_row :: "string \<Rightarrow> create_request \<Rightarrow> string \<Rightarrow> string \<Rightarrow> int \<Rightarrow> string \<Rightarrow> int \<Rightarrow> case_row" where
  "new_case_row owner q key identity_version i public now =
    \<lparr> wc_id = i, wc_public = public, wc_owner = owner, wc_network = ton_network_text (cq_network q),
      wc_environment = cq_environment q, wc_key = key, wc_version = identity_version,
      wc_display = cq_address q, wc_label = cq_label q, wc_note = cq_note q, wc_created = now,
      wc_updated = now, wc_archived = None, wc_metadata_version = 1 \<rparr>"

definition case_checks :: "case_row \<Rightarrow> bool" where
  "case_checks c \<longleftrightarrow>
     wc_network c \<in> {''ton-mainnet'', ''ton-testnet''} \<and> wc_environment c \<in> {''demo'', ''live''}"

definition scope_identity :: "case_row \<Rightarrow> string \<times> string \<times> string \<times> string" where
  "scope_identity c = (wc_owner c, wc_network c, wc_environment c, wc_key c)"

text \<open>The commit of a new Case with its first catalog event; \<open>None\<close> is \<open>IntegrityError\<close>.\<close>

definition insert_case :: "case_row \<Rightarrow> int \<Rightarrow> store \<Rightarrow> case_row option \<times> store" where
  "insert_case c now s =
    (if case_checks c \<and> wc_id c \<notin> wc_id ` set (st_cases s) \<and> wc_public c \<notin> wc_public ` set (st_cases s) \<and>
        scope_identity c \<notin> scope_identity ` set (st_cases s)
     then (Some c, s\<lparr> st_cases := st_cases s @ [c],
            st_catalog := record_event (wc_id c) now True (st_catalog s) \<rparr>)
     else (None, s))"

definition update_cases ::
  "(case_row \<Rightarrow> bool) \<Rightarrow> (case_row \<Rightarrow> case_row) \<Rightarrow> store \<Rightarrow> nat \<times> store" where
  "update_cases p f s =
    (let (rows, n) = sql_update p f (st_cases s) in (n, s\<lparr> st_cases := rows \<rparr>))"

text \<open>Opening an archived Case again: an ORM flush of two columns by primary key.\<close>

definition reopened_row :: "int \<Rightarrow> case_row \<Rightarrow> case_row" where
  "reopened_row now c = c\<lparr> wc_archived := None, wc_updated := now \<rparr>"

definition reopen_transaction :: "int \<Rightarrow> int \<Rightarrow> store \<Rightarrow> bool \<times> store" where
  "reopen_transaction case_id now s =
    (let (n, s') = update_cases (\<lambda>c. wc_id c = case_id) (reopened_row now) s in
     if n \<noteq> 1 then (False, s)
     else (True, s'\<lparr> st_catalog := record_event case_id now True (st_catalog s) \<rparr>))"

definition reply_by_id :: "int \<Rightarrow> (case_error, case_reply) result prog" where
  "reply_by_id case_id = read_only (\<lambda>s.
    (case sql_find (\<lambda>c. wc_id c = case_id) (st_cases s) of
       None \<Rightarrow> Inl Stale_Row | Some c \<Rightarrow> Inr (case_reply_of c s)))"

definition created_reply :: "bool \<Rightarrow> (case_error, case_reply) result \<Rightarrow> (case_error, bool \<times> case_reply) result" where
  "created_reply created r = bind_result r (\<lambda>a. Inr (created, a))"

definition create_or_open_case ::
  "string \<Rightarrow> case_settings \<Rightarrow> create_request \<Rightarrow> (case_error, bool \<times> case_reply) result prog" where
  "create_or_open_case owner rs q =
    (case requested_identity q of
       Inl e \<Rightarrow> State_Monad.return (Inl e)
     | Inr (key, identity_version) \<Rightarrow>
         let net = ton_network_text (cq_network q);
             lookup = read_only (get_by_identity owner net (cq_environment q) key) in do {
         existing \<leftarrow> lookup;
         case existing of
           Some c \<Rightarrow>
             if wc_archived c \<noteq> None then do {
               ok \<leftarrow> transact (\<lambda>t. reopen_transaction (wc_id c) (tn_now t));
               if ok then do {
                 reply \<leftarrow> reply_by_id (wc_id c);
                 State_Monad.return (created_reply False reply) }
               else State_Monad.return (Inl Stale_Row) }
             else do {
               reply \<leftarrow> read_only (case_reply_of c);
               State_Monad.return (Inr (False, reply)) }
         | None \<Rightarrow>
             if settings_for_scope net (cq_environment q) rs = None
             then State_Monad.return (Inl Runtime_Conflict) else do {
             inserted \<leftarrow> transact (\<lambda>t s. insert_case (new_case_row owner q key identity_version
               (new_id (map wc_id (st_cases s))) (tn_token t) (tn_now t)) (tn_now t) s);
             case inserted of
               Some c \<Rightarrow> do {
                 reply \<leftarrow> reply_by_id (wc_id c);
                 State_Monad.return (created_reply True
                   (map_sum id (\<lambda>r. r\<lparr> rp_latest := None \<rparr>) reply)) }
             | None \<Rightarrow> do {
                 again \<leftarrow> lookup;
                 case again of
                   None \<Rightarrow> State_Monad.return (Inl Integrity_Error)
                 | Some c \<Rightarrow> do {
                     reply \<leftarrow> read_only (case_reply_of c);
                     State_Monad.return (Inr (False, reply)) } } } })"

section \<open>Metadata\<close>

definition metadata_row :: "metadata_request \<Rightarrow> int \<Rightarrow> case_row \<Rightarrow> case_row" where
  "metadata_row q now c =
    c\<lparr> wc_metadata_version := wc_metadata_version c + 1, wc_updated := now,
       wc_label := (case mq_label q of None \<Rightarrow> wc_label c | Some v \<Rightarrow> v),
       wc_note := (case mq_note q of None \<Rightarrow> wc_note c | Some v \<Rightarrow> v) \<rparr>"

definition metadata_transaction ::
  "string \<Rightarrow> string \<Rightarrow> int \<Rightarrow> metadata_request \<Rightarrow> int \<Rightarrow> store \<Rightarrow> bool \<times> store" where
  "metadata_transaction owner public case_id q now s =
    (let (n, s') = update_cases (\<lambda>c. wc_id c = case_id \<and> wc_owner c = owner \<and> wc_public c = public \<and>
           wc_archived c = None \<and> wc_metadata_version c = mq_expected q) (metadata_row q now) s in
     if n \<noteq> 1 then (False, s)
     else (True, s'\<lparr> st_catalog := record_event case_id now True (st_catalog s) \<rparr>))"

text \<open>\<open>_required_case\<close> followed by the reads of the answer.\<close>

definition required_reply :: "string \<Rightarrow> string \<Rightarrow> (case_error, case_reply) result prog" where
  "required_reply owner public = read_only (\<lambda>s.
    (case find_case owner public s of
       None \<Rightarrow> Inl Case_Not_Found | Some c \<Rightarrow> Inr (case_reply_of c s)))"

definition update_case_metadata ::
  "string \<Rightarrow> string \<Rightarrow> metadata_request \<Rightarrow> (case_error, case_reply) result prog" where
  "update_case_metadata owner public q = do {
     found \<leftarrow> read_only (find_case owner public);
     case found of
       None \<Rightarrow> State_Monad.return (Inl Case_Not_Found)
     | Some c \<Rightarrow> do {
         changed \<leftarrow> transact (\<lambda>t. metadata_transaction owner public (wc_id c) q (tn_now t));
         if changed then required_reply owner public
         else do {
           current \<leftarrow> read_only (find_case owner public);
           State_Monad.return (case current of None \<Rightarrow> Inl Case_Not_Found
             | Some d \<Rightarrow> Inl (Metadata_Conflict (wc_metadata_version d))) } } }"

section \<open>Archiving and restoring\<close>

definition idle_case :: "int \<Rightarrow> store \<Rightarrow> bool" where
  "idle_case case_id s \<longleftrightarrow>
     \<not> (\<exists>r \<in> set (st_syncs s). sy_case r = case_id \<and> active_state (sy_state r)) \<and>
     \<not> (\<exists>r \<in> set (st_evidence s). cv_case r = case_id \<and> active_state (cv_state r))"

text \<open>The active jobs of \<open>_raise_if_archive_conflicts\<close> and \<open>_raise_if_delete_conflicts\<close>, read by
  two queries; \<open>None\<close> when there are none.\<close>

definition conflicting_jobs :: "int \<Rightarrow> (string option \<times> string option) option prog" where
  "conflicting_jobs case_id = do {
     active_sync \<leftarrow> read_only (get_active_sync case_id);
     active_evidence \<leftarrow> read_only (get_active_evidence case_id);
     State_Monad.return (if active_sync = None \<and> active_evidence = None then None
       else Some (map_option sy_public active_sync, map_option cv_public active_evidence)) }"

definition archived_row :: "int \<Rightarrow> case_row \<Rightarrow> case_row" where
  "archived_row now c = c\<lparr> wc_archived := Some now, wc_updated := now \<rparr>"

definition archive_transaction :: "string \<Rightarrow> string \<Rightarrow> int \<Rightarrow> int \<Rightarrow> store \<Rightarrow> bool \<times> store" where
  "archive_transaction owner public case_id now s =
    (let (n, s') = update_cases (\<lambda>c. wc_id c = case_id \<and> wc_owner c = owner \<and> wc_public c = public \<and>
           wc_archived c = None \<and> idle_case case_id s) (archived_row now) s in
     if n \<noteq> 1 then (False, s)
     else (True, s'\<lparr> st_catalog := record_event case_id now False (st_catalog s) \<rparr>))"

definition any_reply :: "string \<Rightarrow> string \<Rightarrow> (case_error, case_reply) result prog" where
  "any_reply owner public = read_only (\<lambda>s.
    (case get_any_by_public_id owner public s of
       None \<Rightarrow> Inl Case_Not_Found | Some c \<Rightarrow> Inr (idle_reply_of c s)))"

definition archive_case :: "string \<Rightarrow> string \<Rightarrow> (case_error, case_reply) result prog" where
  "archive_case owner public = do {
     found \<leftarrow> read_only (get_any_by_public_id owner public);
     case found of
       None \<Rightarrow> State_Monad.return (Inl Case_Not_Found)
     | Some c \<Rightarrow>
         if wc_archived c \<noteq> None then do {
           reply \<leftarrow> read_only (idle_reply_of c);
           State_Monad.return (Inr reply) }
         else do {
           busy \<leftarrow> conflicting_jobs (wc_id c);
           case busy of
             Some (a, b) \<Rightarrow> State_Monad.return (Inl (Archive_Conflict a b))
           | None \<Rightarrow> do {
               changed \<leftarrow> transact (\<lambda>t. archive_transaction owner public (wc_id c) (tn_now t));
               if changed then any_reply owner public
               else do {
                 current \<leftarrow> read_only (get_any_by_public_id owner public);
                 case current of
                   None \<Rightarrow> State_Monad.return (Inl Case_Not_Found)
                 | Some d \<Rightarrow>
                     if wc_archived d \<noteq> None then do {
                       reply \<leftarrow> read_only (idle_reply_of d);
                       State_Monad.return (Inr reply) }
                     else do {
                       again \<leftarrow> conflicting_jobs (wc_id d);
                       State_Monad.return (case again of
                         Some (a, b) \<Rightarrow> Inl (Archive_Conflict a b)
                       | None \<Rightarrow> Inl Runtime_Conflict) } } } } }"

definition restore_transaction :: "string \<Rightarrow> string \<Rightarrow> int \<Rightarrow> int \<Rightarrow> store \<Rightarrow> bool \<times> store" where
  "restore_transaction owner public case_id now s =
    (let (n, s') = update_cases (\<lambda>c. wc_id c = case_id \<and> wc_owner c = owner \<and> wc_public c = public \<and>
           wc_archived c \<noteq> None) (reopened_row now) s in
     if n \<noteq> 1 then (False, s)
     else (True, s'\<lparr> st_catalog := record_event case_id now True (st_catalog s) \<rparr>))"

definition restore_case :: "string \<Rightarrow> string \<Rightarrow> (case_error, case_reply) result prog" where
  "restore_case owner public = do {
     found \<leftarrow> read_only (get_any_by_public_id owner public);
     case found of
       None \<Rightarrow> State_Monad.return (Inl Case_Not_Found)
     | Some c \<Rightarrow>
         if wc_archived c = None then do {
           reply \<leftarrow> read_only (case_reply_of c);
           State_Monad.return (Inr reply) }
         else do {
           changed \<leftarrow> transact (\<lambda>t. restore_transaction owner public (wc_id c) (tn_now t));
           if changed then required_reply owner public
           else do {
             current \<leftarrow> read_only (get_any_by_public_id owner public);
             case current of
               None \<Rightarrow> State_Monad.return (Inl Case_Not_Found)
             | Some d \<Rightarrow>
                 if wc_archived d = None then do {
                   reply \<leftarrow> read_only (case_reply_of d);
                   State_Monad.return (Inr reply) }
                 else State_Monad.return (Inl Runtime_Conflict) } } }"

section \<open>Deletion\<close>

text \<open>
  What deleting a Case row removes through the foreign keys with \<open>ON DELETE CASCADE\<close>: its catalog
  events and synchronizations, with their manifests, and the checkpoints, verifications and reports
  of the Case or of one of those synchronizations.
\<close>

definition cascade_case :: "int \<Rightarrow> store \<Rightarrow> store" where
  "cascade_case case_id s =
    (let gone = sy_id ` set (filter (\<lambda>r. sy_case r = case_id) (st_syncs s)) in
     s\<lparr> st_cases := filter (\<lambda>c. wc_id c \<noteq> case_id) (st_cases s),
        st_syncs := filter (\<lambda>r. sy_case r \<noteq> case_id) (st_syncs s),
        st_manifests := filter (\<lambda>m. mf_sync m \<notin> gone) (st_manifests s),
        st_checkpoints := filter (\<lambda>k. ck_case k \<noteq> case_id \<and> ck_sync k \<notin> gone) (st_checkpoints s),
        st_evidence := filter (\<lambda>v. cv_case v \<noteq> case_id \<and> sl_snapshot (cv_selection v) \<notin> gone \<and>
          sl_source_sync (cv_selection v) \<notin> gone) (st_evidence s),
        st_catalog := filter (\<lambda>e. ce_case e \<noteq> case_id) (st_catalog s),
        st_reports := filter (\<lambda>r. rv_case r \<noteq> case_id \<and> rv_sync r \<notin> gone) (st_reports s) \<rparr>)"

definition case_runs :: "int \<Rightarrow> store \<Rightarrow> int list" where
  "case_runs case_id s =
    filter (\<lambda>i. \<exists>r \<in> set (st_syncs s). sy_case r = case_id \<and> sy_run r = Some i) (st_runs s)"

definition delete_runs :: "int list \<Rightarrow> store \<Rightarrow> store" where
  "delete_runs runs s =
    s\<lparr> st_runs := filter (\<lambda>i. i \<notin> set runs) (st_runs s),
       st_artifacts := (\<lambda>k i h. if i \<in> set runs then Read_Value PNone else st_artifacts s k i h) \<rparr>"

datatype delete_result = Deleted receipt_row | Delete_Fenced | Delete_Raised

text \<open>From the write fence on, the deletion is one transaction.\<close>

definition delete_transaction ::
  "string \<Rightarrow> int \<Rightarrow> string \<Rightarrow> string \<Rightarrow> int \<Rightarrow> store \<Rightarrow> delete_result \<times> store" where
  "delete_transaction owner case_id case_public audit now s =
    (let guard = (\<lambda>c. wc_id c = case_id \<and> wc_owner c = owner \<and> idle_case case_id s) in
     if fst (update_cases guard (\<lambda>c. c\<lparr> wc_updated := wc_updated c \<rparr>) s) \<noteq> 1 then (Delete_Fenced, s)
     else let runs = case_runs case_id s;
              removed = (length (filter (\<lambda>r. sy_case r = case_id) (st_syncs s)), length runs,
                length (filter (\<lambda>v. cv_case v = case_id) (st_evidence s)),
                length (filter (\<lambda>r. rv_case r = case_id) (st_reports s)));
              receipt = \<lparr> lr_public = audit, lr_owner = owner, lr_case = case_public,
                lr_occurred = now, lr_removed = removed \<rparr> in
       if length (filter guard (st_cases s)) \<noteq> 1 then (Delete_Fenced, s)
       else if audit \<in> lr_public ` set (st_receipts s) \<or> case_public \<in> lr_case ` set (st_receipts s)
       then (Delete_Raised, s)
       else (Deleted receipt, (delete_runs runs (cascade_case case_id s))
              \<lparr> st_receipts := st_receipts s @ [receipt] \<rparr>))"

definition delete_case :: "string \<Rightarrow> string \<Rightarrow> (case_error, receipt_row) result prog" where
  "delete_case owner public = do {
     found \<leftarrow> read_only (find_case owner public);
     case found of
       None \<Rightarrow> State_Monad.return (Inl Case_Not_Found)
     | Some c \<Rightarrow> do {
         busy \<leftarrow> conflicting_jobs (wc_id c);
         case busy of
           Some (a, b) \<Rightarrow> State_Monad.return (Inl (Deletion_Conflict a b))
         | None \<Rightarrow> do {
             result \<leftarrow> transact (\<lambda>t. delete_transaction owner (wc_id c) (wc_public c) (tn_token t) (tn_now t));
             case result of
               Deleted receipt \<Rightarrow> State_Monad.return (Inr receipt)
             | Delete_Raised \<Rightarrow> State_Monad.return (Inl Integrity_Error)
             | Delete_Fenced \<Rightarrow> do {
                 current \<leftarrow> read_only (find_case owner public);
                 case current of
                   None \<Rightarrow> State_Monad.return (Inl Case_Not_Found)
                 | Some d \<Rightarrow> do {
                     again \<leftarrow> conflicting_jobs (wc_id d);
                     State_Monad.return (case again of
                       Some (a, b) \<Rightarrow> Inl (Deletion_Conflict a b)
                     | None \<Rightarrow> Inl Runtime_Conflict) } } } } }"

end
