(* ===== verification/Case_Catalog.thy ===== *)
theory Case_Catalog
  imports Case_Lifecycle "HOL-Library.Sublist"
begin

text \<open>
  The Case catalog: \<open>list_cases\<close> of \<open>backend/services/wallet_cases.py\<close> over
  \<open>list_at_catalog_cutoff\<close> and \<open>catalog_cutoff\<close> of \<open>backend/repositories/wallet_cases.py\<close>.

  A cursor is the document it carries; its base64 text and its signature are not modelled.
  The two SHA-256 digests that bind a cursor are arguments.
\<close>

section \<open>The text filter\<close>

definition replace_char :: "char \<Rightarrow> string \<Rightarrow> string \<Rightarrow> string" where
  "replace_char c r s = concat (map (\<lambda>x. if x = c then r else [x]) s)"

definition backslash :: char where "backslash = CHR 0x5C"

definition like_pattern :: "string \<Rightarrow> string" where
  "like_pattern query =
    CHR ''%'' # replace_char CHR ''_'' [backslash, CHR ''_'']
      (replace_char CHR ''%'' [backslash, CHR ''%'']
        (replace_char backslash [backslash, backslash] query)) @ ''%''"

text \<open>SQLite's \<open>lower\<close> and its \<open>LIKE\<close> fold the case of ASCII letters.\<close>

definition ascii_lower :: "char \<Rightarrow> char" where
  "ascii_lower c =
    (let n = of_char c :: nat in if 65 \<le> n \<and> n \<le> 90 then char_of (n + 32) else c)"

text \<open>\<open>text LIKE pattern ESCAPE '\'\<close>: \<open>%\<close> is any run, \<open>_\<close> any character.\<close>

function sql_like :: "string \<Rightarrow> string \<Rightarrow> bool" where
  "sql_like [] s = (s = [])"
| "sql_like (c # p) s =
    (if c = backslash then
       (case p of [] \<Rightarrow> False
        | d # q \<Rightarrow> (case s of [] \<Rightarrow> False
            | x # xs \<Rightarrow> ascii_lower d = ascii_lower x \<and> sql_like q xs))
     else if c = CHR ''%'' then
       sql_like p s \<or> (case s of [] \<Rightarrow> False | x # xs \<Rightarrow> sql_like (c # p) xs)
     else (case s of [] \<Rightarrow> False
         | x # xs \<Rightarrow> (c = CHR ''_'' \<or> ascii_lower c = ascii_lower x) \<and> sql_like p xs))"
  by pat_completeness auto
termination by (relation "measure (\<lambda>(p, s). length p + length s)") auto

text \<open>\<open>column.ilike(pattern)\<close>; a \<open>NULL\<close> column does not match.\<close>

definition ilike :: "string \<Rightarrow> string option \<Rightarrow> bool" where
  "ilike pattern column =
    (case column of None \<Rightarrow> False | Some s \<Rightarrow> sql_like (map ascii_lower pattern) (map ascii_lower s))"

definition query_matches :: "string \<Rightarrow> case_row \<Rightarrow> bool" where
  "query_matches query c =
    (let pattern = like_pattern query in
     ilike pattern (wc_label c) \<or> ilike pattern (wc_note c) \<or>
     ilike pattern (Some (wc_display c)) \<or> ilike pattern (Some (wc_key c)))"

section \<open>The repository\<close>

record catalog_filter =
  qf_text :: "string option"
  qf_network :: "string option"
  qf_environment :: "string option"

definition filter_matches :: "catalog_filter \<Rightarrow> case_row \<Rightarrow> bool" where
  "filter_matches f c \<longleftrightarrow>
     (case qf_network f of None \<Rightarrow> True | Some n \<Rightarrow> wc_network c = n) \<and>
     (case qf_environment f of None \<Rightarrow> True | Some e \<Rightarrow> wc_environment c = e) \<and>
     (case qf_text f of None \<Rightarrow> True | Some q \<Rightarrow> query_matches q c)"

definition catalog_cutoff :: "string \<Rightarrow> store \<Rightarrow> int option" where
  "catalog_cutoff owner s =
    (let rows = filter (\<lambda>e. \<exists>c \<in> set (st_cases s). wc_id c = ce_case e \<and> wc_owner c = owner)
       (st_catalog s) in
     if rows = [] then None else Some (Max (ce_id ` set rows)))"

text \<open>The subquery: a Case's largest position up to the cutoff.\<close>

definition frozen_position :: "int \<Rightarrow> int \<Rightarrow> catalog_row list \<Rightarrow> int option" where
  "frozen_position cutoff case_id rows =
    (let es = filter (\<lambda>e. ce_case e = case_id \<and> ce_id e \<le> cutoff) rows in
     if es = [] then None else Some (Max (ce_id ` set es)))"

definition frozen_entry ::
  "string \<Rightarrow> bool \<Rightarrow> catalog_filter \<Rightarrow> int \<Rightarrow> int option \<Rightarrow> catalog_row list \<Rightarrow> case_row \<Rightarrow>
   (case_row \<times> int) option" where
  "frozen_entry owner archived f cutoff after rows c =
    (case frozen_position cutoff (wc_id c) rows of
       None \<Rightarrow> None
     | Some p \<Rightarrow>
         if wc_owner c = owner \<and> (\<exists>e \<in> set rows. ce_id e = p \<and> ce_visible e = (\<not> archived)) \<and>
            (case after of None \<Rightarrow> True | Some a \<Rightarrow> p < a) \<and> filter_matches f c
         then Some (c, p) else None)"

definition catalog_candidates ::
  "string \<Rightarrow> bool \<Rightarrow> catalog_filter \<Rightarrow> int \<Rightarrow> int option \<Rightarrow> store \<Rightarrow> (case_row \<times> int) list" where
  "catalog_candidates owner archived f cutoff after s =
    rev (sort_key snd (List.map_filter (frozen_entry owner archived f cutoff after (st_catalog s))
      (st_cases s)))"

definition list_at_catalog_cutoff ::
  "string \<Rightarrow> bool \<Rightarrow> catalog_filter \<Rightarrow> nat \<Rightarrow> int \<Rightarrow> int option \<Rightarrow> store \<Rightarrow>
   (case_row \<times> int) list \<times> bool" where
  "list_at_catalog_cutoff owner archived f limit cutoff after s =
    (let candidates = take (limit + 1) (catalog_candidates owner archived f cutoff after s) in
     (take limit candidates, limit < length candidates))"

section \<open>The cursor\<close>

record catalog_cursor =
  cu_scope :: string
  cu_state :: string
  cu_filters :: string
  cu_cutoff :: int
  cu_after :: int

text \<open>The digests of the owner scope and of the filters (text, network, environment).\<close>

record catalog_digests =
  dg_scope :: "string \<Rightarrow> string"
  dg_filters :: "catalog_filter \<Rightarrow> string"

definition is_digest :: "string \<Rightarrow> bool" where
  "is_digest s \<longleftrightarrow> length s = 64 \<and> list_all is_lower_hex s"

definition cursor_values_ok :: "catalog_cursor \<Rightarrow> bool" where
  "cursor_values_ok cu \<longleftrightarrow>
     is_digest (cu_scope cu) \<and> cu_state cu \<in> {''active'', ''archived''} \<and> is_digest (cu_filters cu) \<and>
     \<not> cu_cutoff cu < 1 \<and> \<not> cu_after cu < 1 \<and> \<not> cu_after cu > cu_cutoff cu"

section \<open>The service\<close>

text \<open>The messages of \<open>WalletCaseCatalogInvalidCursor\<close>.\<close>

datatype catalog_error =
    Bad_Limit | Bad_State | Bad_Query | Bad_Network | Bad_Environment | Bad_Cursor
  | Other_Scope | Other_State | Other_Filters

record catalog_request =
  lq_limit :: int
  lq_state :: string
  lq_filter :: catalog_filter
  lq_cursor :: "catalog_cursor option"

record catalog_page =
  pg_cases :: "case_reply list"
  pg_truncated :: bool
  pg_next :: "catalog_cursor option"

text \<open>The checks of a request; the filter comes back with its text stripped.\<close>

definition checked_request ::
  "catalog_digests \<Rightarrow> string \<Rightarrow> catalog_request \<Rightarrow> (catalog_error, catalog_filter) result" where
  "checked_request dg owner q =
    (let text = map_option strip (qf_text (lq_filter q)); f = (lq_filter q)\<lparr> qf_text := text \<rparr> in
     ensure (\<not> (lq_limit q < 1 \<or> lq_limit q > 50)) Bad_Limit
    (ensure (lq_state q \<in> {''active'', ''archived''}) Bad_State
    (ensure (case text of None \<Rightarrow> True | Some t \<Rightarrow> \<not> (t = [] \<or> length t > 120)) Bad_Query
    (ensure (qf_network f \<in> {None, Some ''ton-mainnet'', Some ''ton-testnet''}) Bad_Network
    (ensure (qf_environment f \<in> {None, Some ''demo'', Some ''live''}) Bad_Environment
    (case lq_cursor q of
       None \<Rightarrow> Inr f
     | Some cu \<Rightarrow>
         ensure (cursor_values_ok cu) Bad_Cursor
        (ensure (cu_scope cu = dg_scope dg owner) Other_Scope
        (ensure (cu_state cu = lq_state q) Other_State
        (ensure (cu_filters cu = dg_filters dg f) Other_Filters (Inr f))))))))))"

definition next_cursor ::
  "catalog_digests \<Rightarrow> string \<Rightarrow> string \<Rightarrow> catalog_filter \<Rightarrow> int \<Rightarrow> (case_row \<times> int) list \<Rightarrow> catalog_cursor" where
  "next_cursor dg owner state f cutoff rows =
    \<lparr> cu_scope = dg_scope dg owner, cu_state = state, cu_filters = dg_filters dg f,
      cu_cutoff = cutoff, cu_after = snd (last rows) \<rparr>"

definition list_cases ::
  "catalog_digests \<Rightarrow> string \<Rightarrow> catalog_request \<Rightarrow> (catalog_error, catalog_page) result prog" where
  "list_cases dg owner q =
    (case checked_request dg owner q of
       Inl e \<Rightarrow> State_Monad.return (Inl e)
     | Inr f \<Rightarrow> do {
         cutoff \<leftarrow> (case lq_cursor q of
             Some cu \<Rightarrow> State_Monad.return (Some (cu_cutoff cu))
           | None \<Rightarrow> read_only (catalog_cutoff owner));
         case cutoff of
           None \<Rightarrow> State_Monad.return
             (Inr \<lparr> pg_cases = [], pg_truncated = False, pg_next = None \<rparr>)
         | Some k \<Rightarrow> do {
             found \<leftarrow> read_only (list_at_catalog_cutoff owner (lq_state q = ''archived'') f
               (nat (lq_limit q)) k (map_option cu_after (lq_cursor q)));
             replies \<leftarrow> read_only (\<lambda>s. map (\<lambda>c. case_reply_of c s) (map fst (fst found)));
             State_Monad.return (Inr \<lparr> pg_cases = replies, pg_truncated = snd found,
               pg_next = (if snd found
                 then Some (next_cursor dg owner (lq_state q) f k (fst found)) else None) \<rparr>) } })"

text \<open>A reader that follows the cursors of a listing, at most \<open>n\<close> of them.\<close>

fun walk_catalog ::
  "nat \<Rightarrow> catalog_digests \<Rightarrow> string \<Rightarrow> catalog_request \<Rightarrow> string list prog" where
  "walk_catalog 0 dg owner q = State_Monad.return []"
| "walk_catalog (Suc n) dg owner q = do {
     page \<leftarrow> list_cases dg owner q;
     case page of
       Inl _ \<Rightarrow> State_Monad.return []
     | Inr p \<Rightarrow>
         let shown = map (\<lambda>r. wc_public (rp_case r)) (pg_cases p) in
         (case pg_next p of
            None \<Rightarrow> State_Monad.return shown
          | Some cu \<Rightarrow> do {
              rest \<leftarrow> walk_catalog n dg owner (q\<lparr> lq_cursor := Some cu \<rparr>);
              State_Monad.return (shown @ rest) }) }"

section \<open>The filter finds literal text\<close>

definition escaped_char :: "char \<Rightarrow> string" where
  "escaped_char c = (if c \<in> {backslash, CHR ''%'', CHR ''_''} then [backslash, c] else [c])"

lemma replace_char_append: "replace_char c r (s @ t) = replace_char c r s @ replace_char c r t"
  by (simp add: replace_char_def)

lemma like_pattern_chars: "like_pattern q = CHR ''%'' # concat (map escaped_char q) @ ''%''"
proof -
  have "replace_char CHR ''_'' [backslash, CHR ''_'']
      (replace_char CHR ''%'' [backslash, CHR ''%'']
        (replace_char backslash [backslash, backslash] q)) = concat (map escaped_char q)"
  proof (induction q)
    case (Cons x q)
    have "replace_char c r (x # q) = (if x = c then r else [x]) @ replace_char c r q" for c r
      by (simp add: replace_char_def)
    with Cons show ?case
      by (auto simp: replace_char_append escaped_char_def) (auto simp: replace_char_def backslash_def)
  qed (simp add: replace_char_def)
  then show ?thesis by (simp add: like_pattern_def)
qed

lemma lower_special: "ascii_lower c = backslash \<longleftrightarrow> c = backslash"
  "ascii_lower c = CHR ''%'' \<longleftrightarrow> c = CHR ''%''" "ascii_lower c = CHR ''_'' \<longleftrightarrow> c = CHR ''_''"
proof -
  have *: "ascii_lower c = d \<longleftrightarrow> c = d" if "\<not> (65 \<le> (of_char d :: nat) \<and> (of_char d :: nat) \<le> 90)"
    "\<not> (97 \<le> (of_char d :: nat) \<and> (of_char d :: nat) \<le> 122)" for d
  proof (cases "65 \<le> (of_char c :: nat) \<and> (of_char c :: nat) \<le> 90")
    case True
    then have "(of_char (ascii_lower c) :: nat) = of_char c + 32"
      by (simp add: ascii_lower_def Let_def)
    with True that show ?thesis by auto
  qed (auto simp: ascii_lower_def Let_def)
  show "ascii_lower c = backslash \<longleftrightarrow> c = backslash" by (rule *) (simp_all add: backslash_def)
  show "ascii_lower c = CHR ''%'' \<longleftrightarrow> c = CHR ''%''" by (rule *) simp_all
  show "ascii_lower c = CHR ''_'' \<longleftrightarrow> c = CHR ''_''" by (rule *) simp_all
qed

lemma lower_lower [simp]: "ascii_lower (ascii_lower c) = ascii_lower c"
proof (cases "65 \<le> (of_char c :: nat) \<and> (of_char c :: nat) \<le> 90")
  case True
  then have "ascii_lower c = char_of ((of_char c :: nat) + 32)" by (simp add: ascii_lower_def Let_def)
  moreover from True have "(of_char (char_of ((of_char c :: nat) + 32)) :: nat) = of_char c + 32" by simp
  ultimately show ?thesis using True by (simp add: ascii_lower_def [of "char_of _"] Let_def)
qed (auto simp: ascii_lower_def Let_def)

lemma lower_escaped: "map ascii_lower (escaped_char c) = escaped_char (ascii_lower c)"
  by (simp add: escaped_char_def lower_special ascii_lower_def [of backslash])
    (simp add: backslash_def)

lemma like_escaped:
  "sql_like (escaped_char c @ p) s \<longleftrightarrow> (\<exists>x xs. s = x # xs \<and> ascii_lower c = ascii_lower x \<and> sql_like p xs)"
  by (auto simp: escaped_char_def split: list.splits)

lemma like_literal:
  "sql_like (concat (map escaped_char q) @ p) s \<longleftrightarrow>
   (\<exists>u v. s = u @ v \<and> map ascii_lower q = map ascii_lower u \<and> sql_like p v)"
proof (induction q arbitrary: s)
  case (Cons c q)
  have "(\<exists>x xs. s = x # xs \<and> ascii_lower c = ascii_lower x \<and>
        (\<exists>u v. xs = u @ v \<and> map ascii_lower q = map ascii_lower u \<and> sql_like p v)) \<longleftrightarrow>
      (\<exists>u v. s = u @ v \<and> map ascii_lower (c # q) = map ascii_lower u \<and> sql_like p v)"
  proof (intro iffI; elim exE conjE)
    fix x xs u v assume "s = x # xs" "ascii_lower c = ascii_lower x" "xs = u @ v"
      "map ascii_lower q = map ascii_lower u" "sql_like p v"
    then show "\<exists>u v. s = u @ v \<and> map ascii_lower (c # q) = map ascii_lower u \<and> sql_like p v"
      by (intro exI [of _ "x # u"] exI [of _ v]) simp
  next
    fix u v assume u: "s = u @ v" "map ascii_lower (c # q) = map ascii_lower u" "sql_like p v"
    then obtain x xs where "u = x # xs" by (cases u) auto
    with u show "\<exists>x xs. s = x # xs \<and> ascii_lower c = ascii_lower x \<and>
        (\<exists>u v. xs = u @ v \<and> map ascii_lower q = map ascii_lower u \<and> sql_like p v)" by auto
  qed
  then show ?case by (simp only: list.map concat.simps append_assoc like_escaped Cons)
qed simp

lemma like_any: "sql_like (CHR ''%'' # p) s \<longleftrightarrow> (\<exists>u v. s = u @ v \<and> sql_like p v)"
proof (induction s)
  case Nil
  then show ?case by (simp add: backslash_def)
next
  case (Cons x s)
  have "sql_like (CHR ''%'' # p) (x # s) \<longleftrightarrow> sql_like p (x # s) \<or> sql_like (CHR ''%'' # p) s"
    by (simp add: backslash_def)
  then show ?case unfolding Cons by (auto simp: Cons_eq_append_conv)
qed

lemma lower_idem [simp]: "map ascii_lower (map ascii_lower s) = map ascii_lower s"
  by simp

lemma like_rest: "sql_like ''%'' s"
  unfolding like_any by (intro exI [of _ s] exI [of _ "[]"]) simp

lemma ilike_literal:
  "ilike (like_pattern q) (Some s) \<longleftrightarrow> sublist (map ascii_lower q) (map ascii_lower s)"
proof -
  let ?s = "map ascii_lower s" and ?q = "map ascii_lower q"
  have p: "map ascii_lower (like_pattern q) = CHR ''%'' # concat (map escaped_char ?q) @ ''%''"
    unfolding like_pattern_chars
    by (simp add: map_concat comp_def lower_escaped lower_special)
  have "ilike (like_pattern q) (Some s) \<longleftrightarrow>
      sql_like (CHR ''%'' # concat (map escaped_char ?q) @ ''%'') ?s"
    by (simp only: ilike_def option.case p)
  also have "\<dots> \<longleftrightarrow> (\<exists>u x. ?s = u @ x \<and> sql_like (concat (map escaped_char ?q) @ ''%'') x)"
    by (rule like_any)
  also have "\<dots> \<longleftrightarrow> (\<exists>u x. ?s = u @ x \<and> (\<exists>v w. x = v @ w \<and> ?q = map ascii_lower v))"
    by (simp only: like_literal lower_idem like_rest simp_thms)
  also have "\<dots> \<longleftrightarrow> (\<exists>u v w. ?s = u @ v @ w \<and> ?q = map ascii_lower v)" by blast
  finally have "ilike (like_pattern q) (Some s) \<longleftrightarrow> \<dots>" .
  moreover have "map ascii_lower v = v" if "?s = u @ v @ w" for u v w
    using lower_idem [of s] unfolding that by simp
  ultimately show ?thesis unfolding sublist_def by metis
qed

lemma ilike_null: "\<not> ilike p None"
  by (simp add: ilike_def)

text \<open>C24: a text filter selects exactly the Cases one of whose label, note, submitted address or
  canonical address contains the text, without regard to the case of ASCII letters; the wildcards
  and the escape character of \<open>LIKE\<close> in the text stand for themselves.
\<close>

theorem catalog_query_literal:
  "query_matches q c \<longleftrightarrow>
     (\<exists>s \<in> set_option (wc_label c) \<union> set_option (wc_note c) \<union> {wc_display c, wc_key c}.
        sublist (map ascii_lower q) (map ascii_lower s))"
  unfolding query_matches_def Let_def
  by (cases "wc_label c"; cases "wc_note c") (simp_all only: ilike_literal ilike_null option.set, blast+)

end
