(* ===== verification/Case_Sync_Requests.thy ===== *)
theory Case_Sync_Requests
  imports Case_Lifecycle
begin

text \<open>
  \<open>enqueue_sync\<close> of \<open>backend/services/wallet_cases.py\<close>: one synchronization job per request,
  replayed for a repeated idempotency key, over the interval of
  \<open>backend/services/wallet_acquisition_bounds.py\<close>.

  Instants are microseconds.  Three functions of Python's standard library are arguments:
  \<open>instant\<close>, the instant \<open>datetime.fromisoformat\<close> reads from a text; \<open>digest\<close>, the SHA-256 of
  the canonical JSON of a request; \<open>render\<close>, the JSON text of a coverage document.
\<close>

section \<open>Requests\<close>

record sync_request =
  sq_mode :: string
  sq_window :: string
  sq_start :: "string option"
  sq_end :: "string option"
  sq_surfaces :: "string list"

definition surface_names :: "string list" where
  "surface_names = [''transfers'', ''transactions'', ''swaps'', ''balances'', ''jettons'']"

definition validate_sync_request :: "sync_request \<Rightarrow> sync_request option" where
  "validate_sync_request q =
    (let surfaces = first_occurrences (sq_surfaces q); q' = q\<lparr> sq_surfaces := surfaces \<rparr> in
     if sq_mode q \<notin> {''bounded'', ''incremental''} \<or>
        sq_window q \<notin> {''24h'', ''3d'', ''7d'', ''custom''} \<or>
        \<not> set (sq_surfaces q) \<subseteq> set surface_names then None
     else if sq_surfaces q = [] then None
     else if sq_mode q = ''incremental'' then
       if sq_window q \<noteq> ''24h'' then None
       else if sq_start q \<noteq> None \<or> sq_end q \<noteq> None then None
       else Some q'
     else if sq_window q = ''custom'' then
       if sq_start q \<in> {None, Some []} \<or> sq_end q \<in> {None, Some []} then None else Some q'
     else if sq_start q \<noteq> None \<or> sq_end q \<noteq> None then None
     else Some q')"

section \<open>Acquisition bounds\<close>

definition utc_text :: "string \<Rightarrow> string" where
  "utc_text value =
    (if value \<noteq> [] \<and> last value = CHR ''Z'' then butlast value @ ''+00:00'' else value)"

definition parse_iso :: "(string \<Rightarrow> int option) \<Rightarrow> string option \<Rightarrow> int option" where
  "parse_iso instant value =
    (case value of
       None \<Rightarrow> None
     | Some v \<Rightarrow> if v = [] \<or> v \<noteq> strip v then None else instant (utc_text v))"

definition hour :: int where "hour = us 3600"

definition rolling_window :: "string \<Rightarrow> int option" where
  "rolling_window w =
    (if w = ''24h'' then Some (24 * hour) else if w = ''3d'' then Some (3 * 24 * hour)
     else if w = ''7d'' then Some (7 * 24 * hour) else None)"

text \<open>\<open>None\<close> is the \<open>ValueError\<close> of the resolution.\<close>

definition resolve_wallet_acquisition_bounds ::
  "(string \<Rightarrow> int option) \<Rightarrow> string \<Rightarrow> string option \<Rightarrow> string option \<Rightarrow> int \<Rightarrow> (int \<times> int) option" where
  "resolve_wallet_acquisition_bounds instant window custom_start custom_end now =
    (let bounds =
      (case rolling_window window of
         Some width \<Rightarrow>
           if custom_start \<noteq> None \<or> custom_end \<noteq> None then None else Some (now - width, now)
       | None \<Rightarrow>
           if window = ''custom'' then do {
             start \<leftarrow> parse_iso instant custom_start;
             end' \<leftarrow> parse_iso instant custom_end;
             if end' > now then None else Some (start, end') }
           else None) in do {
     (start, end') \<leftarrow> bounds;
     if start \<ge> end' then None else Some (start, end') })"

text \<open>The half-open interval of \<open>WalletAcquisitionBounds.contains\<close>.\<close>

definition bounds_contain :: "int \<times> int \<Rightarrow> int \<Rightarrow> bool" where
  "bounds_contain b t \<longleftrightarrow> fst b \<le> t \<and> t < snd b"

section \<open>Fingerprints\<close>

text \<open>The document a request's fingerprint covers; \<open>None\<close> is a \<open>ValueError\<close> of a bound.\<close>

type_synonym sync_document = "string \<times> string \<times> int option \<times> int option \<times> string list"

definition canonical_request_timestamp :: "(string \<Rightarrow> int option) \<Rightarrow> string \<Rightarrow> int option" where
  "canonical_request_timestamp instant value = (if value \<noteq> strip value then None else instant (utc_text value))"

definition canonical_bound :: "(string \<Rightarrow> int option) \<Rightarrow> string option \<Rightarrow> int option option" where
  "canonical_bound instant value =
    (case value of None \<Rightarrow> Some None
     | Some v \<Rightarrow> if v = [] then Some None else map_option Some (canonical_request_timestamp instant v))"

definition surface_index :: "string \<Rightarrow> nat" where
  "surface_index name = length (takeWhile (\<lambda>n. n \<noteq> name) surface_names)"

definition sync_request_document :: "(string \<Rightarrow> int option) \<Rightarrow> sync_request \<Rightarrow> sync_document option" where
  "sync_request_document instant q = do {
     start \<leftarrow> canonical_bound instant (sq_start q);
     end' \<leftarrow> canonical_bound instant (sq_end q);
     Some (sq_mode q, sq_window q, start, end', sort_key surface_index (sq_surfaces q)) }"

section \<open>The acquisition plan\<close>

record acquisition_plan =
  ap_mode :: string
  ap_start :: int
  ap_end :: int
  ap_overlap :: int
  ap_base :: "string option"

definition incremental_overlap :: int where "incremental_overlap = us (15 * 60)"

datatype enqueue_error =
    Sync_Case_Not_Found | Sync_Value_Error | Sync_Idempotency_Conflict | Sync_Already_Active string
  | Sync_Runtime_Conflict | Incremental_Unavailable | Sync_Stale_Row | Sync_Integrity_Error

text \<open>\<open>int(timedelta.total_seconds())\<close> of a difference that is not negative.\<close>

definition whole_seconds :: "int \<Rightarrow> int" where "whole_seconds d = d div 1000000"

definition incremental_plan ::
  "sync_request \<Rightarrow> sync_row option \<Rightarrow> int \<Rightarrow> (enqueue_error, int \<times> int \<times> acquisition_plan) result" where
  "incremental_plan q base now =
    (case base of
       None \<Rightarrow> Inl Incremental_Unavailable
     | Some b \<Rightarrow>
         if set (sy_surfaces b) \<noteq> set (sq_surfaces q) then Inl Incremental_Unavailable
         else if now \<le> sy_end b then Inl Incremental_Unavailable
         else let start = max (sy_start b) (sy_end b - incremental_overlap) in
           Inr (sy_start b, now,
             \<lparr> ap_mode = ''incremental'', ap_start = start, ap_end = now,
               ap_overlap = max 0 (whole_seconds (sy_end b - start)), ap_base = Some (sy_public b) \<rparr>))"

definition bounded_plan ::
  "(string \<Rightarrow> int option) \<Rightarrow> sync_request \<Rightarrow> int \<Rightarrow>
   (enqueue_error, int \<times> int \<times> acquisition_plan) result" where
  "bounded_plan instant q now =
    (case resolve_wallet_acquisition_bounds instant (sq_window q) (sq_start q) (sq_end q) now of
       None \<Rightarrow> Inl Sync_Value_Error
     | Some (start, end') \<Rightarrow>
         Inr (start, end', \<lparr> ap_mode = ''bounded'', ap_start = start, ap_end = end', ap_overlap = 0,
           ap_base = None \<rparr>))"

text \<open>
  The coverage document of a queued attempt: its state is unknown and it names no stream; what
  varies is the interval, the surfaces and the plan.
\<close>

record coverage_document =
  cg_start :: int
  cg_end :: int
  cg_surfaces :: "string list"
  cg_plan :: acquisition_plan

section \<open>Enqueueing\<close>

record sync_runtime =
  sr_iso :: "string \<Rightarrow> int option"
  sr_digest :: "sync_document \<Rightarrow> string"
  sr_render :: "coverage_document \<Rightarrow> string"
  sr_settings :: case_settings
  sr_max_attempts :: int

definition get_by_idempotency_key :: "int \<Rightarrow> string \<Rightarrow> store \<Rightarrow> sync_row option" where
  "get_by_idempotency_key case_id key s =
    sql_find (\<lambda>r. sy_case r = case_id \<and> sy_idempotency r = Some key) (st_syncs s)"

definition sync_replay_of ::
  "sync_row \<Rightarrow> string \<Rightarrow> (enqueue_error, sync_row \<times> bool) result" where
  "sync_replay_of r fingerprint =
    (if sy_fingerprint r \<noteq> Some fingerprint then Inl Sync_Idempotency_Conflict else Inr (r, True))"

definition touched_row :: "int \<Rightarrow> case_row \<Rightarrow> case_row" where
  "touched_row now c = c\<lparr> wc_updated := now \<rparr>"

datatype insert_result = Inserted sync_row | Insert_Stale | Insert_Integrity

text \<open>The flush: the Case's row by its primary key, the catalog event and the job, committed at once.\<close>

definition enqueue_transaction :: "sync_row \<Rightarrow> int \<Rightarrow> store \<Rightarrow> insert_result \<times> store" where
  "enqueue_transaction r now s =
    (let (n, s') = update_cases (\<lambda>c. wc_id c = sy_case r) (touched_row now) s in
     if n \<noteq> 1 then (Insert_Stale, s)
     else case insert_sync r (s'\<lparr> st_catalog := record_event (sy_case r) now True (st_catalog s) \<rparr>) of
       None \<Rightarrow> (Insert_Integrity, s)
     | Some s'' \<Rightarrow> (Inserted r, s''))"

definition enqueued_row ::
  "sync_runtime \<Rightarrow> case_row \<Rightarrow> sync_request \<Rightarrow> string \<Rightarrow> string \<Rightarrow> int \<times> int \<times> acquisition_plan \<Rightarrow> int \<Rightarrow>
   string \<Rightarrow> int \<Rightarrow> sync_row" where
  "enqueued_row rt c q key fingerprint plan now public i =
    (let (start, end', p) = plan in
     queued_sync_row i public (wc_id c) ''pending_provider_observation'' start end' (sq_surfaces q)
       (sr_render rt \<lparr> cg_start = start, cg_end = end', cg_surfaces = sq_surfaces q, cg_plan = p \<rparr>)
       key fingerprint (sr_max_attempts rt) now)"

text \<open>After a rollback the loaded Case is expired and reading its id fetches its row again.\<close>

definition refetched :: "case_row \<Rightarrow> (store \<Rightarrow> 'a) \<Rightarrow> (enqueue_error, 'a) result prog" where
  "refetched c f = read_only (\<lambda>s.
    if \<exists>d \<in> set (st_cases s). wc_id d = wc_id c then Inr (f s) else Inl Sync_Stale_Row)"

definition settle_race ::
  "case_row \<Rightarrow> string \<Rightarrow> string \<Rightarrow> (enqueue_error, sync_row \<times> bool) result prog" where
  "settle_race c key fingerprint = do {
     fetched \<leftarrow> refetched c (get_by_idempotency_key (wc_id c) key);
     case fetched of
       Inl e \<Rightarrow> State_Monad.return (Inl e)
     | Inr (Some r) \<Rightarrow> State_Monad.return (sync_replay_of r fingerprint)
     | Inr None \<Rightarrow> do {
         active \<leftarrow> read_only (get_active_sync (wc_id c));
         State_Monad.return (case active of
           Some a \<Rightarrow> Inl (Sync_Already_Active (sy_public a))
         | None \<Rightarrow> Inl Sync_Integrity_Error) } }"

definition insert_enqueued ::
  "sync_runtime \<Rightarrow> case_row \<Rightarrow> sync_request \<Rightarrow> string \<Rightarrow> string \<Rightarrow>
   (enqueue_error, sync_row \<times> bool) result prog" where
  "insert_enqueued rt c q key fingerprint = do {
     planned \<leftarrow> transact (\<lambda>t s.
       ((if settings_for_scope (wc_network c) (wc_environment c) (sr_settings rt) = None
         then Inl Sync_Runtime_Conflict
         else if sq_mode q = ''incremental''
         then bind_result (incremental_plan q (latest_usable_sync (wc_id c) s) (tn_now t))
           (\<lambda>p. Inr (p, tn_now t))
         else bind_result (bounded_plan (sr_iso rt) q (tn_now t)) (\<lambda>p. Inr (p, tn_now t))), s));
     case planned of
       Inl e \<Rightarrow> State_Monad.return (Inl e)
     | Inr (plan, now) \<Rightarrow> do {
         result \<leftarrow> transact (\<lambda>t s. enqueue_transaction (enqueued_row rt c q key fingerprint plan now
           (tn_token t) (new_id (map sy_id (st_syncs s)))) now s);
         case result of
           Inserted r \<Rightarrow> do {
             refreshed \<leftarrow> read_only (\<lambda>s. sql_find (\<lambda>x. sy_id x = sy_id r) (st_syncs s));
             State_Monad.return (case refreshed of
               None \<Rightarrow> Inl Sync_Stale_Row | Some x \<Rightarrow> Inr (x, False)) }
         | Insert_Stale \<Rightarrow> State_Monad.return (Inl Sync_Stale_Row)
         | Insert_Integrity \<Rightarrow> settle_race c key fingerprint } }"

definition enqueue_sync ::
  "sync_runtime \<Rightarrow> string \<Rightarrow> string \<Rightarrow> sync_request \<Rightarrow> string \<Rightarrow>
   (enqueue_error, sync_row \<times> bool) result prog" where
  "enqueue_sync rt owner public q key = do {
     found \<leftarrow> read_only (find_case owner public);
     case found of
       None \<Rightarrow> State_Monad.return (Inl Sync_Case_Not_Found)
     | Some c \<Rightarrow>
         case sync_request_document (sr_iso rt) q of
           None \<Rightarrow> State_Monad.return (Inl Sync_Value_Error)
         | Some document \<Rightarrow> let fingerprint = sr_digest rt document in do {
             replay \<leftarrow> read_only (get_by_idempotency_key (wc_id c) key);
             case replay of
               Some r \<Rightarrow> State_Monad.return (sync_replay_of r fingerprint)
             | None \<Rightarrow> do {
                 active \<leftarrow> read_only (get_active_sync (wc_id c));
                 case active of
                   Some a \<Rightarrow> do {
                     again \<leftarrow> refetched c (get_by_idempotency_key (wc_id c) key);
                     State_Monad.return (bind_result again (\<lambda>x. case x of
                       Some r \<Rightarrow> sync_replay_of r fingerprint
                     | None \<Rightarrow> Inl (Sync_Already_Active (sy_public a)))) }
                 | None \<Rightarrow> insert_enqueued rt c q key fingerprint } } }"

section \<open>Intervals\<close>

lemma hour_positive [simp]: "0 < hour"
  by (simp add: hour_def us_def)

lemma rolling_width_positive: "rolling_window w = Some d \<Longrightarrow> 0 < d"
  by (auto simp: rolling_window_def split: if_splits)

lemma bounds_resolved:
  assumes "resolve_wallet_acquisition_bounds instant w a b now = Some (start, end')"
  shows "start < end'" "end' \<le> now"
    "\<And>d. rolling_window w = Some d \<Longrightarrow> start = now - d \<and> end' = now"
proof -
  have "start < end' \<and> end' \<le> now \<and>
      (\<forall>d. rolling_window w = Some d \<longrightarrow> start = now - d \<and> end' = now)"
  proof (cases "rolling_window w")
    case None
    then show ?thesis using assms
      by (cases "parse_iso instant a"; cases "parse_iso instant b")
        (auto simp: resolve_wallet_acquisition_bounds_def split: if_splits)
  next
    case (Some d)
    then show ?thesis using assms rolling_width_positive[OF Some]
      by (auto simp: resolve_wallet_acquisition_bounds_def split: if_splits)
  qed
  then show "start < end'" "end' \<le> now"
    "\<And>d. rolling_window w = Some d \<Longrightarrow> start = now - d \<and> end' = now" by blast+
qed

lemma bounded_plan_cases:
  assumes "bounded_plan instant q now = Inr (start, end', p)"
  shows "resolve_wallet_acquisition_bounds instant (sq_window q) (sq_start q) (sq_end q) now
      = Some (start, end')"
    "ap_start p = start" "ap_end p = end'" "ap_base p = None"
  using assms by (auto simp: bounded_plan_def split: option.splits)

lemma incremental_plan_cases:
  assumes "incremental_plan q base now = Inr (start, end', p)"
  obtains b where "base = Some b" "set (sy_surfaces b) = set (sq_surfaces q)" "sy_end b < now"
    "start = sy_start b" "end' = now" "ap_end p = now" "ap_base p = Some (sy_public b)"
    "ap_start p = max (sy_start b) (sy_end b - incremental_overlap)"
    "ap_overlap p = max 0 (whole_seconds (sy_end b - ap_start p))"
  using assms by (fastforce simp: incremental_plan_def Let_def split: option.splits if_splits)

text \<open>C25: the interval of a synchronization.  A bounded plan acquires a non-empty interval that
  ends at or before the present, and a rolling window ends at the present and has the width of its
  name.  An incremental plan continues a usable base attempt over the same surfaces: what the base
  covers and what the plan acquires make up exactly the new attempt's interval, with no gap, the
  overlap is never more than the fifteen minutes of the code, and it never reaches before the
  base.\<close>

theorem acquisition_plan_bounds:
  "(bounded_plan instant q now = Inr (start, end', p) \<longrightarrow>
      ap_start p = start \<and> ap_end p = end' \<and> start < end' \<and> end' \<le> now \<and>
      (\<forall>d. rolling_window (sq_window q) = Some d \<longrightarrow> end' = now \<and> end' - start = d)) \<and>
   (incremental_plan q (Some b) now = Inr (start, end', p) \<and> sy_start b < sy_end b \<longrightarrow>
      (\<forall>t. bounds_contain (start, end') t \<longleftrightarrow>
        bounds_contain (sy_start b, sy_end b) t \<or> bounds_contain (ap_start p, ap_end p) t) \<and>
      ap_start p < ap_end p \<and> sy_start b \<le> ap_start p \<and>
      0 \<le> ap_overlap p \<and> ap_overlap p \<le> 900 \<and>
      set (sy_surfaces b) = set (sq_surfaces q))"
proof (intro conjI[of "_ \<longrightarrow> _" "_ \<longrightarrow> _"] impI)
  assume plan: "bounded_plan instant q now = Inr (start, end', p)"
  note r = bounded_plan_cases[OF plan]
  show "ap_start p = start \<and> ap_end p = end' \<and> start < end' \<and> end' \<le> now \<and>
      (\<forall>d. rolling_window (sq_window q) = Some d \<longrightarrow> end' = now \<and> end' - start = d)"
    using r bounds_resolved[OF r(1)] by auto
next
  assume a: "incremental_plan q (Some b) now = Inr (start, end', p) \<and> sy_start b < sy_end b"
  then have plan: "incremental_plan q (Some b) now = Inr (start, end', p)" by simp
  show "(\<forall>t. bounds_contain (start, end') t \<longleftrightarrow>
        bounds_contain (sy_start b, sy_end b) t \<or> bounds_contain (ap_start p, ap_end p) t) \<and>
      ap_start p < ap_end p \<and> sy_start b \<le> ap_start p \<and>
      0 \<le> ap_overlap p \<and> ap_overlap p \<le> 900 \<and>
      set (sy_surfaces b) = set (sq_surfaces q)"
    by (rule incremental_plan_cases[OF plan])
      (use a in \<open>auto simp: bounds_contain_def incremental_overlap_def us_def whole_seconds_def\<close>)
qed

definition sample_sync_request :: sync_request where
  "sample_sync_request = \<lparr> sq_mode = ''incremental'', sq_window = ''24h'', sq_start = None,
     sq_end = None, sq_surfaces = [''transfers''] \<rparr>"

definition sample_sync_base :: sync_row where
  "sample_sync_base = (queued_sync_row 1 ''base'' 7 ''pending_provider_observation'' 0 (24 * hour)
     [''transfers''] ''{}'' ''k'' ''f'' 3 (24 * hour))\<lparr> sy_state := Succeeded \<rparr>"

theorem acquisition_plan_bounds_witness:
  "ap_start \<lparr> ap_mode = ''incremental'', ap_start = 24 * hour - us 900, ap_end = 25 * hour,
      ap_overlap = 900, ap_base = Some ''base'' \<rparr> < 25 * hour \<and>
   bounded_plan (\<lambda>_. None) (sample_sync_request\<lparr> sq_mode := ''bounded'' \<rparr>) (30 * hour) =
     Inr (6 * hour, 30 * hour, \<lparr> ap_mode = ''bounded'', ap_start = 6 * hour, ap_end = 30 * hour,
       ap_overlap = 0, ap_base = None \<rparr>) \<and> 6 * hour < 30 * hour"
proof -
  have "incremental_plan sample_sync_request (Some sample_sync_base) (25 * hour) =
      Inr (0, 25 * hour, \<lparr> ap_mode = ''incremental'', ap_start = 24 * hour - us 900,
        ap_end = 25 * hour, ap_overlap = 900, ap_base = Some ''base'' \<rparr>)"
    by code_simp
  moreover have "sy_start sample_sync_base < sy_end sample_sync_base" by code_simp
  ultimately have 1: "ap_start \<lparr> ap_mode = ''incremental'', ap_start = 24 * hour - us 900,
      ap_end = 25 * hour, ap_overlap = 900, ap_base = Some ''base'' \<rparr> < 25 * hour"
    using acquisition_plan_bounds[of "\<lambda>_. None" sample_sync_request "25 * hour" 0 "25 * hour"
        "\<lparr> ap_mode = ''incremental'', ap_start = 24 * hour - us 900,
        ap_end = 25 * hour, ap_overlap = 900, ap_base = Some ''base'' \<rparr>" sample_sync_base] by simp
  have 2: "bounded_plan (\<lambda>_. None) (sample_sync_request\<lparr> sq_mode := ''bounded'' \<rparr>) (30 * hour) =
     Inr (6 * hour, 30 * hour, \<lparr> ap_mode = ''bounded'', ap_start = 6 * hour, ap_end = 30 * hour,
       ap_overlap = 0, ap_base = None \<rparr>)"
    by code_simp
  show ?thesis
    using 1 2 acquisition_plan_bounds[THEN conjunct1, THEN mp, OF 2] by simp
qed

end
