(* ===== verification/Case_Lifecycle_Steps.thy ===== *)
theory Case_Lifecycle_Steps
  imports Case_Sync_Requests Case_Sync_Steps
begin

text \<open>
  The transactions on Wallet Cases as a step relation, the invariant they keep, and the
  consequences: unique identities, a catalog whose newest event shows each Case as it is, no lost
  metadata update, and a deletion that removes one Case's rows and nothing else.
\<close>

section \<open>Steps\<close>

text \<open>
  Everything but a deletion.  A deletion names the Case by its id and its public id.  \<open>queued\<close> is the commit of a new job while its Case is still active,
  \<open>jobs\<close> any commit that leaves the Cases, the catalog and the receipts alone.
\<close>

inductive growth_step :: "store \<Rightarrow> store \<Rightarrow> bool" where
  inserted: "wc_archived c = None \<Longrightarrow> wc_metadata_version c = 1 \<Longrightarrow>
    wc_id c = new_id (map wc_id (st_cases s)) \<Longrightarrow> growth_step s (snd (insert_case c now s))"
| reopened: "growth_step s (snd (reopen_transaction case_id now s))"
| metadata: "growth_step s (snd (metadata_transaction owner public case_id q now s))"
| archived: "growth_step s (snd (archive_transaction owner public case_id now s))"
| restored: "growth_step s (snd (restore_transaction owner public case_id now s))"
| queued: "\<forall>c \<in> set (st_cases s). wc_id c = sy_case r \<longrightarrow> wc_archived c = None \<Longrightarrow>
    growth_step s (snd (enqueue_transaction r now s))"
| published: "growth_step s (snd (publish_transaction cl result response p retryable now s))"
| jobs: "st_cases s' = st_cases s \<Longrightarrow> st_catalog s' = st_catalog s \<Longrightarrow>
    st_receipts s' = st_receipts s \<Longrightarrow> growth_step s s'"

inductive case_step :: "store \<Rightarrow> store \<Rightarrow> bool" where
  grown: "growth_step s s' \<Longrightarrow> case_step s s'"
| deleted: "\<forall>c \<in> set (st_cases s). wc_id c = case_id \<longrightarrow> wc_public c = public \<Longrightarrow>
    case_step s (snd (delete_transaction owner case_id public audit now s))"

section \<open>The invariant\<close>

definition last_event :: "int \<Rightarrow> catalog_row list \<Rightarrow> catalog_row option" where
  "last_event case_id rows =
    (let es = filter (\<lambda>e. ce_case e = case_id) rows in if es = [] then None else Some (last es))"

definition catalog_ok :: "case_row list \<Rightarrow> catalog_row list \<Rightarrow> bool" where
  "catalog_ok cases rows \<longleftrightarrow>
     sorted_wrt (<) (map ce_id rows) \<and> (\<forall>e \<in> set rows. 0 < ce_id e \<and> ce_case e \<in> wc_id ` set cases) \<and>
     (\<forall>c \<in> set cases. \<exists>e. last_event (wc_id c) rows = Some e \<and> ce_visible e = (wc_archived c = None))"

definition cases_ok :: "store \<Rightarrow> bool" where
  "cases_ok s \<longleftrightarrow>
     distinct (map wc_id (st_cases s)) \<and> distinct (map wc_public (st_cases s)) \<and>
     distinct (map scope_identity (st_cases s)) \<and>
     (\<forall>c \<in> set (st_cases s). 1 \<le> wc_metadata_version c) \<and> catalog_ok (st_cases s) (st_catalog s)"

section \<open>What a step does to the Cases\<close>

text \<open>The columns no operation changes.\<close>

definition same_case :: "case_row \<Rightarrow> case_row \<Rightarrow> bool" where
  "same_case c d \<longleftrightarrow> wc_id d = wc_id c \<and> wc_public d = wc_public c \<and> scope_identity d = scope_identity c \<and>
     wc_metadata_version c \<le> wc_metadata_version d"

inductive case_shape :: "store \<Rightarrow> store \<Rightarrow> bool" where
  unchanged: "st_cases s' = st_cases s \<Longrightarrow> st_catalog s' = st_catalog s \<Longrightarrow>
    st_receipts s' = st_receipts s \<Longrightarrow> case_shape s s'"
| touched: "st_cases s' = map (\<lambda>c. if p c then f c else c) (st_cases s) \<Longrightarrow>
    st_catalog s' = record_event case_id now visible (st_catalog s) \<Longrightarrow>
    st_receipts s' = st_receipts s \<Longrightarrow>
    \<exists>c \<in> set (st_cases s). p c \<Longrightarrow>
    (\<And>c. c \<in> set (st_cases s) \<Longrightarrow> p c \<Longrightarrow> wc_id c = case_id \<and> same_case c (f c) \<and>
       visible = (wc_archived (f c) = None)) \<Longrightarrow> case_shape s s'"
| added: "st_cases s' = st_cases s @ [c] \<Longrightarrow>
    st_catalog s' = record_event (wc_id c) now True (st_catalog s) \<Longrightarrow>
    st_receipts s' = st_receipts s \<Longrightarrow> wc_archived c = None \<Longrightarrow> 1 \<le> wc_metadata_version c \<Longrightarrow>
    wc_id c \<notin> wc_id ` set (st_cases s) \<Longrightarrow> wc_public c \<notin> wc_public ` set (st_cases s) \<Longrightarrow>
    scope_identity c \<notin> scope_identity ` set (st_cases s) \<Longrightarrow> case_shape s s'"

lemma update_cases_result [simp]:
  "fst (update_cases p f s) = length (filter p (st_cases s))"
  "st_cases (snd (update_cases p f s)) = map (\<lambda>c. if p c then f c else c) (st_cases s)"
  "st_catalog (snd (update_cases p f s)) = st_catalog s"
  "st_receipts (snd (update_cases p f s)) = st_receipts s"
  "st_syncs (snd (update_cases p f s)) = st_syncs s"
  "st_evidence (snd (update_cases p f s)) = st_evidence s"
  by (simp_all add: update_cases_def sql_update_def)

lemma one_match: "length (filter p xs) = Suc 0 \<Longrightarrow> \<exists>x \<in> set xs. p x"
  by (cases "filter p xs") (auto dest: filter_eq_ConsD)

text \<open>One guarded update of a Case, with its event, as a step.\<close>

lemma guarded_shape:
  assumes "\<And>c. p c \<Longrightarrow> wc_id c = case_id \<and> same_case c (f c) \<and> visible = (wc_archived (f c) = None)"
  shows "case_shape s (snd (let (n, s') = update_cases p f s in
     if n \<noteq> 1 then (False, s) else (True, s'\<lparr> st_catalog := record_event case_id now visible (st_catalog s) \<rparr>)))"
proof (cases "length (filter p (st_cases s)) = 1")
  case True
  with one_match [of p "st_cases s"] have "\<exists>c \<in> set (st_cases s). p c" by simp
  with True assms show ?thesis
    by (intro case_shape.touched [of _ p f _ case_id now visible]) (auto simp: split_def Let_def)
qed (simp add: split_def Let_def case_shape.unchanged)

lemmas case_rows = reopened_row_def metadata_row_def archived_row_def touched_row_def same_case_def
  scope_identity_def

lemma enqueue_shape:
  assumes "\<forall>c \<in> set (st_cases s). wc_id c = sy_case r \<longrightarrow> wc_archived c = None"
  shows "case_shape s (snd (enqueue_transaction r now s))"
proof (cases "fst (enqueue_transaction r now s)")
  case (Inserted x)
  then obtain s'' where n: "length (filter (\<lambda>c. wc_id c = sy_case r) (st_cases s)) = Suc 0"
    and s'': "insert_sync r ((snd (update_cases (\<lambda>c. wc_id c = sy_case r) (touched_row now) s))
        \<lparr> st_catalog := record_event (sy_case r) now True (st_catalog s) \<rparr>) = Some s''"
      and eq: "snd (enqueue_transaction r now s) = s''"
    by (auto simp: enqueue_transaction_def split_def Let_def split: if_splits option.splits)
  from s'' have rows: "st_cases s'' = map (\<lambda>c. if wc_id c = sy_case r then touched_row now c else c) (st_cases s)"
    "st_catalog s'' = record_event (sy_case r) now True (st_catalog s)" "st_receipts s'' = st_receipts s"
    by (auto simp: insert_sync_def split: if_splits)
  show ?thesis unfolding eq
    using rows one_match [OF n] assms by (intro case_shape.touched) (auto simp: case_rows)
qed (auto simp: enqueue_transaction_def split_def Let_def case_shape.unchanged split: if_splits option.splits)

lemma publish_shape: "case_shape s (snd (publish_transaction cl result response p retryable now s))"
proof -
  let ?r = "publish_transaction cl result response p retryable now s"
  let ?scope = "\<lambda>c. wc_id c = cl_case cl \<and> wc_public c = cl_case_public cl \<and>
           wc_archived c = None \<and> wc_network c = cl_network cl \<and>
           wc_environment c = cl_environment cl \<and> wc_key c = cl_key cl \<and> wc_display c = cl_display cl"
  have "snd ?r = s \<or> (sql_find ?scope (st_cases s) \<noteq> None \<and>
      st_cases (snd ?r) = map (\<lambda>c. if ?scope c then c\<lparr> wc_updated := now \<rparr> else c) (st_cases s) \<and>
      st_catalog (snd ?r) = record_event (cl_case cl) now True (st_catalog s) \<and>
      st_receipts (snd ?r) = st_receipts s)"
    by (auto simp: publish_transaction_def split_def Let_def update_syncs_def)
  then show ?thesis
  proof
    assume "snd ?r = s" then show ?thesis by (simp add: case_shape.unchanged)
  next
    assume *: "sql_find ?scope (st_cases s) \<noteq> None \<and>
      st_cases (snd ?r) = map (\<lambda>c. if ?scope c then c\<lparr> wc_updated := now \<rparr> else c) (st_cases s) \<and>
      st_catalog (snd ?r) = record_event (cl_case cl) now True (st_catalog s) \<and>
      st_receipts (snd ?r) = st_receipts s"
    then show ?thesis
      by (intro case_shape.touched [of _ ?scope "\<lambda>c. c\<lparr> wc_updated := now \<rparr>" _ "cl_case cl" now True])
        (auto simp: sql_find_None same_case_def scope_identity_def)
  qed
qed

lemma insert_shape:
  "wc_archived c = None \<Longrightarrow> wc_metadata_version c = 1 \<Longrightarrow> case_shape s (snd (insert_case c now s))"
  by (auto simp: insert_case_def intro: case_shape.unchanged case_shape.added)

lemma growth_shape: "growth_step s s' \<Longrightarrow> case_shape s s'"
proof (induction rule: growth_step.induct)
  case (reopened s case_id now)
  show ?case unfolding reopen_transaction_def by (rule guarded_shape) (simp add: case_rows)
next
  case (metadata s owner public case_id q now)
  show ?case unfolding metadata_transaction_def by (rule guarded_shape) (simp add: case_rows)
next
  case (archived s owner public case_id now)
  show ?case unfolding archive_transaction_def by (rule guarded_shape) (simp add: case_rows)
next
  case (restored s owner public case_id now)
  show ?case unfolding restore_transaction_def by (rule guarded_shape) (simp add: case_rows)
qed (auto intro: insert_shape enqueue_shape publish_shape case_shape.unchanged)

text \<open>A deletion that goes through, and the row it removes.\<close>

lemma delete_transaction_cases:
  obtains (none) "snd (delete_transaction owner case_id public audit now s) = s"
      "\<And>r. fst (delete_transaction owner case_id public audit now s) \<noteq> Deleted r"
  | (deleted) r where "fst (delete_transaction owner case_id public audit now s) = Deleted r"
      "snd (delete_transaction owner case_id public audit now s) =
        (delete_runs (case_runs case_id s) (cascade_case case_id s))\<lparr> st_receipts := st_receipts s @ [r] \<rparr>"
      "r = \<lparr> lr_public = audit, lr_owner = owner, lr_case = public, lr_occurred = now, lr_removed =
        (length (filter (\<lambda>r. sy_case r = case_id) (st_syncs s)), length (case_runs case_id s),
         length (filter (\<lambda>v. cv_case v = case_id) (st_evidence s)),
         length (filter (\<lambda>r. rv_case r = case_id) (st_reports s))) \<rparr>"
      "public \<notin> lr_case ` set (st_receipts s)"
      "length (filter (\<lambda>c. wc_id c = case_id \<and> wc_owner c = owner \<and> idle_case case_id s) (st_cases s)) = 1"
  by (cases "fst (delete_transaction owner case_id public audit now s)")
    (auto simp: delete_transaction_def Let_def split: if_splits)

section \<open>The invariant is kept\<close>

lemma last_event_record:
  "last_event j (record_event i now visible rows) =
    (if i = j then Some \<lparr> ce_id = new_id (map ce_id rows), ce_case = i, ce_recorded = now,
       ce_visible = visible \<rparr> else last_event j rows)"
  by (simp add: last_event_def record_event_def)

lemma new_id_greater: "x \<in> set ids \<Longrightarrow> x < new_id ids"
  by (simp add: new_id_def) (metis Max_ge List.finite_set empty_iff list.set(1) zle_add1_eq_le)

lemma new_id_positive: "\<forall>x \<in> set ids. 0 < x \<Longrightarrow> 0 < new_id ids"
proof (cases "ids = []")
  case False
  moreover assume "\<forall>x \<in> set ids. 0 < x"
  ultimately have "0 < hd ids" "hd ids < new_id ids" by (simp_all add: new_id_greater)
  then show ?thesis by (rule less_trans)
qed (simp add: new_id_def)

lemma catalog_record:
  assumes "catalog_ok cases rows" and i: "i \<in> wc_id ` set cases'"
    and keep: "wc_id ` set cases \<subseteq> wc_id ` set cases'"
    and rest: "\<And>c. c \<in> set cases' \<Longrightarrow> wc_id c \<noteq> i \<Longrightarrow> c \<in> set cases"
    and shown: "\<And>c. c \<in> set cases' \<Longrightarrow> wc_id c = i \<Longrightarrow> visible = (wc_archived c = None)"
  shows "catalog_ok cases' (record_event i now visible rows)"
  unfolding catalog_ok_def
proof (intro conjI ballI)
  have rows: "sorted_wrt (<) (map ce_id rows)" "\<forall>e \<in> set rows. 0 < ce_id e \<and> ce_case e \<in> wc_id ` set cases"
    "\<forall>c \<in> set cases. \<exists>e. last_event (wc_id c) rows = Some e \<and> ce_visible e = (wc_archived c = None)"
    using assms(1) by (auto simp: catalog_ok_def)
  show "sorted_wrt (<) (map ce_id (record_event i now visible rows))"
    using rows(1) new_id_greater by (auto simp: record_event_def sorted_wrt_append)
  fix e assume "e \<in> set (record_event i now visible rows)"
  then consider "e \<in> set rows" | "ce_id e = new_id (map ce_id rows)" "ce_case e = i"
    by (auto simp: record_event_def)
  then show "0 < ce_id e" "ce_case e \<in> wc_id ` set cases'"
    using rows(2) i keep new_id_positive [of "map ce_id rows"] by (cases; fastforce)+
next
  fix c assume c: "c \<in> set cases'"
  show "\<exists>e. last_event (wc_id c) (record_event i now visible rows) = Some e \<and>
      ce_visible e = (wc_archived c = None)"
  proof (cases "wc_id c = i")
    case True
    with shown [OF c] show ?thesis by (simp add: last_event_record)
  next
    case False
    with rest [OF c] assms(1) show ?thesis by (auto simp: last_event_record catalog_ok_def)
  qed
qed

lemma shape_ok: "case_shape s s' \<Longrightarrow> cases_ok s \<Longrightarrow> cases_ok s'"
proof (induction rule: case_shape.induct)
  case (unchanged s' s)
  then show ?case by (simp add: cases_ok_def)
next
  case (touched s' p f s case_id now visible)
  let ?cs = "map (\<lambda>c. if p c then f c else c) (st_cases s)"
  have same: "\<And>c. c \<in> set (st_cases s) \<Longrightarrow> p c \<Longrightarrow> same_case c (f c)" using touched(5) by blast
  have images: "map wc_id ?cs = map wc_id (st_cases s)" "map wc_public ?cs = map wc_public (st_cases s)"
    "map scope_identity ?cs = map scope_identity (st_cases s)"
    using same by (auto simp: same_case_def)
  have d: "distinct (map wc_id (st_cases s))" using touched(6) by (simp add: cases_ok_def)
  have id_eq: "wc_id ` set ?cs = wc_id ` set (st_cases s)" 
  proof -
    have "set (map wc_id ?cs) = set (map wc_id (st_cases s))" by (simp only: images(1))
    then show ?thesis by (simp only: set_map)
  qed
  have "catalog_ok ?cs (record_event case_id now visible (st_catalog s))"
  proof (rule catalog_record)
    show "catalog_ok (st_cases s) (st_catalog s)" using touched(6) by (simp add: cases_ok_def)
    obtain c where c: "c \<in> set (st_cases s)" "p c" using touched(4) by blast
    then show "case_id \<in> wc_id ` set ?cs" unfolding id_eq using touched(5) by blast
    show "wc_id ` set (st_cases s) \<subseteq> wc_id ` set ?cs" unfolding id_eq by simp
    fix x assume x: "x \<in> set ?cs"
    then obtain y where y: "y \<in> set (st_cases s)" "x = (if p y then f y else y)" by auto
    have xy: "wc_id x = wc_id y" using y same by (auto simp: same_case_def)
    { assume "wc_id x \<noteq> case_id"
      with y xy touched(5) show "x \<in> set (st_cases s)" by auto }
    { assume "wc_id x = case_id"
      with xy c touched(5) have "wc_id y = wc_id c" by simp
      with d y(1) c(1) have "y = c" by (auto simp: distinct_map dest: inj_onD)
      with y(2) c touched(5) show "visible = (wc_archived x = None)" by simp }
  qed
  moreover have "\<forall>c \<in> set ?cs. 1 \<le> wc_metadata_version c"
    using touched(6) same by (fastforce simp: cases_ok_def same_case_def)
  ultimately show ?case
    using touched(6) unfolding cases_ok_def touched(1,2) images by blast
next
  case (added s' s c now)
  have "catalog_ok (st_cases s @ [c]) (record_event (wc_id c) now True (st_catalog s))"
  proof (rule catalog_record [of "st_cases s"])
    show "catalog_ok (st_cases s) (st_catalog s)" using added(9) by (simp add: cases_ok_def)
    fix x assume "x \<in> set (st_cases s @ [c])" "wc_id x = wc_id c"
    with added(6) imageI [of x "set (st_cases s)" wc_id] have "x = c" by auto
    with added(4) show "True = (wc_archived x = None)" by simp
  qed auto
  with added show ?case by (simp add: cases_ok_def)
qed

lemma last_event_other:
  "j \<noteq> i \<Longrightarrow> last_event j (filter (\<lambda>e. ce_case e \<noteq> i) rows) = last_event j rows"
proof -
  assume "j \<noteq> i"
  then have "filter (\<lambda>e. ce_case e = j) (filter (\<lambda>e. ce_case e \<noteq> i) rows) = filter (\<lambda>e. ce_case e = j) rows"
    by (induction rows) auto
  then show ?thesis by (simp only: last_event_def)
qed

lemma sorted_wrt_map_filter: "sorted_wrt R (map f xs) \<Longrightarrow> sorted_wrt R (map f (filter p xs))"
  by (induction xs) auto

lemma delete_ok: "cases_ok s \<Longrightarrow> cases_ok (snd (delete_transaction owner case_id public audit now s))"
proof (cases rule: delete_transaction_cases [of owner case_id public audit now s])
  case (deleted r)
  assume ok: "cases_ok s"
  have rows: "st_cases (snd (delete_transaction owner case_id public audit now s)) =
      filter (\<lambda>c. wc_id c \<noteq> case_id) (st_cases s)"
    "st_catalog (snd (delete_transaction owner case_id public audit now s)) =
      filter (\<lambda>e. ce_case e \<noteq> case_id) (st_catalog s)"
    unfolding deleted(2) by (simp_all add: delete_runs_def cascade_case_def Let_def)
  have "catalog_ok (filter (\<lambda>c. wc_id c \<noteq> case_id) (st_cases s))
      (filter (\<lambda>e. ce_case e \<noteq> case_id) (st_catalog s))"
    using ok by (auto simp: cases_ok_def catalog_ok_def sorted_wrt_map_filter last_event_other)
  with ok show ?thesis unfolding cases_ok_def rows by (auto intro: distinct_map_filter)
qed simp

lemma case_step_ok: "case_step s s' \<Longrightarrow> cases_ok s \<Longrightarrow> cases_ok s'"
  by (auto elim!: case_step.cases intro: shape_ok growth_shape delete_ok)

lemma case_steps_ok: "case_step\<^sup>*\<^sup>* s s' \<Longrightarrow> cases_ok s \<Longrightarrow> cases_ok s'"
  by (induction rule: rtranclp_induct) (auto intro: case_step_ok)

section \<open>A Case stays until its receipt is written\<close>

lemma same_case_trans: "same_case c d \<Longrightarrow> same_case d e \<Longrightarrow> same_case c e"
  by (auto simp: same_case_def)

lemma same_case_refl: "same_case c c"
  by (simp add: same_case_def)

definition case_stays :: "case_row \<Rightarrow> store \<Rightarrow> bool" where
  "case_stays c s \<longleftrightarrow>
     (\<exists>d \<in> set (st_cases s). same_case c d) \<or> wc_public c \<in> lr_case ` set (st_receipts s)"

lemma shape_receipts: "case_shape s s' \<Longrightarrow> st_receipts s' = st_receipts s"
  by (auto elim: case_shape.cases)

lemma shape_stays: "case_shape s s' \<Longrightarrow> c \<in> set (st_cases s) \<Longrightarrow> \<exists>d \<in> set (st_cases s'). same_case c d"
proof (induction rule: case_shape.induct)
  case (touched s' p f s case_id now visible)
  show ?case unfolding touched(1)
    using touched(5,6) by (intro bexI [of _ "if p c then f c else c"]) (auto simp: same_case_refl)
qed (auto intro: same_case_refl)

lemma step_receipts: "case_step s s' \<Longrightarrow> set (st_receipts s) \<subseteq> set (st_receipts s')"
proof (induction rule: case_step.induct)
  case (deleted s case_id public owner audit now)
  show ?case by (cases rule: delete_transaction_cases [of owner case_id public audit now s]) auto
qed (simp add: shape_receipts [OF growth_shape])

lemma step_stays:
  assumes "case_step s s'" "c \<in> set (st_cases s)" shows "case_stays c s'"
  using assms
proof (induction rule: case_step.induct)
  case (grown s s')
  then show ?case using shape_stays [OF growth_shape] by (auto simp: case_stays_def)
next
  case (deleted s case_id public owner audit now)
  show ?case
  proof (cases rule: delete_transaction_cases [of owner case_id public audit now s])
    case none
    with deleted(2) show ?thesis by (auto simp: case_stays_def intro: same_case_refl)
  next
    case gone: (deleted r)
    show ?thesis
    proof (cases "wc_id c = case_id")
      case True
      with deleted gone(3) show ?thesis by (auto simp: case_stays_def gone(2))
    next
      case False
      with deleted(2) show ?thesis
        by (auto simp: case_stays_def gone(2) delete_runs_def cascade_case_def Let_def
            intro!: bexI [of _ c] same_case_refl)
    qed
  qed
qed

lemma stays_step: "case_stays c s \<Longrightarrow> case_step s s' \<Longrightarrow> case_stays c s'"
proof (unfold case_stays_def [of c s], elim disjE bexE)
  fix d assume step: "case_step s s'" and d: "d \<in> set (st_cases s)" "same_case c d"
  from step_stays [OF step d(1)] d(2) show "case_stays c s'"
    unfolding case_stays_def by (metis same_case_def same_case_trans)
next
  assume "case_step s s'" "wc_public c \<in> lr_case ` set (st_receipts s)"
  then show "case_stays c s'" using step_receipts [of s s'] by (auto simp: case_stays_def)
qed

lemma stays_steps: "case_step\<^sup>*\<^sup>* s s' \<Longrightarrow> case_stays c s \<Longrightarrow> case_stays c s'"
  by (induction rule: rtranclp_induct) (auto intro: stays_step)

lemma listed_stays: "c \<in> set (st_cases s) \<Longrightarrow> case_stays c s"
  by (auto simp: case_stays_def intro: same_case_refl)

end
