(* ===== verification/Case_Lifecycle_Results.thy ===== *)
theory Case_Lifecycle_Results
  imports Case_Lifecycle_Steps
begin

text \<open>
  What the lifecycle requests promise while other sessions commit between any two of their
  statements: they keep the invariant of the tables, no metadata update is lost, archiving waits
  for the jobs, and a deletion removes the rows of the Case it names and no others.
\<close>

section \<open>Programs that remember what they read\<close>






lemma keeps_read_only [keeps_intros]: "keeps R A (read_only f)"
  unfolding read_only_def by (rule keeps_transact) simp




section \<open>The requests keep the invariant\<close>

lemma keeps_option: "(x = None \<Longrightarrow> keeps R A p) \<Longrightarrow> (\<And>a. x = Some a \<Longrightarrow> keeps R A (q a)) \<Longrightarrow>
    keeps R A (case x of None \<Rightarrow> p | Some a \<Rightarrow> q a)"
  by (simp split: option.split)



lemma keeps_reply [keeps_intros]: "keeps R A (reply_by_id i)" "keeps R A (required_reply owner public)"
  "keeps R A (any_reply owner public)"
  unfolding reply_by_id_def required_reply_def any_reply_def by (rule keeps_read_only)+





text \<open>The deletion commits on the row it read, or on nothing.\<close>

lemma read_case_stays:
  assumes "find_case owner public s0 = Some c" "case_step\<^sup>*\<^sup>* s0 s"
  shows "wc_public c = public \<and> case_stays c s"
  using assms stays_steps [OF assms(2) listed_stays] by (auto simp: find_case_def dest: sql_find_Some)







section \<open>Metadata\<close>

lemma metadata_committed:
  assumes "fst (metadata_transaction owner public i q now s)"
  obtains c where "filter (\<lambda>c. wc_id c = i \<and> wc_owner c = owner \<and> wc_public c = public \<and>
      wc_archived c = None \<and> wc_metadata_version c = mq_expected q) (st_cases s) = [c]"
    "c \<in> set (st_cases s)" "wc_id c = i" "wc_owner c = owner" "wc_public c = public" "wc_archived c = None"
    "wc_metadata_version c = mq_expected q"
    "st_cases (snd (metadata_transaction owner public i q now s)) =
       map (\<lambda>d. if wc_id d = i \<and> wc_owner d = owner \<and> wc_public d = public \<and> wc_archived d = None \<and>
          wc_metadata_version d = mq_expected q then metadata_row q now d else d) (st_cases s)"
proof -
  let ?p = "\<lambda>c. wc_id c = i \<and> wc_owner c = owner \<and> wc_public c = public \<and>
      wc_archived c = None \<and> wc_metadata_version c = mq_expected q"
  have "length (filter ?p (st_cases s)) = 1"
    using assms by (auto simp: metadata_transaction_def split_def Let_def split: if_splits)
  then obtain c where c: "filter ?p (st_cases s) = [c]" by (auto simp: length_Suc_conv)
  then have "c \<in> set (filter ?p (st_cases s))" by simp
  then have "c \<in> set (st_cases s)" "?p c" by auto
  with that c show thesis by (simp add: metadata_transaction_def split_def Let_def)
qed

text \<open>After an update the Case's version is past the one it expected.\<close>

lemma metadata_advances:
  assumes "fst (metadata_transaction owner public i q now s)"
  shows "\<exists>d \<in> set (st_cases (snd (metadata_transaction owner public i q now s))).
     wc_public d = public \<and> mq_expected q < wc_metadata_version d"
  using metadata_committed [OF assms]
proof cases
  case (1 c)
  then show ?thesis
    by (intro bexI [of _ "metadata_row q now c"]) (auto simp: metadata_row_def image_iff intro!: bexI [of _ c])
qed

lemma stale_version_refused:
  assumes "case_stays c s" "mq_expected q < wc_metadata_version c" "cases_ok s"
    and "wc_public c \<notin> lr_case ` set (st_receipts s)"
  shows "metadata_transaction owner (wc_public c) i q now s = (False, s)"
proof -
  obtain d where d: "d \<in> set (st_cases s)" "same_case c d" using assms by (auto simp: case_stays_def)
  have "\<not> fst (metadata_transaction owner (wc_public c) i q now s)"
  proof
    assume "fst (metadata_transaction owner (wc_public c) i q now s)"
    from metadata_committed [OF this] obtain e where
      e: "e \<in> set (st_cases s)" "wc_public e = wc_public c" "wc_metadata_version e = mq_expected q" by metis
    with d assms(3) have "e = d" by (auto simp: cases_ok_def same_case_def distinct_map inj_on_def)
    with e(3) d(2) assms(2) show False by (simp add: same_case_def)
  qed
  then show ?thesis by (auto simp: metadata_transaction_def split_def Let_def split: if_splits)
qed

text \<open>C21: of two metadata updates that expect the same version of a Case, at most one is committed,
  whatever is committed between them, unless the Case is deleted: the second finds the version
  advanced and changes nothing.
\<close>

theorem no_lost_metadata_update:
  assumes "cases_ok s" "fst (metadata_transaction owner public i q now s)"
    and "case_step\<^sup>*\<^sup>* (snd (metadata_transaction owner public i q now s)) s'"
    and "public \<notin> lr_case ` set (st_receipts s')" "mq_expected q' \<le> mq_expected q"
  shows "metadata_transaction owner' public j q' now' s' = (False, s')"
proof -
  let ?s = "snd (metadata_transaction owner public i q now s)"
  obtain d where d: "d \<in> set (st_cases ?s)" "wc_public d = public" "mq_expected q < wc_metadata_version d"
    using metadata_advances [OF assms(2)] by blast
  have ok: "cases_ok s'"
    using case_steps_ok [OF assms(3)] case_step_ok [OF case_step.grown [OF growth_step.metadata]] assms(1) by blast
  show ?thesis
    using stale_version_refused [OF stays_steps [OF assms(3) listed_stays [OF d(1)]] _ ok] d assms(4,5) by simp
qed

lemma find_only: "c \<in> set xs \<Longrightarrow> p (f c) \<Longrightarrow> \<forall>d \<in> set xs. d \<noteq> c \<longrightarrow> \<not> p (f d) \<Longrightarrow>
  find p (map f xs) = Some (f c)"
proof (induction xs)
  case (Cons x xs)
  then show ?case by (cases "p (f x)") auto
qed simp

text \<open>What an update writes.\<close>

lemma metadata_update_exact:
  assumes "fst (metadata_transaction owner public i q now s)" "cases_ok s"
  shows "\<exists>c. find_case owner public s = Some c \<and>
    find_case owner public (snd (metadata_transaction owner public i q now s)) = Some
      (c\<lparr> wc_metadata_version := mq_expected q + 1, wc_updated := now,
         wc_label := (case mq_label q of None \<Rightarrow> wc_label c | Some v \<Rightarrow> v),
         wc_note := (case mq_note q of None \<Rightarrow> wc_note c | Some v \<Rightarrow> v) \<rparr>)"
  using metadata_committed [OF assms(1)]
proof cases
  case (1 c)
  have other: "wc_public d \<noteq> public" if "d \<in> set (st_cases s)" "d \<noteq> c" for d
    using 1(2,5) that assms(2) by (auto simp: cases_ok_def distinct_map inj_on_def)
  have "find_case owner public s = Some c"
    unfolding find_case_def sql_find_def using find_only [of c "st_cases s" _ id] 1 other by simp
  moreover have "find_case owner public (snd (metadata_transaction owner public i q now s)) =
      Some (metadata_row q now c)"
  proof -
    let ?f = "\<lambda>d. if wc_id d = i \<and> wc_owner d = owner \<and> wc_public d = public \<and> wc_archived d = None \<and>
        wc_metadata_version d = mq_expected q then metadata_row q now d else d"
    have fc: "?f c = metadata_row q now c" using 1(3-7) by simp
    have "wc_public (?f d) = wc_public d" for d by (simp add: metadata_row_def)
    then have "find (\<lambda>c. wc_owner c = owner \<and> wc_public c = public \<and> wc_archived c = None)
        (map ?f (st_cases s)) = Some (?f c)"
      using 1(2) other by (intro find_only) (simp_all only: fc, simp_all add: metadata_row_def 1)
    then show ?thesis unfolding find_case_def sql_find_def 1(8) fc .
  qed
  ultimately show ?thesis using 1(7) by (simp add: metadata_row_def)
qed

section \<open>Deletion\<close>

text \<open>The rows of one Case, over all tables.\<close>

record case_data =
  cx_case :: "case_row list"
  cx_syncs :: "sync_row list"
  cx_manifests :: "manifest_row list"
  cx_checkpoints :: "checkpoint_row list"
  cx_evidence :: "evidence_row list"
  cx_catalog :: "catalog_row list"
  cx_reports :: "report_row list"
  cx_runs :: "int list"

definition case_data_of :: "int \<Rightarrow> store \<Rightarrow> case_data" where
  "case_data_of i s =
    \<lparr> cx_case = filter (\<lambda>c. wc_id c = i) (st_cases s), cx_syncs = filter (\<lambda>r. sy_case r = i) (st_syncs s),
      cx_manifests = filter (\<lambda>m. \<exists>r \<in> set (st_syncs s). sy_id r = mf_sync m \<and> sy_case r = i) (st_manifests s),
      cx_checkpoints = filter (\<lambda>k. ck_case k = i) (st_checkpoints s),
      cx_evidence = filter (\<lambda>v. cv_case v = i) (st_evidence s),
      cx_catalog = filter (\<lambda>e. ce_case e = i) (st_catalog s),
      cx_reports = filter (\<lambda>r. rv_case r = i) (st_reports s), cx_runs = case_runs i s \<rparr>"

text \<open>
  Rows that name a synchronization belong to its Case, ids are unique, and so is the
  synchronization of a run (\<open>uq_wallet_case_syncs_ingestion_run\<close>).
\<close>

definition refs_ok :: "store \<Rightarrow> bool" where
  "refs_ok s \<longleftrightarrow> distinct (map sy_id (st_syncs s)) \<and>
     (\<forall>r \<in> set (st_syncs s).
        (\<forall>q \<in> set (st_syncs s). sy_run r \<noteq> None \<and> sy_run q = sy_run r \<longrightarrow> q = r) \<and>
        (\<forall>k \<in> set (st_checkpoints s). ck_sync k = sy_id r \<longrightarrow> ck_case k = sy_case r) \<and>
        (\<forall>v \<in> set (st_evidence s). sl_snapshot (cv_selection v) = sy_id r \<or>
           sl_source_sync (cv_selection v) = sy_id r \<longrightarrow> cv_case v = sy_case r) \<and>
        (\<forall>v \<in> set (st_reports s). rv_sync v = sy_id r \<longrightarrow> rv_case v = sy_case r))"

lemma refs_okD:
  assumes "refs_ok s" "r \<in> set (st_syncs s)"
  shows "q \<in> set (st_syncs s) \<Longrightarrow> sy_id q = sy_id r \<Longrightarrow> q = r"
    "q \<in> set (st_syncs s) \<Longrightarrow> sy_run q = Some n \<Longrightarrow> sy_run r = Some n \<Longrightarrow> q = r"
    "k \<in> set (st_checkpoints s) \<Longrightarrow> ck_sync k = sy_id r \<Longrightarrow> ck_case k = sy_case r"
    "v \<in> set (st_evidence s) \<Longrightarrow> sl_snapshot (cv_selection v) = sy_id r \<Longrightarrow> cv_case v = sy_case r"
    "v \<in> set (st_evidence s) \<Longrightarrow> sl_source_sync (cv_selection v) = sy_id r \<Longrightarrow> cv_case v = sy_case r"
    "p \<in> set (st_reports s) \<Longrightarrow> rv_sync p = sy_id r \<Longrightarrow> rv_case p = sy_case r"
proof -
  have "distinct (map sy_id (st_syncs s))" using assms(1) by (simp add: refs_ok_def)
  then show "q \<in> set (st_syncs s) \<Longrightarrow> sy_id q = sy_id r \<Longrightarrow> q = r"
    using assms(2) by (simp add: distinct_map inj_on_def)
  note r = bspec [OF conjunct2 [OF assms(1) [unfolded refs_ok_def]] assms(2)]
  show "q \<in> set (st_syncs s) \<Longrightarrow> sy_run q = Some n \<Longrightarrow> sy_run r = Some n \<Longrightarrow> q = r"
    using r by (metis option.distinct(1))
  show "k \<in> set (st_checkpoints s) \<Longrightarrow> ck_sync k = sy_id r \<Longrightarrow> ck_case k = sy_case r"
    "v \<in> set (st_evidence s) \<Longrightarrow> sl_snapshot (cv_selection v) = sy_id r \<Longrightarrow> cv_case v = sy_case r"
    "v \<in> set (st_evidence s) \<Longrightarrow> sl_source_sync (cv_selection v) = sy_id r \<Longrightarrow> cv_case v = sy_case r"
    "p \<in> set (st_reports s) \<Longrightarrow> rv_sync p = sy_id r \<Longrightarrow> rv_case p = sy_case r"
    using r by blast+
qed

lemma filter_eqI: "(\<And>x. x \<in> set xs \<Longrightarrow> P x = Q x) \<Longrightarrow> filter P xs = filter Q xs"
  by (rule filter_cong) simp_all

lemma cascade_data:
  assumes "refs_ok s"
  shows "case_data_of j (delete_runs (case_runs i s) (cascade_case i s)) =
    (if j = i then \<lparr> cx_case = [], cx_syncs = [], cx_manifests = [], cx_checkpoints = [], cx_evidence = [],
       cx_catalog = [], cx_reports = [], cx_runs = [] \<rparr> else case_data_of j s)"
proof -
  let ?s = "delete_runs (case_runs i s) (cascade_case i s)"
  define G where "G = sy_id ` set (filter (\<lambda>r. sy_case r = i) (st_syncs s))"
  have gone: "x \<in> G \<longleftrightarrow> (\<exists>r \<in> set (st_syncs s). sy_id r = x \<and> sy_case r = i)" for x
    by (auto simp: G_def)
  have rows: "st_cases ?s = filter (\<lambda>c. wc_id c \<noteq> i) (st_cases s)"
    "st_syncs ?s = filter (\<lambda>r. sy_case r \<noteq> i) (st_syncs s)"
    "st_manifests ?s = filter (\<lambda>m. mf_sync m \<notin> G) (st_manifests s)"
    "st_checkpoints ?s = filter (\<lambda>k. ck_case k \<noteq> i \<and> ck_sync k \<notin> G) (st_checkpoints s)"
    "st_evidence ?s = filter (\<lambda>v. cv_case v \<noteq> i \<and> sl_snapshot (cv_selection v) \<notin> G \<and>
          sl_source_sync (cv_selection v) \<notin> G) (st_evidence s)"
    "st_catalog ?s = filter (\<lambda>e. ce_case e \<noteq> i) (st_catalog s)"
    "st_reports ?s = filter (\<lambda>r. rv_case r \<noteq> i \<and> rv_sync r \<notin> G) (st_reports s)"
    "st_runs ?s = filter (\<lambda>n. n \<notin> set (case_runs i s)) (st_runs s)"
    by (simp_all add: delete_runs_def cascade_case_def Let_def G_def)
  have runs: "case_runs j ?s = (if j = i then [] else case_runs j s)"
  proof (cases "j = i")
    case False
    have "n \<notin> set (case_runs i s)" if "r \<in> set (st_syncs s)" "sy_case r = j" "sy_run r = Some n" for r n
    proof
      assume "n \<in> set (case_runs i s)"
      then obtain q where q: "q \<in> set (st_syncs s)" "sy_case q = i" "sy_run q = Some n"
        by (auto simp: case_runs_def)
      with refs_okD(2) [OF assms that(1) q(1,3) that(3)] that(2) False show False by simp
    qed
    with False show ?thesis unfolding case_runs_def [of j] rows filter_filter
      by (auto intro!: filter_eqI)
  next
    case True
    have "case_runs i ?s = []" unfolding case_runs_def [of i ?s] rows by (simp add: filter_empty_conv)
    with True show ?thesis by simp
  qed
  show ?thesis
  proof (cases "j = i")
    case True
    with runs show ?thesis
      by (auto simp: case_data_of_def rows filter_empty_conv)
  next
    case False
    have "ck_sync k \<notin> G" if "k \<in> set (st_checkpoints s)" "ck_case k = j" for k
      using that refs_okD(3) [OF assms] False unfolding gone by metis
    moreover have "sl_snapshot (cv_selection v) \<notin> G \<and> sl_source_sync (cv_selection v) \<notin> G"
      if "v \<in> set (st_evidence s)" "cv_case v = j" for v
      using that refs_okD(4,5) [OF assms] False unfolding gone by metis
    moreover have "rv_sync r \<notin> G" if "r \<in> set (st_reports s)" "rv_case r = j" for r
      using that refs_okD(6) [OF assms] False unfolding gone by metis
    moreover have "(mf_sync m \<notin> G \<and> (\<exists>r \<in> set (st_syncs ?s). sy_id r = mf_sync m \<and> sy_case r = j)) \<longleftrightarrow>
        (\<exists>r \<in> set (st_syncs s). sy_id r = mf_sync m \<and> sy_case r = j)" for m
    proof
      assume "\<exists>r \<in> set (st_syncs s). sy_id r = mf_sync m \<and> sy_case r = j"
      then obtain r where r: "r \<in> set (st_syncs s)" "sy_id r = mf_sync m" "sy_case r = j" by blast
      have "mf_sync m \<notin> G"
      proof
        assume "mf_sync m \<in> G"
        then obtain q where "q \<in> set (st_syncs s)" "sy_id q = mf_sync m" "sy_case q = i" unfolding gone by blast
        with refs_okD(1) [OF assms r(1), of q] r False show False by simp
      qed
      with r False show "mf_sync m \<notin> G \<and> (\<exists>r \<in> set (st_syncs ?s). sy_id r = mf_sync m \<and> sy_case r = j)"
        unfolding rows by auto
    qed (auto simp: rows)
    ultimately have eqs: "cx_manifests (case_data_of j ?s) = cx_manifests (case_data_of j s)"
      "cx_checkpoints (case_data_of j ?s) = cx_checkpoints (case_data_of j s)"
      "cx_evidence (case_data_of j ?s) = cx_evidence (case_data_of j s)"
      "cx_reports (case_data_of j ?s) = cx_reports (case_data_of j s)"
      using False unfolding case_data_of_def case_data.simps rows(3,4,5,7) filter_filter
      by (intro filter_eqI; blast)+
    have "cx_case (case_data_of j ?s) = cx_case (case_data_of j s)"
      "cx_syncs (case_data_of j ?s) = cx_syncs (case_data_of j s)"
      "cx_catalog (case_data_of j ?s) = cx_catalog (case_data_of j s)"
      "cx_runs (case_data_of j ?s) = cx_runs (case_data_of j s)"
      using False runs unfolding case_data_of_def case_data.simps rows(1,2,6) filter_filter
      by (auto intro!: filter_eqI)
    with eqs False show ?thesis by simp
  qed
qed

text \<open>C22: a deletion removes every row of its Case from every table, and the artifacts of its
  ingestion runs; every other Case keeps all its rows; and the receipt counts what was removed.
\<close>

theorem deletion_exact:
  assumes "delete_transaction owner i public audit now s = (Deleted r, s')" "refs_ok s"
  shows "case_data_of j s' =
      (if j = i then \<lparr> cx_case = [], cx_syncs = [], cx_manifests = [], cx_checkpoints = [], cx_evidence = [],
         cx_catalog = [], cx_reports = [], cx_runs = [] \<rparr> else case_data_of j s) \<and>
    st_artifacts s' k n h = (if n \<in> set (case_runs i s) then Read_Value PNone else st_artifacts s k n h) \<and>
    lr_removed r = (length (cx_syncs (case_data_of i s)), length (cx_runs (case_data_of i s)),
      length (cx_evidence (case_data_of i s)), length (cx_reports (case_data_of i s)))"
proof (cases rule: delete_transaction_cases [of owner i public audit now s])
  case none
  with assms(1) none(2) [of r] show ?thesis by simp
next
  case (deleted q)
  have eq: "q = r" "s' = (delete_runs (case_runs i s) (cascade_case i s))\<lparr> st_receipts := st_receipts s @ [r] \<rparr>"
    using deleted(1,2) assms(1) by auto
  have "case_data_of j s' = case_data_of j (delete_runs (case_runs i s) (cascade_case i s))"
    by (simp add: eq case_data_of_def case_runs_def)
  moreover have "st_artifacts s' k n h = (if n \<in> set (case_runs i s) then Read_Value PNone else st_artifacts s k n h)"
    by (simp add: eq delete_runs_def cascade_case_def Let_def)
  moreover have "lr_removed r = (length (cx_syncs (case_data_of i s)), length (cx_runs (case_data_of i s)),
      length (cx_evidence (case_data_of i s)), length (cx_reports (case_data_of i s)))"
    using deleted(3) eq(1) by (simp add: case_data_of_def)
  ultimately show ?thesis using cascade_data [OF assms(2), of j i] by simp
qed

text \<open>C23: a deletion removes the Case it looked up or none.  Ids are reused after a deletion, and the
  statements after the lookup select by id alone; it is the unique index on the receipts that
  refuses a second deletion under the same public id, should the id belong to another Case by then.
\<close>

theorem deletion_hits_named_case:
  assumes "find_case owner public s = Some c" "cases_ok s" "case_step\<^sup>*\<^sup>* s s1"
    and "delete_transaction owner (wc_id c) (wc_public c) audit now s1 = (Deleted r, s2)"
    and "d \<in> set (st_cases s1)" "d \<notin> set (st_cases s2)"
  shows "wc_public d = public"
proof (cases rule: delete_transaction_cases [of owner "wc_id c" "wc_public c" audit now s1])
  case none
  with assms(4) none(2) [of r] show ?thesis by simp
next
  case (deleted q)
  have s2: "st_cases s2 = filter (\<lambda>c'. wc_id c' \<noteq> wc_id c) (st_cases s1)"
    using assms(4) deleted(2) by (simp add: delete_runs_def cascade_case_def Let_def)
  have pub: "wc_public c = public" "case_stays c s1" using read_case_stays [OF assms(1,3)] by auto
  then obtain e where e: "e \<in> set (st_cases s1)" "same_case c e"
    using deleted(4) by (auto simp: case_stays_def)
  moreover have "wc_id d = wc_id c" using assms(5,6) s2 by simp
  moreover have "distinct (map wc_id (st_cases s1))" using case_steps_ok [OF assms(3,2)] by (simp add: cases_ok_def)
  ultimately have "d = e" using assms(5) by (auto simp: distinct_map inj_on_def same_case_def)
  with e(2) pub(1) show ?thesis by (simp add: same_case_def)
qed

end
