(* ===== verification/Case_Catalog_Results.thy ===== *)
theory Case_Catalog_Results
  imports Case_Catalog Case_Lifecycle_Results
begin

text \<open>
  The catalog against its specification: what a reader sees who follows the cursors of a listing
  while Cases are created, renamed, archived, restored and synchronized, and two behaviours the
  code does not rule out.
\<close>

section \<open>The specification\<close>

text \<open>The owner's Cases in one lifecycle state that match the filter, most recent event first.\<close>

definition catalog_view :: "string \<Rightarrow> bool \<Rightarrow> catalog_filter \<Rightarrow> store \<Rightarrow> case_row list" where
  "catalog_view owner archived f s =
    rev (sort_key (\<lambda>c. ce_id (the (last_event (wc_id c) (st_catalog s))))
      (filter (\<lambda>c. wc_owner c = owner \<and> (wc_archived c \<noteq> None) = archived \<and> filter_matches f c)
        (st_cases s)))"

section \<open>Frozen positions\<close>

lemma Max_image_iff:
  "xs \<noteq> [] \<and> Max (f ` set xs) = (p :: int) \<longleftrightarrow> p \<in> f ` set xs \<and> (\<forall>q \<in> f ` set xs. q \<le> p)"
proof (cases "xs = []")
  case False
  then have "f ` set xs \<noteq> {}" by simp
  from Max_eq_iff [OF _ this] False show ?thesis by simp
qed simp

lemma frozen_position_Some:
  "frozen_position k i rows = Some p \<longleftrightarrow>
    (\<exists>e \<in> set rows. ce_case e = i \<and> ce_id e = p) \<and> p \<le> k \<and>
    (\<forall>e \<in> set rows. ce_case e = i \<and> ce_id e \<le> k \<longrightarrow> ce_id e \<le> p)"
proof -
  let ?es = "filter (\<lambda>e. ce_case e = i \<and> ce_id e \<le> k) rows"
  have pos: "frozen_position k i rows = (if ?es = [] then None else Some (Max (ce_id ` set ?es)))"
    by (simp add: frozen_position_def Let_def)
  have "frozen_position k i rows = Some p \<longleftrightarrow> ?es \<noteq> [] \<and> Max (ce_id ` set ?es) = p"
    unfolding pos by simp
  also have "\<dots> \<longleftrightarrow> p \<in> ce_id ` set ?es \<and> (\<forall>q \<in> ce_id ` set ?es. q \<le> p)"
    by (rule Max_image_iff)
  also have "p \<in> ce_id ` set ?es \<longleftrightarrow> (\<exists>e \<in> set rows. ce_case e = i \<and> ce_id e = p) \<and> p \<le> k" by auto
  also have "(\<forall>q \<in> ce_id ` set ?es. q \<le> p) \<longleftrightarrow>
      (\<forall>e \<in> set rows. ce_case e = i \<and> ce_id e \<le> k \<longrightarrow> ce_id e \<le> p)" by auto
  finally show ?thesis by (simp only: conj_assoc)
qed

lemma frozen_position_record:
  assumes "\<exists>e \<in> set rows. k \<le> ce_id e"
  shows "frozen_position k i (record_event j now visible rows) = frozen_position k i rows"
proof -
  have "k < new_id (map ce_id rows)" using assms new_id_greater [of _ "map ce_id rows"] by fastforce
  then have "filter (\<lambda>e. ce_case e = i \<and> ce_id e \<le> k) (record_event j now visible rows) =
      filter (\<lambda>e. ce_case e = i \<and> ce_id e \<le> k) rows"
    by (simp add: record_event_def)
  then show ?thesis by (simp only: frozen_position_def)
qed

lemma frozen_entry_Some:
  "frozen_entry owner archived f k after rows c = Some x \<longleftrightarrow>
    fst x = c \<and> frozen_position k (wc_id c) rows = Some (snd x) \<and> wc_owner c = owner \<and>
    (\<exists>e \<in> set rows. ce_id e = snd x \<and> ce_visible e = (\<not> archived)) \<and>
    (case after of None \<Rightarrow> True | Some a \<Rightarrow> snd x < a) \<and> filter_matches f c"
  by (cases x) (auto simp: frozen_entry_def split: option.splits)

text \<open>What a listing shows of its candidates: the public id and the position.\<close>

definition shown :: "string \<Rightarrow> bool \<Rightarrow> catalog_filter \<Rightarrow> int \<Rightarrow> int option \<Rightarrow> store \<Rightarrow> (string \<times> int) list" where
  "shown owner archived f k after s =
    map (\<lambda>(c, p). (wc_public c, p)) (catalog_candidates owner archived f k after s)"

lemma map_filter_filter:
  "(\<And>x. g x = (case h x of None \<Rightarrow> None | Some y \<Rightarrow> if P y then Some y else None)) \<Longrightarrow>
   List.map_filter g xs = filter P (List.map_filter h xs)"
  by (induction xs) (auto simp: List.map_filter_simps split: option.splits)

lemma map_filter_member: "y \<in> set (List.map_filter g xs) \<longleftrightarrow> (\<exists>x \<in> set xs. g x = Some y)"
  by (induction xs) (auto simp: List.map_filter_simps split: option.splits)

lemma candidates_after:
  "catalog_candidates owner archived f k (Some a) s =
    filter (\<lambda>x. snd x < a) (catalog_candidates owner archived f k None s)"
proof -
  have "List.map_filter (frozen_entry owner archived f k (Some a) (st_catalog s)) (st_cases s) =
      filter (\<lambda>x. snd x < a) (List.map_filter (frozen_entry owner archived f k None (st_catalog s)) (st_cases s))"
    by (rule map_filter_filter) (auto simp: frozen_entry_def split: option.split)
  then show ?thesis by (simp add: catalog_candidates_def rev_filter [symmetric] filter_sort)
qed

lemma shown_after: "shown owner archived f k (Some a) s = filter (\<lambda>x. snd x < a) (shown owner archived f k None s)"
  by (simp add: shown_def candidates_after filter_map comp_def split_def)

text \<open>Positions are ids of events, so no two candidates share one.\<close>

lemma candidates_descending:
  assumes "cases_ok s"
  shows "sorted_wrt (>) (map snd (catalog_candidates owner archived f k after s))"
proof -
  let ?m = "List.map_filter (frozen_entry owner archived f k after (st_catalog s)) (st_cases s)"
  have cs: "distinct (map wc_id (st_cases s))" and ev: "inj_on ce_id (set (st_catalog s))"
    using assms by (auto simp: cases_ok_def catalog_ok_def strict_sorted_iff distinct_map)
  have "distinct (map snd (List.map_filter (frozen_entry owner archived f k after (st_catalog s)) cs'))"
    if "distinct (map wc_id cs')" for cs'
    using that
  proof (induction cs')
    case (Cons c cs')
    show ?case
    proof (cases "frozen_entry owner archived f k after (st_catalog s) c")
      case None
      with Cons show ?thesis by (simp add: List.map_filter_simps)
    next
      case (Some x)
      have differ: "snd x \<noteq> snd y" if "d \<in> set cs'" "frozen_entry owner archived f k after (st_catalog s) d = Some y" for d y
      proof
        assume same: "snd x = snd y"
        from Some that(2) obtain e g where "e \<in> set (st_catalog s)" "ce_case e = wc_id c" "ce_id e = snd x"
          "g \<in> set (st_catalog s)" "ce_case g = wc_id d" "ce_id g = snd y"
          by (auto simp: frozen_entry_Some frozen_position_Some)
        with ev same have "wc_id c = wc_id d" by (metis inj_onD)
        with Cons(2) that(1) show False by auto
      qed
      have "snd x \<notin> snd ` set (List.map_filter (frozen_entry owner archived f k after (st_catalog s)) cs')"
      proof
        assume "snd x \<in> snd ` set (List.map_filter (frozen_entry owner archived f k after (st_catalog s)) cs')"
        then obtain d y where "d \<in> set cs'" "frozen_entry owner archived f k after (st_catalog s) d = Some y"
          "snd x = snd y" unfolding image_iff Bex_def map_filter_member by blast
        with differ show False by blast
      qed
      with Cons Some show ?thesis by (simp add: List.map_filter_simps)
    qed
  qed (simp add: List.map_filter_simps)
  with cs have "distinct (map snd (sort_key snd ?m))" by (simp add: distinct_map)
  then have "sorted_wrt (<) (map snd (sort_key snd ?m))" by (simp add: strict_sorted_iff)
  then show ?thesis by (simp add: catalog_candidates_def sorted_wrt_rev rev_map [symmetric])
qed

section \<open>Frozen pages do not change while Cases only come and change\<close>

lemma map_filter_map_rel:
  assumes "\<And>x. x \<in> set xs \<Longrightarrow> g' (h x) = map_option k (g x)"
  shows "List.map_filter g' (map h xs) = map k (List.map_filter g xs)"
  using assms by (induction xs) (auto simp: List.map_filter_simps split: option.splits)

lemma sort_key_map: "(\<And>x. x \<in> set xs \<Longrightarrow> f (k x) = g x) \<Longrightarrow> sort_key f (map k xs) = map k (sort_key g xs)"
proof (induction xs)
  case (Cons x xs)
  have insort: "insort_key f (k x) (map k ys) = map k (insort_key g x ys)" if "set ys \<subseteq> set (x # xs)" for ys
    using that Cons.prems by (induction ys) auto
  have "set (sort_key g xs) \<subseteq> set (x # xs)" by auto
  from insort [OF this] Cons show ?case by simp
qed simp

text \<open>The part of a store a text-free listing up to \<open>k\<close> depends on.\<close>

lemma shown_cong:
  assumes "\<And>c. c \<in> set (st_cases s) \<Longrightarrow>
      frozen_entry owner archived f k None (st_catalog s') (h c) =
        map_option (\<lambda>x. (h c, snd x)) (frozen_entry owner archived f k None (st_catalog s) c)"
    and "\<And>c. c \<in> set (st_cases s) \<Longrightarrow> wc_public (h c) = wc_public c"
    and "\<And>c. c \<in> set fresh \<Longrightarrow> frozen_entry owner archived f k None (st_catalog s') c = None"
    and "st_cases s' = map h (st_cases s) @ fresh"
  shows "shown owner archived f k None s' = shown owner archived f k None s"
proof -
  let ?g = "frozen_entry owner archived f k None (st_catalog s)"
  have "List.map_filter (frozen_entry owner archived f k None (st_catalog s')) fresh = []"
    using assms(3) by (induction fresh) (auto simp: List.map_filter_simps)
  then have m: "List.map_filter (frozen_entry owner archived f k None (st_catalog s')) (st_cases s') =
      map (\<lambda>x. (h (fst x), snd x)) (List.map_filter ?g (st_cases s))"
  proof (simp add: assms(4) map_filter_append, intro map_filter_map_rel)
    fix c assume c: "c \<in> set (st_cases s)"
    show "frozen_entry owner archived f k None (st_catalog s') (h c) = map_option (\<lambda>x. (h (fst x), snd x)) (?g c)"
    proof (cases "?g c")
      case (Some x)
      then have "fst x = c" by (simp add: frozen_entry_Some)
      with Some assms(1) [OF c] show ?thesis by simp
    qed (simp add: assms(1) [OF c])
  qed
  have "shown owner archived f k None s' =
      map (\<lambda>x. (wc_public (h (fst x)), snd x)) (catalog_candidates owner archived f k None s)"
    unfolding shown_def catalog_candidates_def m
    by (subst sort_key_map [where g = snd]) (simp_all add: rev_map split_def comp_def)
  also have "\<dots> = shown owner archived f k None s"
    unfolding shown_def
    by (intro map_cong refl)
      (auto simp: catalog_candidates_def map_filter_member frozen_entry_Some assms(2))
  finally show ?thesis .
qed

text \<open>Text filters look at labels and notes, which change; the other filters look at columns that
  do not.\<close>

lemma filter_matches_same: "qf_text f = None \<Longrightarrow> same_case c d \<Longrightarrow> filter_matches f d = filter_matches f c"
  by (simp add: filter_matches_def same_case_def scope_identity_def split: option.split)

lemma visible_record:
  assumes "\<exists>e \<in> set rows. k \<le> ce_id e" "p \<le> k"
  shows "(\<exists>e \<in> set (record_event i now v rows). ce_id e = p \<and> ce_visible e = b) \<longleftrightarrow>
    (\<exists>e \<in> set rows. ce_id e = p \<and> ce_visible e = b)"
proof -
  have "p < new_id (map ce_id rows)" using assms new_id_greater [of _ "map ce_id rows"] by fastforce
  then show ?thesis by (auto simp: record_event_def)
qed

lemma frozen_entry_record:
  assumes "\<exists>e \<in> set rows. k \<le> ce_id e" "qf_text f = None" "same_case c d"
  shows "frozen_entry owner archived f k None (record_event i now v rows) d =
    map_option (\<lambda>x. (d, snd x)) (frozen_entry owner archived f k None rows c)"
proof -
  have eq: "wc_id d = wc_id c" "wc_owner d = wc_owner c"
    using assms(3) by (simp_all add: same_case_def scope_identity_def)
  show ?thesis
  proof (cases "frozen_position k (wc_id c) rows")
    case (Some p)
    then have "p \<le> k" by (simp add: frozen_position_Some)
    with Some show ?thesis
      by (simp add: frozen_entry_def frozen_position_record [OF assms(1)] eq
          visible_record [OF assms(1)] filter_matches_same [OF assms(2,3)])
  qed (simp add: frozen_entry_def frozen_position_record [OF assms(1)] eq)
qed

definition covered :: "int \<Rightarrow> store \<Rightarrow> bool" where
  "covered k s \<longleftrightarrow> (\<exists>e \<in> set (st_catalog s). k \<le> ce_id e)"

lemma shape_shown:
  assumes "case_shape s s'" "cases_ok s" "covered k s" "qf_text f = None"
  shows "shown owner archived f k None s' = shown owner archived f k None s" "covered k s'"
proof -
  have "shown owner archived f k None s' = shown owner archived f k None s \<and> covered k s'"
    using assms
  proof (induction rule: case_shape.induct)
    case (unchanged s' s)
    then show ?case by (simp add: shown_def catalog_candidates_def covered_def)
  next
    case (touched s' p g s case_id now visible)
    have same: "same_case c (if p c then g c else c)" if "c \<in> set (st_cases s)" for c
      using that touched(5) by (simp add: same_case_refl)
    have "shown owner archived f k None s' = shown owner archived f k None s"
    proof (rule shown_cong [where h = "\<lambda>c. if p c then g c else c" and fresh = "[]"])
      fix c assume c: "c \<in> set (st_cases s)"
      show "frozen_entry owner archived f k None (st_catalog s') (if p c then g c else c) =
        map_option (\<lambda>x. (if p c then g c else c, snd x)) (frozen_entry owner archived f k None (st_catalog s) c)"
        unfolding touched(2) using touched(7,8) same [OF c]
        by (intro frozen_entry_record) (simp_all add: covered_def)
      show "wc_public (if p c then g c else c) = wc_public c" using same [OF c] by (simp add: same_case_def)
    qed (simp_all add: touched(1))
    then show ?case using touched(2,7) by (auto simp: covered_def record_event_def)
  next
    case (added s' s c now)
    have no: "ce_case e \<noteq> wc_id c" if "e \<in> set (st_catalog s)" for e
    proof -
      have "ce_case e \<in> wc_id ` set (st_cases s)"
        using that added(9) by (simp add: cases_ok_def catalog_ok_def)
      with added(6) show ?thesis by metis
    qed
    have "frozen_position k (wc_id c) (st_catalog s) = None"
      using no by (simp add: frozen_position_def filter_empty_conv Let_def)
    then have none: "frozen_entry owner archived f k None (st_catalog s') c = None"
      using added(2,10) by (simp add: frozen_entry_def frozen_position_record covered_def)
    have "shown owner archived f k None s' = shown owner archived f k None s"
    proof (rule shown_cong [where h = id and fresh = "[c]"])
      fix d assume "d \<in> set (st_cases s)"
      show "frozen_entry owner archived f k None (st_catalog s') (id d) =
        map_option (\<lambda>x. (id d, snd x)) (frozen_entry owner archived f k None (st_catalog s) d)"
        unfolding added(2) using added(10,11)
        by (intro frozen_entry_record) (simp_all add: covered_def same_case_refl)
    qed (simp_all add: none added(1))
    then show ?case using added(2,10) by (auto simp: covered_def record_event_def)
  qed
  then show "shown owner archived f k None s' = shown owner archived f k None s" "covered k s'" by simp_all
qed

lemma grown_shown:
  assumes "growth_step\<^sup>*\<^sup>* s s'" "cases_ok s" "covered k s" "qf_text f = None"
  shows "shown owner archived f k None s' = shown owner archived f k None s \<and> covered k s' \<and> cases_ok s'"
  using assms
  by (induction rule: rtranclp_induct) (auto dest: growth_shape intro: shape_ok simp: shape_shown)

section \<open>Following the cursors\<close>

definition read_turn :: "world \<Rightarrow> world" where
  "read_turn w = w\<lparr> w_turn := Suc (w_turn w), w_store := tn_env (w_sched w (w_turn w)) (w_store w) \<rparr>"

lemma run_read: "run_state (read_only g) w = (g (w_store (read_turn w)), read_turn w)"
  by (simp add: read_only_def run_transact Let_def read_turn_def)

lemma read_turn_grows:
  assumes "sched_keeps growth_step UNIV w"
  shows "growth_step\<^sup>*\<^sup>* (w_store w) (w_store (read_turn w))" "sched_keeps growth_step UNIV (read_turn w)"
  using assms by (auto simp: read_turn_def sched_keeps_def)

lemma growth_cases_ok: "growth_step\<^sup>*\<^sup>* s s' \<Longrightarrow> cases_ok s \<Longrightarrow> cases_ok s'"
  by (induction rule: rtranclp_induct) (auto dest: growth_shape intro: shape_ok)

lemma checked_limit: "checked_request dg owner q = Inr f \<Longrightarrow> 1 \<le> lq_limit q \<and> lq_state q \<in> {''active'', ''archived''}"
  by (simp add: checked_request_def Let_def)

text \<open>A request goes on under a cursor it was handed.\<close>

lemma checked_next:
  assumes "checked_request dg owner q = Inr f" "is_digest (dg_scope dg owner)" "is_digest (dg_filters dg f)"
    "1 \<le> snd (last rows)" "snd (last rows) \<le> k"
  shows "checked_request dg owner (q\<lparr> lq_cursor := Some (next_cursor dg owner (lq_state q) f k rows) \<rparr>) = Inr f"
proof -
  have "f = (lq_filter q)\<lparr> qf_text := map_option strip (qf_text (lq_filter q)) \<rparr>"
    using assms(1) by (auto simp: checked_request_def Let_def split: option.splits)
  with assms show ?thesis
    by (auto simp: checked_request_def Let_def next_cursor_def cursor_values_ok_def split: option.splits)
qed

lemma list_cases_with_cursor:
  assumes "checked_request dg owner q = Inr f" "lq_cursor q = Some cu"
  shows "run_state (list_cases dg owner q) w =
    (let found = list_at_catalog_cutoff owner (lq_state q = ''archived'') f (nat (lq_limit q)) (cu_cutoff cu)
           (Some (cu_after cu)) (w_store (read_turn w)) in
     (Inr \<lparr> pg_cases = map (\<lambda>c. case_reply_of c (w_store (read_turn (read_turn w)))) (map fst (fst found)),
        pg_truncated = snd found,
        pg_next = (if snd found then Some (next_cursor dg owner (lq_state q) f (cu_cutoff cu) (fst found)) else None) \<rparr>,
      read_turn (read_turn w)))"
  using assms by (simp add: list_cases_def run_bind run_read Let_def)

lemma list_cases_fresh:
  assumes "checked_request dg owner q = Inr f" "lq_cursor q = None"
    and "catalog_cutoff owner (w_store (read_turn w)) = Some k"
  shows "run_state (list_cases dg owner q) w =
    (let w1 = read_turn (read_turn w);
         found = list_at_catalog_cutoff owner (lq_state q = ''archived'') f (nat (lq_limit q)) k None (w_store w1) in
     (Inr \<lparr> pg_cases = map (\<lambda>c. case_reply_of c (w_store (read_turn w1))) (map fst (fst found)),
        pg_truncated = snd found,
        pg_next = (if snd found then Some (next_cursor dg owner (lq_state q) f k (fst found)) else None) \<rparr>,
      read_turn w1))"
  using assms by (simp add: list_cases_def run_bind run_read Let_def)

lemma page_rows:
  "list_at_catalog_cutoff owner archived f n k after s =
    (take n (catalog_candidates owner archived f k after s),
     n < length (catalog_candidates owner archived f k after s))"
  by (auto simp: list_at_catalog_cutoff_def Let_def min_def)

lemma shown_map: "map fst (shown owner archived f k after s) =
    map (\<lambda>c. wc_public c) (map fst (catalog_candidates owner archived f k after s))"
  "map snd (shown owner archived f k after s) = map snd (catalog_candidates owner archived f k after s)"
  "length (shown owner archived f k after s) = length (catalog_candidates owner archived f k after s)"
  by (simp_all add: shown_def split_def comp_def)

lemma descending_rest:
  fixes L :: "('a \<times> int) list"
  assumes "sorted_wrt (>) (map snd L)" "0 < n" "n < length L"
  shows "filter (\<lambda>x. snd x < snd (last (take n L))) L = drop n L"
proof -
  have "take n L \<noteq> []" using assms by auto
  then obtain ys y where y: "take n L = ys @ [y]" by (metis append_butlast_last_id)
  have L: "L = ys @ [y] @ drop n L" using append_take_drop_id [of n L] y by simp
  have "sorted_wrt (>) (map snd (ys @ [y] @ drop n L))" using assms(1) L by simp
  then have "filter (\<lambda>x. snd x < snd y) ys = []" "filter (\<lambda>x. snd x < snd y) (drop n L) = drop n L"
    by (auto simp: sorted_wrt_append filter_empty_conv filter_id_conv)
  then have "filter (\<lambda>x. snd x < snd y) (ys @ [y] @ drop n L) = drop n L" by simp
  moreover have "filter (\<lambda>x. snd x < snd y) L = filter (\<lambda>x. snd x < snd y) (ys @ [y] @ drop n L)"
    by (rule arg_cong [OF L])
  ultimately show ?thesis by (simp only: y last_snoc)
qed

lemma positions_bounded:
  assumes "cases_ok s" "x \<in> set (catalog_candidates owner archived f k after s)"
  shows "1 \<le> snd x" "snd x \<le> k"
  using assms by (auto simp: catalog_candidates_def map_filter_member frozen_entry_Some frozen_position_Some
      cases_ok_def catalog_ok_def int_one_le_iff_zero_less)

text \<open>What a request with a cursor returns of its page, and where it goes on.\<close>

lemma page_shown:
  assumes "cases_ok s" "0 < n"
    and L: "L = shown owner archived f k after s"
    and found: "found = list_at_catalog_cutoff owner archived f n k after s"
  shows "map wc_public (map fst (fst found)) = map fst (take n L)" "snd found \<longleftrightarrow> n < length L"
    "snd found \<Longrightarrow> snd (last (fst found)) = snd (last (take n L)) \<and> 1 \<le> snd (last (fst found)) \<and>
      snd (last (fst found)) \<le> k \<and> filter (\<lambda>x. snd x < snd (last (fst found))) L = drop n L"
proof -
  let ?C = "catalog_candidates owner archived f k after s"
  have fst: "fst found = take n ?C" and more: "snd found \<longleftrightarrow> n < length L"
    by (simp_all add: found page_rows L shown_map)
  show "map wc_public (map fst (fst found)) = map fst (take n L)"
    by (simp add: fst L shown_def take_map split_def comp_def)
  show "snd found \<longleftrightarrow> n < length L" by (rule more)
  assume "snd found"
  with more have long: "n < length L" by simp
  then have ne: "take n ?C \<noteq> []" using assms(2) by (auto simp: L shown_map)
  have "last (take n L) = (\<lambda>(c, p). (wc_public c, p)) (last (take n ?C))"
    unfolding L shown_def take_map by (rule last_map [OF ne])
  then have last: "snd (last (take n L)) = snd (last (take n ?C))" by (simp add: split_def)
  have "last (take n ?C) \<in> set ?C" using ne last_in_set in_set_takeD by metis
  note bounds = positions_bounded [OF assms(1) this]
  have "sorted_wrt (>) (map snd L)" using candidates_descending [OF assms(1)] by (simp add: L shown_map)
  from descending_rest [OF this assms(2) long] bounds last fst show
    "snd (last (fst found)) = snd (last (take n L)) \<and> 1 \<le> snd (last (fst found)) \<and>
      snd (last (fst found)) \<le> k \<and> filter (\<lambda>x. snd x < snd (last (fst found))) L = drop n L" by simp
qed

lemma walk_from_cursor:
  assumes "sched_keeps growth_step UNIV w" "cases_ok (w_store w)" "covered (cu_cutoff cu) (w_store w)"
    and "is_digest (dg_scope dg owner)" "is_digest (dg_filters dg f)" "qf_text f = None"
    and "checked_request dg owner q = Inr f" "lq_cursor q = Some cu"
    and "length (filter (\<lambda>x. snd x < cu_after cu)
      (shown owner (lq_state q = ''archived'') f (cu_cutoff cu) None (w_store w))) < n"
  shows "fst (run_state (walk_catalog n dg owner q) w) = map fst (filter (\<lambda>x. snd x < cu_after cu)
      (shown owner (lq_state q = ''archived'') f (cu_cutoff cu) None (w_store w)))"
  using assms
proof (induction n arbitrary: q w cu)
  case (Suc m)
  let ?archived = "lq_state q = ''archived''" and ?k = "cu_cutoff cu" and ?lim = "nat (lq_limit q)"
  let ?s1 = "w_store (read_turn w)" and ?w2 = "read_turn (read_turn w)"
  define L where "L = filter (\<lambda>x. snd x < cu_after cu) (shown owner ?archived f ?k None (w_store w))"
  define found where "found = list_at_catalog_cutoff owner ?archived f ?lim ?k (Some (cu_after cu)) ?s1"
  note turn1 = read_turn_grows [OF Suc.prems(1)]
  note turn2 = read_turn_grows [OF turn1(2)]
  have s1: "shown owner ?archived f ?k None ?s1 = shown owner ?archived f ?k None (w_store w)"
    "covered ?k ?s1" "cases_ok ?s1"
    using grown_shown [OF turn1(1) Suc.prems(2,3,6)] by auto
  have s2: "shown owner ?archived f ?k None (w_store ?w2) = shown owner ?archived f ?k None (w_store w)"
    "covered ?k (w_store ?w2)" "cases_ok (w_store ?w2)"
    using grown_shown [OF turn2(1) s1(3,2) Suc.prems(6)] s1(1) by auto
  have lim: "0 < ?lim" using checked_limit [OF Suc.prems(7)] by simp
  have L1: "L = shown owner ?archived f ?k (Some (cu_after cu)) ?s1" by (simp add: L_def shown_after s1(1))
  note page = page_shown [OF s1(3) lim L1 found_def]
  have run: "run_state (walk_catalog (Suc m) dg owner q) w =
    (let shown = map (\<lambda>c. wc_public c) (map fst (fst found)) in
     if snd found then
       (let r = run_state (walk_catalog m dg owner (q\<lparr> lq_cursor := Some (next_cursor dg owner (lq_state q) f ?k
          (fst found)) \<rparr>)) ?w2 in (shown @ fst r, snd r))
     else (shown, ?w2))"
    by (simp add: run_bind list_cases_with_cursor [OF Suc.prems(7,8)] Let_def found_def [symmetric]
        case_reply_of_def comp_def split_def)
  have goal: "fst (run_state (walk_catalog (Suc m) dg owner q) w) = map fst L"
  proof (cases "snd found")
    case False
    with page have "length L \<le> ?lim" by simp
    with page(1) False show ?thesis unfolding run by (simp add: Let_def comp_def)
  next
    case True
    let ?a = "snd (last (fst found))"
    let ?q = "q\<lparr> lq_cursor := Some (next_cursor dg owner (lq_state q) f ?k (fst found)) \<rparr>"
    have cu: "cu_cutoff (next_cursor dg owner (lq_state q) f ?k (fst found)) = ?k"
      "cu_after (next_cursor dg owner (lq_state q) f ?k (fst found)) = ?a"
      by (simp_all add: next_cursor_def)
    have long: "?lim < length L" using True page(2) by simp
    have "last (take ?lim L) \<in> set L" using lim long by (metis in_set_takeD last_in_set length_greater_0_conv
        length_take less_imp_le_nat min.absorb2)
    with page(3) [OF True] have "?a < cu_after cu" by (auto simp: L_def)
    then have same: "filter (\<lambda>x. snd x < ?a) L = filter (\<lambda>x. snd x < ?a) (shown owner ?archived f ?k None (w_store w))"
      unfolding L_def filter_filter by (intro filter_eqI) auto
    have "filter (\<lambda>x. snd x < ?a) L = drop ?lim L" using page(3) [OF True] by (elim conjE)
    then have rest: "filter (\<lambda>x. snd x < ?a) (shown owner ?archived f ?k None (w_store ?w2)) =
        drop ?lim L" unfolding s2(1) same .
    have "length (drop ?lim L) < m" using Suc.prems(9) lim long by (simp add: L_def)
    with rest have "fst (run_state (walk_catalog m dg owner ?q) ?w2) = map fst (drop ?lim L)"
      using Suc.IH [of ?w2 "next_cursor dg owner (lq_state q) f ?k (fst found)" ?q] cu turn2(2) s2
        Suc.prems(4-7) checked_next [OF Suc.prems(7,4,5)] page(3) [OF True] by simp
    moreover have "map fst L = map fst (take ?lim L) @ map fst (drop ?lim L)"
      by (simp add: map_append [symmetric])
    ultimately show ?thesis unfolding run using page(1) True by (simp add: Let_def comp_def)
  qed
  then show ?case by (simp add: L_def)
qed simp

section \<open>The listing is the view\<close>

lemma last_event_frozen:
  assumes "sorted_wrt (<) (map ce_id rows)" "last_event i rows = Some e"
    and "\<forall>x \<in> set rows. ce_case x = i \<longrightarrow> ce_id x \<le> k"
  shows "frozen_position k i rows = Some (ce_id e)"
    "(\<exists>x \<in> set rows. ce_id x = ce_id e \<and> ce_visible x = b) \<longleftrightarrow> ce_visible e = b"
proof -
  let ?es = "filter (\<lambda>x. ce_case x = i) rows"
  have ne: "?es \<noteq> []" and e: "e = last ?es"
    using assms(2) by (auto simp: last_event_def Let_def split: if_splits)
  then have "e \<in> set ?es" by (metis last_in_set)
  then have mem: "e \<in> set rows" "ce_case e = i" by auto
  obtain ys where ys: "?es = ys @ [e]" using ne e by (metis append_butlast_last_id)
  have "sorted_wrt (<) (map ce_id ?es)" using assms(1) by (rule sorted_wrt_map_filter)
  then have "\<forall>x \<in> set ?es. ce_id x \<le> ce_id e" unfolding ys by (auto simp: sorted_wrt_append)
  with mem assms(3) show "frozen_position k i rows = Some (ce_id e)" unfolding frozen_position_Some by auto
  have "inj_on ce_id (set rows)" using assms(1) by (auto simp: strict_sorted_iff distinct_map)
  with mem show "(\<exists>x \<in> set rows. ce_id x = ce_id e \<and> ce_visible x = b) \<longleftrightarrow> ce_visible e = b"
    by (auto dest: inj_onD)
qed

lemma map_filter_if: "(\<And>x. x \<in> set xs \<Longrightarrow> g x = (if P x then Some (h x) else None)) \<Longrightarrow>
  List.map_filter g xs = map h (filter P xs)"
  by (induction xs) (auto simp: List.map_filter_simps)

lemma cutoff_None: "catalog_cutoff owner s = None \<longleftrightarrow>
    (\<forall>e \<in> set (st_catalog s). \<forall>c \<in> set (st_cases s). wc_id c = ce_case e \<longrightarrow> wc_owner c \<noteq> owner)"
  by (auto simp: catalog_cutoff_def Let_def filter_empty_conv)

lemma cutoff_Some: "catalog_cutoff owner s = Some k \<longleftrightarrow>
    k \<in> ce_id ` {e \<in> set (st_catalog s). \<exists>c \<in> set (st_cases s). wc_id c = ce_case e \<and> wc_owner c = owner} \<and>
    (\<forall>e \<in> set (st_catalog s). (\<exists>c \<in> set (st_cases s). wc_id c = ce_case e \<and> wc_owner c = owner) \<longrightarrow>
       ce_id e \<le> k)"
proof -
  let ?es = "filter (\<lambda>e. \<exists>c \<in> set (st_cases s). wc_id c = ce_case e \<and> wc_owner c = owner) (st_catalog s)"
  have "catalog_cutoff owner s = Some k \<longleftrightarrow> ?es \<noteq> [] \<and> Max (ce_id ` set ?es) = k"
    by (simp add: catalog_cutoff_def Let_def)
  also have "\<dots> \<longleftrightarrow> k \<in> ce_id ` set ?es \<and> (\<forall>q \<in> ce_id ` set ?es. q \<le> k)" by (rule Max_image_iff)
  finally show ?thesis by (simp only: set_filter ball_simps mem_Collect_eq) blast
qed

lemma shown_fresh:
  assumes "cases_ok s" "catalog_cutoff owner s = Some k"
  shows "map fst (shown owner archived f k None s) = map wc_public (catalog_view owner archived f s)"
proof -
  let ?pos = "\<lambda>c. ce_id (the (last_event (wc_id c) (st_catalog s)))"
  let ?P = "\<lambda>c. wc_owner c = owner \<and> (wc_archived c \<noteq> None) = archived \<and> filter_matches f c"
  have entry: "frozen_entry owner archived f k None (st_catalog s) c = (if ?P c then Some (c, ?pos c) else None)"
    if c: "c \<in> set (st_cases s)" for c
  proof (cases "wc_owner c = owner")
    case True
    obtain e where e: "last_event (wc_id c) (st_catalog s) = Some e" "ce_visible e = (wc_archived c = None)"
      using assms(1) c by (auto simp: cases_ok_def catalog_ok_def)
    have upto: "\<forall>x \<in> set (st_catalog s). ce_case x = wc_id c \<longrightarrow> ce_id x \<le> k"
    proof (intro ballI impI)
      fix x assume x: "x \<in> set (st_catalog s)" "ce_case x = wc_id c"
      with assms(2) c True show "ce_id x \<le> k" unfolding cutoff_Some by metis
    qed
    have "sorted_wrt (<) (map ce_id (st_catalog s))" using assms(1) by (simp add: cases_ok_def catalog_ok_def)
    note frozen = last_event_frozen [OF this e(1) upto]
    show ?thesis unfolding frozen_entry_def frozen(1) option.case frozen(2) e option.sel using True by auto
  qed (simp add: frozen_entry_def split: option.split)
  have "List.map_filter (frozen_entry owner archived f k None (st_catalog s)) (st_cases s) =
      map (\<lambda>c. (c, ?pos c)) (filter ?P (st_cases s))"
    by (rule map_filter_if) (rule entry)
  then have "catalog_candidates owner archived f k None s =
      map (\<lambda>c. (c, ?pos c)) (catalog_view owner archived f s)"
    by (simp add: catalog_candidates_def catalog_view_def sort_key_map [where g = ?pos] rev_map)
  then show ?thesis by (simp add: shown_def comp_def)
qed

lemma catalog_view_empty:
  assumes "cases_ok s" "catalog_cutoff owner s = None"
  shows "catalog_view owner archived f s = []"
proof -
  have "wc_owner c \<noteq> owner" if c: "c \<in> set (st_cases s)" for c
  proof
    assume "wc_owner c = owner"
    moreover obtain e where "last_event (wc_id c) (st_catalog s) = Some e"
      using assms(1) c by (auto simp: cases_ok_def catalog_ok_def)
    then obtain e where "e \<in> set (st_catalog s)" "ce_case e = wc_id c"
      by (auto simp: last_event_def Let_def filter_empty_conv split: if_splits)
    ultimately show False using assms(2) c unfolding cutoff_None by metis
  qed
  then show ?thesis by (auto simp: catalog_view_def filter_empty_conv)
qed

lemma cutoff_covered: "catalog_cutoff owner s = Some k \<Longrightarrow> covered k s"
  unfolding cutoff_Some covered_def by auto

lemma shown_length: "length (shown owner archived f k after s) \<le> length (st_cases s)"
proof -
  have "length (List.map_filter g xs) \<le> length xs" for g :: "case_row \<Rightarrow> (case_row \<times> int) option" and xs
    by (induction xs) (auto simp: List.map_filter_simps split: option.split)
  then show ?thesis by (simp add: shown_map catalog_candidates_def)
qed

lemma walk_rest:
  assumes "sched_keeps growth_step UNIV w" "cases_ok (w_store w)" "covered (cu_cutoff cu) (w_store w)"
    and "is_digest (dg_scope dg owner)" "is_digest (dg_filters dg f)" "qf_text f = None"
    and "checked_request dg owner (q\<lparr> lq_cursor := Some cu \<rparr>) = Inr f"
    and "filter (\<lambda>x. snd x < cu_after cu)
      (shown owner (lq_state q = ''archived'') f (cu_cutoff cu) None (w_store w)) = rest"
    and "length rest < m"
  shows "fst (run_state (walk_catalog m dg owner (q\<lparr> lq_cursor := Some cu \<rparr>)) w) = map fst rest"
proof -
  have st: "lq_state (q\<lparr> lq_cursor := Some cu \<rparr>) = lq_state q" by simp
  show ?thesis
    using walk_from_cursor [OF assms(1,2) _ assms(4-6), of cu "q\<lparr> lq_cursor := Some cu \<rparr>" m] assms(3,7-9)
    unfolding st by simp
qed

text \<open>C6: a reader who lists Cases without a text filter and follows the cursors to the end is shown
  exactly the owner's Cases that were in the requested lifecycle state and matched the filter when
  the listing began, each once, most recent first, however many pages it takes and whatever Cases
  others create, rename, archive, restore or synchronize meanwhile, provided none is deleted.
\<close>

theorem walk_lists_catalog:
  assumes "sched_keeps growth_step UNIV w" "cases_ok (w_store w)"
    and "is_digest (dg_scope dg owner)" "is_digest (dg_filters dg f)"
    and "checked_request dg owner q = Inr f" "lq_cursor q = None" "qf_text f = None"
    and "length (st_cases (w_store (read_turn w))) < n"
  shows "fst (run_state (walk_catalog n dg owner q) w) =
    map wc_public (catalog_view owner (lq_state q = ''archived'') f (w_store (read_turn w)))"
proof -
  let ?archived = "lq_state q = ''archived''" and ?lim = "nat (lq_limit q)"
  define s1 where "s1 = w_store (read_turn w)"
  define w2 where "w2 = read_turn (read_turn w)"
  define w3 where "w3 = read_turn w2"
  obtain m where n: "n = Suc m" using assms(8) by (cases n) auto
  note turn1 = read_turn_grows [OF assms(1)]
  note turn2 = read_turn_grows [OF turn1(2), folded w2_def]
  note turn3 = read_turn_grows [OF turn2(2), folded w3_def]
  have ok1: "cases_ok s1" unfolding s1_def by (rule growth_cases_ok [OF turn1(1) assms(2)])
  show ?thesis
  proof (cases "catalog_cutoff owner s1")
    case None
    with catalog_view_empty [OF ok1 None] assms(5,6) show ?thesis
      by (simp add: n run_bind list_cases_def run_read s1_def)
  next
    case (Some k)
    define L where "L = shown owner ?archived f k None s1"
    define found where "found = list_at_catalog_cutoff owner ?archived f ?lim k None (w_store w2)"
    have s2: "shown owner ?archived f k None (w_store w2) = L" "covered k (w_store w2)" "cases_ok (w_store w2)"
      using grown_shown [OF turn2(1) [folded s1_def] ok1 cutoff_covered [OF Some] assms(7)] by (auto simp: L_def)
    have s3: "shown owner ?archived f k None (w_store w3) = L" "covered k (w_store w3)" "cases_ok (w_store w3)"
      using grown_shown [OF turn3(1) s2(3,2) assms(7)] s2(1) by auto
    have lim: "0 < ?lim" using checked_limit [OF assms(5)] by simp
    note page = page_shown [OF s2(3) lim s2(1) [symmetric] found_def]
    let ?cu = "next_cursor dg owner (lq_state q) f k (fst found)"
    let ?q = "q\<lparr> lq_cursor := Some ?cu \<rparr>"
    have run: "fst (run_state (walk_catalog n dg owner q) w) =
        map wc_public (map fst (fst found)) @
          (if snd found then fst (run_state (walk_catalog m dg owner ?q) w3) else [])"
      by (simp add: n run_bind list_cases_fresh [OF assms(5,6) Some [unfolded s1_def]] Let_def
          found_def [unfolded w2_def, symmetric] w2_def w3_def case_reply_of_def comp_def split_def)
    have "fst (run_state (walk_catalog m dg owner ?q) w3) = map fst (drop ?lim L)" if more: "snd found"
    proof (rule walk_rest [OF turn3(2) s3(3) _ assms(3,4,7)])
      note rest = page(3) [OF more]
      have cu: "cu_cutoff ?cu = k" "cu_after ?cu = snd (last (fst found))" by (simp_all add: next_cursor_def)
      show "covered (cu_cutoff ?cu) (w_store w3)" using s3(2) cu(1) by simp
      show "checked_request dg owner ?q = Inr f"
        by (rule checked_next [OF assms(5,3,4)]) (use rest in simp_all)
      have "filter (\<lambda>x. snd x < snd (last (fst found))) L = drop ?lim L"
        using rest by (elim conjE)
      then show "filter (\<lambda>x. snd x < cu_after ?cu) (shown owner ?archived f (cu_cutoff ?cu) None
          (w_store w3)) = drop ?lim L"
        unfolding cu by (simp only: s3(1))
      have "length L \<le> length (st_cases s1)" unfolding L_def by (rule shown_length)
      with assms(8) n have "length L \<le> m" by (simp add: s1_def)
      moreover have "?lim < length L" using more page(2) by simp
      ultimately show "length (drop ?lim L) < m" using lim by simp
    qed
    with page(1,2) have "fst (run_state (walk_catalog n dg owner q) w) = map fst L"
      unfolding run by (simp add: map_append [symmetric] del: map_append)
    then show ?thesis using shown_fresh [OF ok1 Some] by (simp add: L_def s1_def)
  qed
qed

end
