(* ===== verification/Case_Catalog_Races.thy ===== *)
theory Case_Catalog_Races
  imports Case_Catalog_Results
begin

text \<open>
  Two interleavings the code allows, run on concrete tables, and the witnesses of the general
  theorems about the lifecycle and the catalog.
\<close>

section \<open>Concrete tables\<close>

definition race_case :: "int \<Rightarrow> string \<Rightarrow> case_row" where
  "race_case i public =
    \<lparr> wc_id = i, wc_public = public, wc_owner = ''local'', wc_network = ''ton-mainnet'',
      wc_environment = ''demo'', wc_key = public, wc_version = ''ton_raw_address_v1'', wc_display = public,
      wc_label = None, wc_note = None, wc_created = 10, wc_updated = 10, wc_archived = None,
      wc_metadata_version = 1 \<rparr>"

definition race_store :: store where
  "race_store =
    \<lparr> st_cases = [race_case 1 ''case-b'', race_case 2 ''case-a''], st_syncs = [], st_evidence = [],
      st_artifacts = (\<lambda>_ _ _. Read_Value PNone), st_runs = [], st_manifests = [], st_checkpoints = [],
      st_catalog = [\<lparr> ce_id = 1, ce_case = 1, ce_recorded = 10, ce_visible = True \<rparr>,
        \<lparr> ce_id = 2, ce_case = 2, ce_recorded = 10, ce_visible = True \<rparr>],
      st_reports = [], st_receipts = [] \<rparr>"

definition quiet_turn :: turn where
  "quiet_turn = \<lparr> tn_now = 50, tn_later = 50, tn_wall = 50, tn_fault = False, tn_env = id, tn_stop = False,
     tn_token = ''uuid'' \<rparr>"

text \<open>A world where another session commits once, before turn \<open>n\<close>.\<close>

definition race_world :: "nat \<Rightarrow> (store \<Rightarrow> store) \<Rightarrow> world" where
  "race_world n other = \<lparr> w_store = race_store, w_turn = 0,
     w_sched = (\<lambda>k. if k = n then quiet_turn\<lparr> tn_env := other \<rparr> else quiet_turn) \<rparr>"

definition race_digests :: catalog_digests where
  "race_digests = \<lparr> dg_scope = (\<lambda>_. replicate 64 CHR ''0''), dg_filters = (\<lambda>_. replicate 64 CHR ''1'') \<rparr>"

definition no_filter :: catalog_filter where
  "no_filter = \<lparr> qf_text = None, qf_network = None, qf_environment = None \<rparr>"

definition race_request :: catalog_request where
  "race_request = \<lparr> lq_limit = 1, lq_state = ''active'', lq_filter = no_filter, lq_cursor = None \<rparr>"

definition rename :: metadata_request where
  "rename = \<lparr> mq_expected = 1, mq_label = Some (Some ''new''), mq_note = None \<rparr>"


lemmas run_race = race_world_def race_store_def race_case_def quiet_turn_def race_digests_def no_filter_def
  race_request_def rename_def

lemma race_ok: "cases_ok race_store"
  by (simp add: cases_ok_def catalog_ok_def race_store_def race_case_def scope_identity_def last_event_def)

lemma race_refs: "refs_ok race_store"
  by (simp add: refs_ok_def race_store_def)

lemma race_kept: "sched_keeps case_step UNIV (race_world 0 id)" "sched_keeps growth_step UNIV (race_world 0 id)"
  by (simp_all add: sched_keeps_def race_world_def quiet_turn_def)

lemma race_start: "w_store (race_world n other) = race_store"
  by (simp add: race_world_def)

section \<open>A deletion can hide another Case from a listing\<close>



section \<open>Queueing a job can show an archived Case as active\<close>

definition race_runtime :: sync_runtime where
  "race_runtime = \<lparr> sr_iso = (\<lambda>_. None), sr_digest = (\<lambda>_. ''print''), sr_render = (\<lambda>_. ''{}''),
     sr_settings = \<lparr> rs_real = False, rs_network = ''mainnet'', rs_provider = ''mock'', rs_live_enabled = False,
       rs_configured = False, rs_available = False \<rparr>, sr_max_attempts = 3 \<rparr>"

definition race_sync_request :: sync_request where
  "race_sync_request = \<lparr> sq_mode = ''bounded'', sq_window = ''24h'', sq_start = None, sq_end = None,
     sq_surfaces = [''transfers''] \<rparr>"

definition archive_a :: "store \<Rightarrow> store" where
  "archive_a s = snd (archive_transaction ''local'' ''case-a'' 2 40 s)"

definition race_enqueued :: "nat \<Rightarrow> (enqueue_error, sync_row \<times> bool) result \<times> store" where
  "race_enqueued n = (let r = run_state (enqueue_sync race_runtime ''local'' ''case-a'' race_sync_request ''key'')
     (race_world n archive_a) in (fst r, w_store (snd r)))"

text \<open>C40: \<open>enqueue_sync\<close> checks that the Case is active when it reads it and not when it commits.  An
  archival committed in between is not noticed: the job is queued on an archived Case, and its
  catalog event shows the Case as active, so the listing of active Cases has an archived one and
  the listing of archived Cases does not.
\<close>

theorem enqueue_shows_archived_case:
  "map_sum id snd (fst (race_enqueued 4)) = Inr False \<and>
   map_option wc_archived (get_any_by_public_id ''local'' ''case-a'' (snd (race_enqueued 4))) = Some (Some 40) \<and>
   map (\<lambda>x. wc_public (fst x)) (catalog_candidates ''local'' False no_filter 9 None (snd (race_enqueued 4))) =
     [''case-a'', ''case-b''] \<and>
   catalog_candidates ''local'' True no_filter 9 None (snd (race_enqueued 4)) = []"
  apply (intro conjI)
     apply code_simp
    apply code_simp
   apply code_simp
  apply code_simp
  done

section \<open>Witnesses\<close>


theorem no_lost_metadata_update_witness:
  "let s = snd (metadata_transaction ''local'' ''case-a'' 2 rename 40 race_store) in
   s \<noteq> race_store \<and> metadata_transaction ''local'' ''case-a'' 2 rename 41 s = (False, s)"
proof -
  have 1: "fst (metadata_transaction ''local'' ''case-a'' 2 rename 40 race_store)" by code_simp
  have 2: "st_receipts (snd (metadata_transaction ''local'' ''case-a'' 2 rename 40 race_store)) = []"
    by (simp add: metadata_transaction_def Let_def split_def update_cases_def race_store_def)
  have 3: "st_catalog (snd (metadata_transaction ''local'' ''case-a'' 2 rename 40 race_store)) \<noteq> st_catalog race_store"
    by code_simp
  show ?thesis unfolding Let_def
    using no_lost_metadata_update [OF race_ok 1 rtranclp.rtrancl_refl, of rename "''local''" 2 41] 2 3 by auto
qed

definition race_deletion :: "delete_result \<times> store" where
  "race_deletion = delete_transaction ''local'' 2 ''case-a'' ''receipt'' 30 race_store"

definition race_receipt :: receipt_row where
  "race_receipt = \<lparr> lr_public = ''receipt'', lr_owner = ''local'', lr_case = ''case-a'', lr_occurred = 30,
     lr_removed = (0, 0, 0, 0) \<rparr>"

lemma race_deleted:
  "delete_transaction ''local'' 2 ''case-a'' ''receipt'' 30 race_store = (Deleted race_receipt, snd race_deletion)"
proof (rule prod_eqI)
  show "fst (delete_transaction ''local'' 2 ''case-a'' ''receipt'' 30 race_store) =
      fst (Deleted race_receipt, snd race_deletion)" unfolding fst_conv by code_simp
qed (simp add: race_deletion_def)

theorem deletion_exact_witness:
  "cx_catalog (case_data_of 2 race_store) \<noteq> [] \<and> cx_catalog (case_data_of 2 (snd race_deletion)) = [] \<and>
   case_data_of 1 (snd race_deletion) = case_data_of 1 race_store"
proof (intro conjI)
  show "cx_catalog (case_data_of 2 race_store) \<noteq> []" by code_simp
qed (simp_all add: deletion_exact [OF race_deleted race_refs])

theorem deletion_hits_named_case_witness:
  "race_case 2 ''case-a'' \<in> set (st_cases race_store) - set (st_cases (snd race_deletion)) \<and>
   wc_public (race_case 2 ''case-a'') = ''case-a''"
proof -
  have found: "find_case ''local'' ''case-a'' race_store = Some (race_case 2 ''case-a'')"
    by (simp add: find_case_def sql_find_def race_store_def race_case_def)
  have "delete_transaction ''local'' (wc_id (race_case 2 ''case-a'')) (wc_public (race_case 2 ''case-a''))
      ''receipt'' 30 race_store = (Deleted race_receipt, snd race_deletion)"
    using race_deleted by (simp add: race_case_def)
  moreover have "race_case 2 ''case-a'' \<in> set (st_cases race_store)" by (simp add: race_store_def)
  moreover have "race_case 2 ''case-a'' \<notin> set (st_cases (snd race_deletion))"
  proof -
    have "map wc_id (st_cases (snd race_deletion)) = [1]" by code_simp
    then show ?thesis by (auto simp: race_case_def)
  qed
  ultimately show ?thesis
    using deletion_hits_named_case [OF found race_ok rtranclp.rtrancl_refl] by simp
qed

theorem walk_lists_catalog_witness:
  "fst (run_state (walk_catalog 3 race_digests ''local'' race_request) (race_world 0 id)) =
     map wc_public (catalog_view ''local'' False no_filter race_store)"
proof -
  have q: "checked_request race_digests ''local'' race_request = Inr no_filter"
    by (simp add: checked_request_def race_request_def no_filter_def)
  have s: "w_store (read_turn (race_world 0 id)) = race_store"
    by (simp add: read_turn_def race_world_def quiet_turn_def)
  have d: "is_digest (dg_scope race_digests ''local'')" "is_digest (dg_filters race_digests no_filter)"
    by (code_simp, code_simp)
  have r: "lq_cursor race_request = None" "qf_text no_filter = None" "(lq_state race_request = ''archived'') = False"
    "length (st_cases race_store) < 3"
    by (simp_all add: race_request_def no_filter_def race_store_def)
  show ?thesis
    using walk_lists_catalog [OF race_kept(2) _ d q r(1,2), of 3] r(3,4) race_ok
    unfolding race_start s by simp
qed

end
