(* ===== verification/Provider_Pages.thy ===== *)
theory Provider_Pages
  imports Prelude
begin

text \<open>
  The page operations of \<open>backend/adapters/tonapi.py\<close>: what the adapter makes of one response of
  the account-transactions and of the account-events endpoint.

  Arguments: \<open>fetch\<close> is \<open>fetch_json\<close> for the account at hand, so it gets the query only; \<open>repr\<close> is
  \<open>str\<close> of values that are neither text, numbers nor \<open>None\<close>.  A failure keeps its code and drops
  its message, which is text for people.
\<close>

section \<open>Responses\<close>

datatype fetched = Fetch_Failed string | Fetched pyval

datatype provider_result = Provider_Failed string | Provider_Ok pyval

definition error_provider :: string where "error_provider = ''provider_error''"
definition error_protocol :: string where "error_protocol = ''provider_protocol_error''"

definition protocol_failure :: "('e, pyval) result \<Rightarrow> provider_result" where
  "protocol_failure r = (case r of Inl _ \<Rightarrow> Provider_Failed error_protocol | Inr v \<Rightarrow> Provider_Ok v)"

text \<open>The \<open>ValueError\<close>s a response is rejected with.\<close>

datatype shape_fault =
    Response_Not_Object | Rows_Not_List | Row_Not_Object nat | Hash_Not_Canonical
  | Logical_Time_Invalid | Fees_Invalid | Number_Too_Long | Too_Many_Rows | Rows_Not_Descending
  | Rows_Not_Below_Cursor | Next_Missing | Event_Id_Invalid nat | Event_Id_Reused nat
  | Event_Time_Invalid nat | Event_Actions_Invalid nat | Event_Progress_Invalid nat
  | Next_Invalid | Times_Unordered | Next_Not_Minimum | Next_Not_Terminal

section \<open>Fields\<close>

definition max_lt :: int where "max_lt = 2 ^ 64 - 1"
definition max_event_date :: int where "max_event_date = 2114380800"

text \<open>A canonical decimal of 1 through 20 digits that starts with no zero.\<close>

definition lt_text :: "string \<Rightarrow> bool" where
  "lt_text s \<longleftrightarrow> s \<noteq> [] \<and> length s \<le> 20 \<and> list_all is_digit s \<and> hd s \<noteq> CHR ''0''"

definition strict_lt :: "pyval \<Rightarrow> string option" where
  "strict_lt v =
    (case v of
       PInt i \<Rightarrow> if \<not> (1 \<le> i \<and> i \<le> max_lt) then None else Some (show_int i)
     | PStr s \<Rightarrow> if \<not> lt_text s then None else if int (read_nat s) > max_lt then None else Some s
     | _ \<Rightarrow> None)"

definition strict_nonnegative :: "pyval \<Rightarrow> string option" where
  "strict_nonnegative v =
    (case v of
       PInt i \<Rightarrow> if 0 \<le> i \<and> i \<le> max_lt then Some (show_int i) else None
     | PStr s \<Rightarrow>
         if s = ''0'' then Some s
         else if \<not> lt_text s then None
         else if int (read_nat s) > max_lt then None else Some s
     | _ \<Rightarrow> None)"

text \<open>\<open>int(value, 10)\<close> of ASCII digits: text beyond the limit of the runtime raises.\<close>

definition digits_int :: "string \<Rightarrow> (shape_fault, int) result" where
  "digits_int s = ensure (length s \<le> max_str_digits) Number_Too_Long (Inr (int (read_nat s)))"

definition plain_digits :: "string \<Rightarrow> bool" where
  "plain_digits s \<longleftrightarrow> s = ''0'' \<or> s \<noteq> [] \<and> list_all is_digit s \<and> hd s \<noteq> CHR ''0''"

definition optional_int :: "pyval \<Rightarrow> (shape_fault, int option) result" where
  "optional_int v =
    (case v of
       PInt i \<Rightarrow> Inr (Some i)
     | PStr s \<Rightarrow> if plain_digits s then bind_result (digits_int s) (\<lambda>i. Inr (Some i)) else Inr None
     | _ \<Rightarrow> Inr None)"

definition strict_event_date :: "pyval \<Rightarrow> (shape_fault, int option) result" where
  "strict_event_date v =
    bind_result (optional_int v) (\<lambda>i. Inr (case i of
      None \<Rightarrow> None | Some n \<Rightarrow> if 0 \<le> n \<and> n \<le> max_event_date then Some n else None))"

definition py_text :: "(pyval \<Rightarrow> string) \<Rightarrow> pyval \<Rightarrow> string" where
  "py_text repr v =
    (case v of PStr s \<Rightarrow> s | PInt i \<Rightarrow> show_int i | PBool True \<Rightarrow> ''True'' | PBool False \<Rightarrow> ''False''
     | _ \<Rightarrow> repr v)"

definition optional_string :: "(pyval \<Rightarrow> string) \<Rightarrow> pyval \<Rightarrow> string option" where
  "optional_string repr v =
    (if v = PNone then None else let s = strip (py_text repr v) in if s = [] then None else Some s)"

definition hash_text :: "string \<Rightarrow> bool" where
  "hash_text s \<longleftrightarrow> s = strip s \<and> length s = 64 \<and> list_all is_hex s"

text \<open>\<open>str.lower\<close> on the Latin-1 range.\<close>

definition lower_char :: "char \<Rightarrow> char" where
  "lower_char c =
    (let n = of_char c :: nat in
     if (65 \<le> n \<and> n \<le> 90) \<or> (192 \<le> n \<and> n \<le> 222 \<and> n \<noteq> 215) then char_of (n + 32) else c)"

definition py_lower :: "string \<Rightarrow> string" where "py_lower = map lower_char"

text \<open>A row as a dict; every other value is rejected with its index.\<close>

definition as_dict :: "'e \<Rightarrow> pyval \<Rightarrow> ('e, py_dict) result" where
  "as_dict e v = (case v of PDict d \<Rightarrow> Inr d | _ \<Rightarrow> Inl e)"

fun each_row :: "(nat \<Rightarrow> pyval \<Rightarrow> ('e, 'a) result) \<Rightarrow> nat \<Rightarrow> pyval list \<Rightarrow> ('e, 'a list) result" where
  "each_row f i [] = Inr []"
| "each_row f i (v # vs) = bind_result (f i v) (\<lambda>a. bind_result (each_row f (Suc i) vs) (\<lambda>as. Inr (a # as)))"

section \<open>Transactions\<close>

definition normalize_transaction ::
  "(pyval \<Rightarrow> string) \<Rightarrow> string \<Rightarrow> py_dict \<Rightarrow> (shape_fault, py_dict) result" where
  "normalize_transaction repr account raw =
    (case dget raw ''hash'' of
       PStr h \<Rightarrow>
         ensure (hash_text h) Hash_Not_Canonical
        (case strict_lt (dget raw ''lt'') of
           None \<Rightarrow> Inl Logical_Time_Invalid
         | Some lt \<Rightarrow>
             let fees = strict_nonnegative (dget raw ''total_fees'') in
             ensure (\<not> (dget raw ''total_fees'' \<noteq> PNone \<and> fees = None)) Fees_Invalid
            (bind_result (optional_int (dget raw ''utime'')) (\<lambda>utime. Inr
              [(''wallet_address'', PStr account), (''tx_hash'', PStr h), (''logical_time'', PStr lt),
               (''utime'', of_int utime), (''total_fees'', of_string fees),
               (''success'', (case dget raw ''success'' of PBool b \<Rightarrow> PBool b | _ \<Rightarrow> PNone)),
               (''transaction_type'', of_string (optional_string repr (dget raw ''transaction_type''))),
               (''orig_status'', of_string (optional_string repr (dget raw ''orig_status''))),
               (''end_status'', of_string (optional_string repr (dget raw ''end_status''))),
               (''source'', PStr ''tonapi'')])))
     | _ \<Rightarrow> Inl Hash_Not_Canonical)"

definition normalize_account_transactions_response ::
  "(pyval \<Rightarrow> string) \<Rightarrow> string \<Rightarrow> pyval \<Rightarrow> (shape_fault, py_dict list) result" where
  "normalize_account_transactions_response repr account payload =
    bind_result (as_dict Response_Not_Object payload) (\<lambda>d.
      case dget d ''transactions'' of
        PList rows \<Rightarrow> each_row (\<lambda>i v. bind_result (as_dict (Row_Not_Object i) v)
          (normalize_transaction repr account)) 0 rows
      | _ \<Rightarrow> Inl Rows_Not_List)"

text \<open>\<open>int(row[k], 10)\<close> of a field that holds text.\<close>

definition lt_of :: "string \<Rightarrow> int" where "lt_of s = int (read_nat s)"

definition low_high :: "int list \<Rightarrow> string option \<times> string option" where
  "low_high ts = (if ts = [] then (None, None) else (Some (show_int (Min (set ts))), Some (show_int (Max (set ts)))))"

definition below_cursor :: "string option \<Rightarrow> int list \<Rightarrow> bool" where
  "below_cursor before ts \<longleftrightarrow>
    (case before of None \<Rightarrow> True | Some c \<Rightarrow> ts \<noteq> [] \<longrightarrow> Max (set ts) < lt_of c)"

definition transaction_page ::
  "string \<Rightarrow> int \<Rightarrow> string option \<Rightarrow> py_dict list \<Rightarrow> pyval" where
  "transaction_page account limit before rows =
    (let (low, high) = low_high (map (\<lambda>d. lt_of (field ''logical_time'' d)) rows) in
     PDict [(''wallet_address'', PStr account), (''requested_limit'', PInt limit),
       (''request_before_lt'', of_string before), (''raw_count'', PInt (int (length rows))),
       (''min_logical_time'', of_string low), (''max_logical_time'', of_string high),
       (''next_before_lt'', of_string low), (''transactions'', PList (map PDict rows))])"

record tonapi =
  ta_mock :: bool
  ta_account :: string
  ta_repr :: "pyval \<Rightarrow> string"

definition checked_before :: "string option \<Rightarrow> (unit, string option) result" where
  "checked_before before =
    (case before of None \<Rightarrow> Inr None
     | Some c \<Rightarrow> (case strict_lt (PStr c) of None \<Rightarrow> Inl () | Some s \<Rightarrow> Inr (Some s)))"

definition get_account_transactions_page ::
  "tonapi \<Rightarrow> (int \<Rightarrow> string option \<Rightarrow> fetched) \<Rightarrow> int \<Rightarrow> string option \<Rightarrow> provider_result" where
  "get_account_transactions_page ta fetch limit before =
    (case optional_string (ta_repr ta) (PStr (ta_account ta)) of
       None \<Rightarrow> Provider_Failed error_provider
     | Some account \<Rightarrow>
         if \<not> (1 \<le> limit \<and> limit \<le> 1000) then Provider_Failed error_provider
         else case checked_before before of
           Inl _ \<Rightarrow> Provider_Failed error_provider
         | Inr cursor \<Rightarrow>
             if ta_mock ta then Provider_Ok (transaction_page account limit cursor [])
             else case fetch limit cursor of
               Fetch_Failed e \<Rightarrow> Provider_Failed e
             | Fetched payload \<Rightarrow> protocol_failure
                 (bind_result (normalize_account_transactions_response (ta_repr ta) account payload) (\<lambda>rows.
                    let times = map (\<lambda>d. lt_of (field ''logical_time'' d)) rows in
                    ensure (\<not> int (length rows) > limit) Too_Many_Rows
                   (ensure (sorted_wrt (>) times) Rows_Not_Descending
                   (ensure (below_cursor cursor times) Rows_Not_Below_Cursor
                   (Inr (transaction_page account limit cursor rows))))))) "

definition get_account_transactions_preview ::
  "tonapi \<Rightarrow> (int \<Rightarrow> string option \<Rightarrow> fetched) \<Rightarrow> int \<Rightarrow> provider_result" where
  "get_account_transactions_preview ta fetch limit =
    (case get_account_transactions_page ta fetch limit None of
       Provider_Failed e \<Rightarrow> Provider_Failed e
     | Provider_Ok v \<Rightarrow>
         let d = (case v of PDict d \<Rightarrow> d | _ \<Rightarrow> []);
             rows = (case dget d ''transactions'' of PList rows \<Rightarrow> rows | _ \<Rightarrow> []);
             preview = take (nat limit) rows in
         Provider_Ok (PDict [(''wallet_address'', dget d ''wallet_address''),
           (''transactions'', PList preview), (''preview_count'', PInt (int (length preview))),
           (''total_transactions'', (if map_of d ''raw_count'' = None then PInt (int (length rows))
             else dget d ''raw_count''))]))"

section \<open>Account events\<close>

definition actions_valid :: "pyval \<Rightarrow> bool" where
  "actions_valid v =
    (case v of
       PList actions \<Rightarrow> list_all (\<lambda>a. case a of
           PDict d \<Rightarrow> (case dget d ''type'' of PStr t \<Rightarrow> strip t \<noteq> [] | _ \<Rightarrow> False)
         | _ \<Rightarrow> False) actions
     | _ \<Rightarrow> False)"

definition is_bool :: "pyval \<Rightarrow> bool" where
  "is_bool v = (case v of PBool _ \<Rightarrow> True | _ \<Rightarrow> False)"

definition normalize_event ::
  "string set \<Rightarrow> nat \<Rightarrow> pyval \<Rightarrow> (shape_fault, string \<times> py_dict) result" where
  "normalize_event seen i v =
    bind_result (as_dict (Row_Not_Object i) v) (\<lambda>d.
      case dget d ''event_id'' of
        PStr h \<Rightarrow>
          ensure (hash_text h) (Event_Id_Invalid i)
         (ensure (py_lower h \<notin> seen) (Event_Id_Reused i)
         (case strict_lt (dget d ''lt'') of
            None \<Rightarrow> Inl Logical_Time_Invalid
          | Some lt \<Rightarrow> bind_result (strict_event_date (dget d ''timestamp'')) (\<lambda>date.
              case date of
                None \<Rightarrow> Inl (Event_Time_Invalid i)
              | Some time \<Rightarrow>
                  ensure (actions_valid (dget d ''actions'')) (Event_Actions_Invalid i)
                 (ensure (is_bool (dget d ''in_progress'')) (Event_Progress_Invalid i)
                 (Inr (py_lower h, dict_set ''timestamp'' (PInt time) (dict_set ''lt'' (PStr lt) d)))))))
      | _ \<Rightarrow> Inl (Event_Id_Invalid i))"

fun normalize_events :: "string set \<Rightarrow> nat \<Rightarrow> pyval list \<Rightarrow> (shape_fault, py_dict list) result" where
  "normalize_events seen i [] = Inr []"
| "normalize_events seen i (v # vs) =
    bind_result (normalize_event seen i v) (\<lambda>(h, d).
      bind_result (normalize_events (insert h seen) (Suc i) vs) (\<lambda>ds. Inr (d # ds)))"

definition terminal_zero :: "pyval \<Rightarrow> bool" where
  "terminal_zero v \<longleftrightarrow> v = PNone \<or> v = PInt 0 \<or> v = PStr ''0''"

definition normalize_account_events_page_response ::
  "pyval \<Rightarrow> (shape_fault, py_dict list \<times> string option) result" where
  "normalize_account_events_page_response payload =
    bind_result (as_dict Response_Not_Object payload) (\<lambda>d.
      case dget d ''events'' of
        PList events \<Rightarrow>
          ensure (map_of d ''next_from'' \<noteq> None) Next_Missing
         (bind_result (normalize_events {} 0 events) (\<lambda>rows.
            if rows = [] \<and> terminal_zero (dget d ''next_from'') then Inr (rows, None)
            else case strict_lt (dget d ''next_from'') of
              None \<Rightarrow> Inl Next_Invalid | Some c \<Rightarrow> Inr (rows, Some c)))
      | _ \<Rightarrow> Inl Rows_Not_List)"

definition event_time :: "py_dict \<Rightarrow> int" where
  "event_time d = (case dget d ''timestamp'' of PInt i \<Rightarrow> i | _ \<Rightarrow> 0)"

definition event_page ::
  "string \<Rightarrow> int \<Rightarrow> string option \<Rightarrow> int option \<Rightarrow> int option \<Rightarrow> py_dict list \<Rightarrow> string option \<Rightarrow> pyval" where
  "event_page account limit before start end' rows next_lt =
    (let (low, high) = low_high (map (\<lambda>d. lt_of (field ''lt'' d)) rows) in
     PDict [(''wallet_address'', PStr account), (''requested_limit'', PInt limit),
       (''request_before_lt'', of_string before), (''request_start_date'', of_int start),
       (''request_end_date'', of_int end'), (''raw_count'', PInt (int (length rows))),
       (''min_logical_time'', of_string low), (''max_logical_time'', of_string high),
       (''next_before_lt'', of_string next_lt), (''events'', PList (map PDict rows))])"

text \<open>A query date: \<open>_strict_event_date\<close> of an integer.\<close>

definition checked_date :: "int option \<Rightarrow> (unit, int option) result" where
  "checked_date d =
    (case d of None \<Rightarrow> Inr None | Some n \<Rightarrow> if 0 \<le> n \<and> n \<le> max_event_date then Inr (Some n) else Inl ())"

definition checked_event_rows ::
  "string \<Rightarrow> int \<Rightarrow> string option \<Rightarrow> int option \<Rightarrow> int option \<Rightarrow> py_dict list \<times> string option \<Rightarrow>
   (shape_fault, pyval) result" where
  "checked_event_rows account limit cursor start end' page =
    (let (rows, next_lt) = page; times = map (\<lambda>d. lt_of (field ''lt'' d)) rows in
     ensure (\<not> int (length rows) > limit) Too_Many_Rows
    (ensure (sorted_wrt (>) times) Rows_Not_Descending
    (ensure (sorted_wrt (\<ge>) (map event_time rows)) Times_Unordered
    (ensure (below_cursor cursor times) Rows_Not_Below_Cursor
    (ensure (\<not> (rows \<noteq> [] \<and> next_lt \<noteq> fst (low_high times))) Next_Not_Minimum
    (ensure (\<not> (rows = [] \<and> next_lt \<noteq> None)) Next_Not_Terminal
    (Inr (event_page account limit cursor start end' rows next_lt))))))))"

definition get_account_events_page ::
  "tonapi \<Rightarrow> (int \<Rightarrow> string option \<Rightarrow> int option \<Rightarrow> int option \<Rightarrow> fetched) \<Rightarrow> int \<Rightarrow> string option \<Rightarrow>
   int option \<Rightarrow> int option \<Rightarrow> provider_result" where
  "get_account_events_page ta fetch limit before start_date end_date =
    (case optional_string (ta_repr ta) (PStr (ta_account ta)) of
       None \<Rightarrow> Provider_Failed error_provider
     | Some account \<Rightarrow>
         if \<not> (1 \<le> limit \<and> limit \<le> 100) then Provider_Failed error_provider
         else case (checked_before before, checked_date start_date, checked_date end_date) of
           (Inr cursor, Inr start, Inr end') \<Rightarrow>
             if (case (start, end') of (Some a, Some b) \<Rightarrow> a > b | _ \<Rightarrow> False)
             then Provider_Failed error_provider
             else if ta_mock ta then Provider_Ok (event_page account limit cursor start end' [] None)
             else (case fetch limit cursor start end' of
               Fetch_Failed e \<Rightarrow> Provider_Failed e
             | Fetched payload \<Rightarrow> protocol_failure
                 (bind_result (normalize_account_events_page_response payload)
                   (checked_event_rows account limit cursor start end')))
         | _ \<Rightarrow> Provider_Failed error_provider)"

end
