(* ===== verification/Transaction_Acquisition.thy ===== *)
theory Transaction_Acquisition
  imports Provider_Pages
begin

text \<open>
  \<open>TonapiWalletActivityLiveAdapter._fetch_transaction_acquisition\<close> of
  \<open>backend/adapters/wallet_activity.py\<close>: the pages of one account's transactions, newest first,
  over a resolved interval, from the start or from a stored cursor.

  Arguments: \<open>net\<close> answers the requests in the order they are made (\<open>net k\<close> is the \<open>k\<close>-th), so a
  response may depend on when it is asked for; \<open>digest\<close> is the SHA-256 of a value's canonical JSON.
  Clock readings of the evidence and messages for people are left out.  Instants are microseconds.
\<close>

section \<open>Requests\<close>

record live_settings =
  lv_tx_limit :: int
  lv_tx_pages :: int
  lv_event_limit :: int
  lv_event_pages :: int

text \<open>The parts of \<open>WalletActivityAdapterRequest\<close> an acquisition reads.\<close>

record acquisition_request =
  aq_start :: "int option"
  aq_end :: "int option"
  aq_resume_key :: "string option"
  aq_resume_cursor :: "string option"
  aq_resume_index :: "int option"
  aq_resume_budget :: "int option"

datatype acquisition_mode = Preview | Ingest

text \<open>The checks of a page; the loop adds the last ones.\<close>

datatype page_fault =
    Page_Not_Object | Limit_Mismatch | Cursor_Mismatch | Page_Rows_Not_List | Count_Mismatch
  | Page_Too_Long | Page_Row_Not_Object nat | Page_Hash_Invalid nat | Page_Fees_Invalid nat
  | Page_Time_Invalid nat | Page_Not_Descending | Page_Timestamp_Invalid nat | Page_Times_Unordered
  | Page_Number_Too_Long | Minimum_Inconsistent | Maximum_Inconsistent | Empty_With_Cursor
  | Response_Cursor_Wrong | Cursor_Stuck | Page_Event_Invalid nat | Page_Actions_Invalid nat
  | Page_Progress_Invalid nat | Duplicate_Changed | Not_Globally_Descending | Times_Not_Global
  | Assertion | Actions_Not_Derivable

datatype request_fault = Bounds_Unpaired | Bounds_Empty | Resume_Without_Key | Resume_Other_Stream
  | Resume_Cursor_Invalid | Resume_Index_Invalid | Resume_Budget_Invalid

definition resolved_transaction_bounds ::
  "acquisition_request \<Rightarrow> (request_fault, (int \<times> int) option) result" where
  "resolved_transaction_bounds q =
    (case (aq_start q, aq_end q) of
       (None, None) \<Rightarrow> Inr None
     | (Some a, Some b) \<Rightarrow> if a \<ge> b then Inl Bounds_Empty else Inr (Some (a, b))
     | _ \<Rightarrow> Inl Bounds_Unpaired)"

text \<open>\<open>_strict_logical_time\<close> of this module reads text only.\<close>

definition strict_logical_time :: "pyval \<Rightarrow> string option" where
  "strict_logical_time v =
    (case v of PStr s \<Rightarrow> if \<not> lt_text s then None else if lt_of s > max_lt then None else Some s
     | _ \<Rightarrow> None)"

definition resume_position ::
  "acquisition_request \<Rightarrow> string \<Rightarrow> (request_fault, string option \<times> int) result" where
  "resume_position q stream_key =
    (case aq_resume_key q of
       None \<Rightarrow> ensure (aq_resume_cursor q = None \<and> aq_resume_index q = None \<and> aq_resume_budget q = None)
         Resume_Without_Key (Inr (None, 1))
     | Some key \<Rightarrow>
         ensure (key = stream_key) Resume_Other_Stream
        (case strict_logical_time (of_string (aq_resume_cursor q)) of
           None \<Rightarrow> Inl Resume_Cursor_Invalid
         | Some cursor \<Rightarrow> (case aq_resume_index q of
             None \<Rightarrow> Inl Resume_Index_Invalid
           | Some i \<Rightarrow>
               ensure (\<not> i < 1) Resume_Index_Invalid
              (ensure (case aq_resume_budget q of None \<Rightarrow> True | Some n \<Rightarrow> 1 \<le> n \<and> n \<le> 10) Resume_Budget_Invalid
              (Inr (Some cursor, i))))))"

definition effective_resume_page_cap :: "acquisition_request \<Rightarrow> int \<Rightarrow> int" where
  "effective_resume_page_cap q cap =
    (case (aq_resume_key q, aq_resume_budget q) of
       (Some _, Some n) \<Rightarrow> min cap n | _ \<Rightarrow> cap)"

section \<open>Page validation\<close>

definition canonical_uint_string :: "pyval \<Rightarrow> bool" where
  "canonical_uint_string v =
    (case v of PStr s \<Rightarrow> s = ''0'' \<or> lt_text s \<and> lt_of s \<le> max_lt | _ \<Rightarrow> False)"

text \<open>The last second of the year 9999, the greatest \<open>datetime\<close> reads.\<close>

definition max_datetime :: int where "max_datetime = 253402300799"

definition instant_of :: "int \<Rightarrow> int option" where
  "instant_of seconds = (if seconds < 0 \<or> seconds > max_datetime then None else Some (seconds * 1000000))"

definition transaction_timestamp :: "pyval \<Rightarrow> (page_fault, int option) result" where
  "transaction_timestamp v =
    (case v of
       PInt i \<Rightarrow> Inr (instant_of i)
     | PStr s \<Rightarrow>
         if s \<noteq> [] \<and> list_all is_digit s
         then ensure (length s \<le> max_str_digits) Page_Number_Too_Long (Inr (instant_of (int (read_nat s))))
         else Inr None
     | _ \<Rightarrow> Inr None)"

text \<open>\<open>a\<close> is known and later than \<open>b\<close>, which is known too.\<close>

definition known_later :: "int option \<Rightarrow> int option \<Rightarrow> bool" where
  "known_later a b = (case (a, b) of (Some x, Some y) \<Rightarrow> x > y | _ \<Rightarrow> False)"

definition latest_known :: "int option \<Rightarrow> int option \<Rightarrow> int option" where
  "latest_known new old = (if new = None then old else new)"

definition not_below :: "int \<Rightarrow> int option \<Rightarrow> bool" where
  "not_below v prior = (case prior of None \<Rightarrow> False | Some p \<Rightarrow> v \<ge> p)"

definition plain_text :: "pyval \<Rightarrow> bool" where
  "plain_text v = (case v of PStr s \<Rightarrow> s \<noteq> [] \<and> s = strip s | _ \<Rightarrow> False)"

fun check_transaction_rows ::
  "bool \<Rightarrow> nat \<Rightarrow> int option \<Rightarrow> int option \<Rightarrow> pyval list \<Rightarrow>
   (page_fault, (py_dict \<times> int option) list) result" where
  "check_transaction_rows timed i prior_lt prior_time [] = Inr []"
| "check_transaction_rows timed i prior_lt prior_time (v # vs) =
    bind_result (as_dict (Page_Row_Not_Object i) v) (\<lambda>row.
      ensure (plain_text (dget row ''tx_hash'')) (Page_Hash_Invalid i)
     (ensure (dget row ''total_fees'' = PNone \<or> canonical_uint_string (dget row ''total_fees'')) (Page_Fees_Invalid i)
     (case strict_logical_time (dget row ''logical_time'') of
        None \<Rightarrow> Inl (Page_Time_Invalid i)
      | Some lt \<Rightarrow>
          ensure (\<not> not_below (lt_of lt) prior_lt) Page_Not_Descending
         (bind_result (transaction_timestamp (dget row ''utime'')) (\<lambda>time.
            ensure (\<not> (timed \<and> time = None)) (Page_Timestamp_Invalid i)
           (ensure (\<not> (timed \<and> known_later time prior_time)) Page_Times_Unordered
           (bind_result (check_transaction_rows timed (Suc i) (Some (lt_of lt)) (latest_known time prior_time) vs)
             (\<lambda>rows. Inr ((row, time) # rows)))))))))"

record checked_page =
  cp_rows :: "(py_dict \<times> int option) list"
  cp_raw :: int
  cp_cursor :: "string option"
  cp_min :: "string option"
  cp_max :: "string option"
  cp_earliest :: "int option"
  cp_latest :: "int option"
  cp_digest :: string

definition known_times :: "(py_dict \<times> int option) list \<Rightarrow> int list" where
  "known_times rows = List.map_filter snd rows"

definition page_of_rows ::
  "(pyval \<Rightarrow> string) \<Rightarrow> pyval \<Rightarrow> string option \<Rightarrow> string option \<Rightarrow> string option \<Rightarrow>
   (py_dict \<times> int option) list \<Rightarrow> checked_page" where
  "page_of_rows digest v cursor low high rows =
    (let times = known_times rows in
     \<lparr> cp_rows = rows, cp_raw = int (length rows), cp_cursor = cursor, cp_min = low, cp_max = high,
       cp_earliest = (if times = [] then None else Some (Min (set times))),
       cp_latest = (if times = [] then None else Some (Max (set times))), cp_digest = digest v \<rparr>)"

definition validate_transaction_page ::
  "(pyval \<Rightarrow> string) \<Rightarrow> pyval \<Rightarrow> string option \<Rightarrow> int \<Rightarrow> bool \<Rightarrow> (page_fault, checked_page) result" where
  "validate_transaction_page digest v request_cursor limit timed =
    bind_result (as_dict Page_Not_Object v) (\<lambda>page.
      ensure (py_eq (dget page ''requested_limit'') (PInt limit)) Limit_Mismatch
     (ensure (py_eq (dget page ''request_before_lt'') (of_string request_cursor)) Cursor_Mismatch
     (case dget page ''transactions'' of
        PList rows \<Rightarrow>
          ensure (\<not> is_bool (dget page ''raw_count'') \<and> py_eq (dget page ''raw_count'') (PInt (int (length rows))))
            Count_Mismatch
         (ensure (\<not> int (length rows) > limit) Page_Too_Long
         (bind_result (check_transaction_rows timed 0 None None rows) (\<lambda>checked.
            let (low, high) = low_high (map (\<lambda>r. lt_of (field ''logical_time'' (fst r))) checked);
                response = dget page ''next_before_lt'';
                result = page_of_rows digest v in
            ensure (py_eq (dget page ''min_logical_time'') (of_string low)) Minimum_Inconsistent
           (ensure (py_eq (dget page ''max_logical_time'') (of_string high)) Maximum_Inconsistent
           (if checked = []
            then ensure (response = PNone) Empty_With_Cursor (Inr (result None low high checked))
            else ensure (strict_logical_time response = low) Response_Cursor_Wrong
              (ensure (\<not> (case request_cursor of None \<Rightarrow> False
                  | Some c \<Rightarrow> lt_of (the low) \<ge> lt_of c)) Cursor_Stuck
              (Inr (result low low high checked))))))))
      | _ \<Rightarrow> Inl Page_Rows_Not_List)))"

text \<open>The page the preview of \<open>get_account_transactions_preview\<close> is turned into.\<close>

definition legacy_transaction_page_data :: "pyval \<Rightarrow> int \<Rightarrow> pyval" where
  "legacy_transaction_page_data v page_size =
    (case v of
       PDict d \<Rightarrow> (case dget d ''transactions'' of
         PList rows \<Rightarrow>
           let times = map (\<lambda>r. case r of PDict row \<Rightarrow> strict_logical_time (dget row ''logical_time'') | _ \<Rightarrow> None) rows;
               valid = List.map_filter id times;
               (low, high) = (if length valid = length rows \<and> rows \<noteq> [] then low_high (map lt_of valid)
                 else (None, None)) in
           PDict [(''wallet_address'', dget d ''wallet_address''), (''requested_limit'', PInt page_size),
             (''request_before_lt'', PNone), (''raw_count'', PInt (int (length rows))),
             (''min_logical_time'', of_string low), (''max_logical_time'', of_string high),
             (''next_before_lt'', of_string low), (''transactions'', PList rows)]
       | _ \<Rightarrow> v)
     | _ \<Rightarrow> v)"

section \<open>Evidence\<close>

record page_evidence =
  pe_index :: int
  pe_request :: "string option"
  pe_response :: "string option"
  pe_limit :: int
  pe_raw :: int
  pe_normalized :: int
  pe_duplicates :: int
  pe_min :: "string option"
  pe_max :: "string option"
  pe_earliest :: "int option"
  pe_latest :: "int option"
  pe_digest :: string
  pe_error :: "string option"

text \<open>\<open>_transaction_error_page_evidence\<close>; a failed request has no data.\<close>

definition error_page_evidence ::
  "(pyval \<Rightarrow> string) \<Rightarrow> int \<Rightarrow> string option \<Rightarrow> int \<Rightarrow> pyval \<Rightarrow> string \<Rightarrow> page_evidence" where
  "error_page_evidence digest index cursor limit response code =
    (let d = (case response of PDict d \<Rightarrow> d | _ \<Rightarrow> []) in
     \<lparr> pe_index = index, pe_request = cursor, pe_response = as_str (dget d ''next_before_lt''),
       pe_limit = limit, pe_raw = (case dget d ''raw_count'' of PInt n \<Rightarrow> max 0 n | _ \<Rightarrow> 0),
       pe_normalized = 0, pe_duplicates = 0, pe_min = as_str (dget d ''min_logical_time''),
       pe_max = as_str (dget d ''max_logical_time''), pe_earliest = None, pe_latest = None,
       pe_digest = digest response, pe_error = Some code \<rparr>)"

definition checked_page_evidence ::
  "int \<Rightarrow> string option \<Rightarrow> int \<Rightarrow> checked_page \<Rightarrow> nat \<Rightarrow> nat \<Rightarrow> page_evidence" where
  "checked_page_evidence index cursor limit p accepted duplicates =
    \<lparr> pe_index = index, pe_request = cursor, pe_response = cp_cursor p, pe_limit = limit,
      pe_raw = cp_raw p, pe_normalized = int accepted, pe_duplicates = int duplicates,
      pe_min = cp_min p, pe_max = cp_max p, pe_earliest = cp_earliest p, pe_latest = cp_latest p,
      pe_digest = cp_digest p, pe_error = None \<rparr>"

record stream_evidence =
  se_key :: string
  se_contract :: string
  se_scope :: string
  se_bounds :: "(int \<times> int) option"
  se_page_size :: int
  se_page_cap :: int
  se_completion :: string
  se_reason :: string
  se_raw :: int
  se_normalized :: int
  se_duplicates :: int
  se_first_cursor :: "string option"
  se_terminal_cursor :: "string option"
  se_verified :: bool
  se_error :: "string option"
  se_pages :: "page_evidence list"

definition se_page_count :: "stream_evidence \<Rightarrow> int" where
  "se_page_count s = int (length (se_pages s))"

section \<open>One page\<close>

record tx_scan =
  sc_seen :: "((string \<times> string) \<times> int option) list"
  sc_lt :: "int option"
  sc_time :: "int option"
  sc_duplicates :: nat
  sc_accepted :: "py_dict list"
  sc_crossed :: bool

definition accept_row :: "py_dict \<Rightarrow> tx_scan \<Rightarrow> tx_scan" where
  "accept_row row s = s\<lparr> sc_accepted := sc_accepted s @ [row] \<rparr>"

definition scan_row ::
  "(int \<times> int) option \<Rightarrow> py_dict \<times> int option \<Rightarrow> tx_scan \<Rightarrow> (page_fault, tx_scan) result" where
  "scan_row bounds = (\<lambda>(row, time) s.
    let lt = field ''logical_time'' row; identity = (lt, py_lower (field ''tx_hash'' row)) in
    case map_of (sc_seen s) identity of
      Some prior \<Rightarrow> ensure (\<not> (bounds \<noteq> None \<and> prior \<noteq> time)) Duplicate_Changed
        (Inr (s\<lparr> sc_duplicates := sc_duplicates s + 1 \<rparr>))
    | None \<Rightarrow>
        ensure (\<not> not_below (lt_of lt) (sc_lt s)) Not_Globally_Descending
       (ensure (\<not> (bounds \<noteq> None \<and> known_later time (sc_time s))) Times_Not_Global
       (let s' = s\<lparr> sc_seen := (identity, time) # sc_seen s, sc_lt := Some (lt_of lt),
                    sc_time := latest_known time (sc_time s) \<rparr> in
        case bounds of
          None \<Rightarrow> Inr (accept_row row s')
        | Some (start, end') \<Rightarrow> (case time of
            None \<Rightarrow> Inl Assertion
          | Some t \<Rightarrow> Inr (if t < start then s'\<lparr> sc_crossed := True \<rparr>
              else if t \<ge> end' then s' else accept_row row s')))))"

fun scan_rows ::
  "(int \<times> int) option \<Rightarrow> (py_dict \<times> int option) list \<Rightarrow> tx_scan \<Rightarrow> (page_fault, tx_scan) result" where
  "scan_rows bounds [] s = Inr s"
| "scan_rows bounds (r # rs) s = bind_result (scan_row bounds r s) (scan_rows bounds rs)"

section \<open>The loop\<close>

text \<open>What survives from page to page, and how the loop ends.\<close>

record tx_state =
  tx_pages :: "page_evidence list"
  tx_accepted :: "py_dict list"
  tx_seen :: "((string \<times> string) \<times> int option) list"
  tx_lt :: "int option"
  tx_time :: "int option"
  tx_raw :: int
  tx_duplicates :: nat
  tx_cursor :: "string option"

record loop_end =
  le_completion :: string
  le_reason :: string
  le_error :: "string option"
  le_fatal :: bool

definition finished :: "string \<Rightarrow> string \<Rightarrow> loop_end" where
  "finished completion reason =
    \<lparr> le_completion = completion, le_reason = reason, le_error = None, le_fatal = False \<rparr>"

definition failed_loop :: "bool \<Rightarrow> string \<Rightarrow> string \<Rightarrow> loop_end" where
  "failed_loop fatal reason code =
    \<lparr> le_completion = (if fatal then ''error'' else ''incomplete''), le_reason = reason,
      le_error = Some code, le_fatal = fatal \<rparr>"

record tx_env =
  xe_tonapi :: tonapi
  xe_net :: "nat \<Rightarrow> int \<Rightarrow> string option \<Rightarrow> fetched"
  xe_digest :: "pyval \<Rightarrow> string"
  xe_mode :: acquisition_mode
  xe_bounds :: "(int \<times> int) option"
  xe_page_size :: int
  xe_first :: int

text \<open>The \<open>k\<close>-th request, and the data its rows are read from.\<close>

definition tx_request :: "tx_env \<Rightarrow> nat \<Rightarrow> string option \<Rightarrow> provider_result" where
  "tx_request e k cursor =
    (if xe_bounds e \<noteq> None
     then get_account_transactions_page (xe_tonapi e) (xe_net e k) (xe_page_size e) cursor
     else get_account_transactions_preview (xe_tonapi e) (xe_net e k) (xe_page_size e))"

definition tx_data :: "tx_env \<Rightarrow> pyval \<Rightarrow> pyval" where
  "tx_data e v = (if xe_bounds e \<noteq> None then v else legacy_transaction_page_data v (xe_page_size e))"

definition tx_page ::
  "tx_env \<Rightarrow> pyval \<Rightarrow> tx_state \<Rightarrow> (page_fault, checked_page \<times> tx_scan) result" where
  "tx_page e v s =
    bind_result (validate_transaction_page (xe_digest e) v (tx_cursor s) (xe_page_size e) (xe_bounds e \<noteq> None))
      (\<lambda>p. bind_result (scan_rows (xe_bounds e) (cp_rows p)
          \<lparr> sc_seen = tx_seen s, sc_lt = tx_lt s, sc_time = tx_time s, sc_duplicates = 0,
            sc_accepted = [], sc_crossed = False \<rparr>)
        (\<lambda>c. Inr (p, c)))"

definition tx_error_page :: "tx_env \<Rightarrow> nat \<Rightarrow> pyval \<Rightarrow> string \<Rightarrow> tx_state \<Rightarrow> tx_state" where
  "tx_error_page e k v code s =
    s\<lparr> tx_pages := tx_pages s @ [error_page_evidence (xe_digest e) (xe_first e + int k) (tx_cursor s)
        (xe_page_size e) v code] \<rparr>"

definition tx_extend :: "tx_env \<Rightarrow> nat \<Rightarrow> checked_page \<Rightarrow> tx_scan \<Rightarrow> tx_state \<Rightarrow> tx_state" where
  "tx_extend e k p c s =
    s\<lparr> tx_pages := tx_pages s @ [checked_page_evidence (xe_first e + int k) (tx_cursor s) (xe_page_size e) p
          (length (sc_accepted c)) (sc_duplicates c)],
       tx_raw := tx_raw s + cp_raw p, tx_duplicates := tx_duplicates s + sc_duplicates c,
       tx_seen := sc_seen c, tx_lt := sc_lt c, tx_time := sc_time c,
       tx_accepted := tx_accepted s @ sc_accepted c \<rparr>"

text \<open>After an accepted page: where the cursor goes, and whether the loop is over.\<close>

definition tx_decide :: "tx_env \<Rightarrow> checked_page \<Rightarrow> tx_scan \<Rightarrow> string option \<times> loop_end option" where
  "tx_decide e p c =
    (if xe_mode e = Preview then (cp_cursor p, Some (finished ''preview_only'' ''preview_page_limit''))
     else if xe_bounds e = None then (cp_cursor p, Some (finished ''incomplete'' ''legacy_unavailable''))
     else if cp_raw p = 0 then (None, Some (finished ''complete'' ''provider_terminal''))
     else if sc_crossed c then (cp_cursor p, Some (finished ''complete'' ''requested_start_crossed''))
     else (cp_cursor p, None))"

fun tx_loop :: "tx_env \<Rightarrow> nat \<Rightarrow> nat \<Rightarrow> tx_state \<Rightarrow> loop_end \<times> tx_state" where
  "tx_loop e 0 k s = (finished ''incomplete'' ''page_cap_reached'', s)"
| "tx_loop e (Suc n) k s =
    (case tx_request e k (tx_cursor s) of
       Provider_Failed code \<Rightarrow>
         let protocol = (code = error_protocol); code' = (if protocol then ''protocol_error'' else code) in
         (failed_loop (tx_accepted s = []) (if protocol then ''protocol_error'' else ''provider_error'') code',
          tx_error_page e k PNone code' s)
     | Provider_Ok v \<Rightarrow> (case tx_page e (tx_data e v) s of
         Inl _ \<Rightarrow> (failed_loop (tx_accepted s = []) ''protocol_error'' ''protocol_error'',
           tx_error_page e k (tx_data e v) ''protocol_error'' s)
       | Inr (p, c) \<Rightarrow>
           let (cursor, done) = tx_decide e p c; s' = (tx_extend e k p c s)\<lparr> tx_cursor := cursor \<rparr> in
           (case done of Some r \<Rightarrow> (r, s') | None \<Rightarrow> tx_loop e n (Suc k) s')))"

section \<open>The acquisition\<close>

definition clamp :: "int \<Rightarrow> int \<Rightarrow> int" where "clamp most v = max 1 (min most v)"

definition page_cap_of :: "acquisition_mode \<Rightarrow> (int \<times> int) option \<Rightarrow> acquisition_request \<Rightarrow> int \<Rightarrow> int" where
  "page_cap_of mode bounds q configured =
    (if mode = Preview \<or> bounds = None then 1 else effective_resume_page_cap q configured)"

definition fresh_tx :: "string option \<Rightarrow> tx_state" where
  "fresh_tx cursor =
    \<lparr> tx_pages = [], tx_accepted = [], tx_seen = [], tx_lt = None, tx_time = None, tx_raw = 0,
      tx_duplicates = 0, tx_cursor = cursor \<rparr>"

definition transaction_contract :: string where "transaction_contract = ''tonapi_account_transactions_v1''"

definition transaction_stream ::
  "(int \<times> int) option \<Rightarrow> int \<Rightarrow> int \<Rightarrow> loop_end \<Rightarrow> tx_state \<Rightarrow> stream_evidence" where
  "transaction_stream bounds page_size page_cap r s =
    \<lparr> se_key = ''transactions'', se_contract = transaction_contract,
      se_scope = (if bounds \<noteq> None then ''bounded_interval'' else ''legacy_unavailable''),
      se_bounds = bounds, se_page_size = page_size, se_page_cap = page_cap,
      se_completion = le_completion r, se_reason = le_reason r, se_raw = tx_raw s,
      se_normalized = int (length (tx_accepted s)), se_duplicates = int (tx_duplicates s),
      se_first_cursor = (case tx_pages s of [] \<Rightarrow> None | p # _ \<Rightarrow> pe_request p),
      se_terminal_cursor = tx_cursor s, se_verified = (bounds \<noteq> None \<and> le_completion r = ''complete''),
      se_error = le_error r, se_pages = tx_pages s \<rparr>"

record tx_outcome =
  to_raw :: int
  to_rows :: "py_dict list"
  to_stream :: stream_evidence
  to_fatal :: bool
  to_incomplete :: bool

definition tx_outcome_of ::
  "(int \<times> int) option \<Rightarrow> int \<Rightarrow> int \<Rightarrow> acquisition_mode \<Rightarrow> loop_end \<Rightarrow> tx_state \<Rightarrow> tx_outcome" where
  "tx_outcome_of bounds page_size page_cap mode r s =
    \<lparr> to_raw = tx_raw s, to_rows = (if mode = Ingest then tx_accepted s else []),
      to_stream = transaction_stream bounds page_size page_cap r s, to_fatal = le_fatal r,
      to_incomplete = le_completion r \<in> {''preview_only'', ''incomplete'', ''error''} \<rparr>"

definition fetch_transaction_acquisition ::
  "live_settings \<Rightarrow> tonapi \<Rightarrow> (nat \<Rightarrow> int \<Rightarrow> string option \<Rightarrow> fetched) \<Rightarrow> (pyval \<Rightarrow> string) \<Rightarrow>
   acquisition_request \<Rightarrow> acquisition_mode \<Rightarrow> tx_outcome" where
  "fetch_transaction_acquisition lv ta net digest q mode =
    (let page_size = clamp 1000 (lv_tx_limit lv); configured = clamp 100 (lv_tx_pages lv) in
     case bind_result (resolved_transaction_bounds q) (\<lambda>bounds.
         bind_result (resume_position q ''transactions'') (\<lambda>position. Inr (bounds, position))) of
       Inl _ \<Rightarrow> tx_outcome_of None page_size 1 mode (failed_loop True ''protocol_error'' ''protocol_error'')
         (fresh_tx None)
     | Inr (bounds, cursor, first) \<Rightarrow>
         let page_cap = page_cap_of mode bounds q configured;
             env = \<lparr> xe_tonapi = ta, xe_net = net, xe_digest = digest, xe_mode = mode, xe_bounds = bounds,
                     xe_page_size = page_size, xe_first = first \<rparr>;
             (r, s) = tx_loop env (nat page_cap) 0 (fresh_tx cursor) in
         tx_outcome_of bounds page_size page_cap mode r s)"

end
