(* ===== verification/Provider_Amounts.thy ===== *)
theory Provider_Amounts
  imports Prelude
begin

text \<open>
  Amounts of \<open>backend/adapters/wallet_activity.py\<close>: \<open>_optional_decimal\<close>, \<open>_scaled_balance_string\<close>
  and \<open>_fixed_decimal_string\<close>, over the finite values of Python's \<open>decimal\<close> module in the default
  context of a thread (28 digits, half-even, exponents up to 999999).
\<close>

section \<open>Decimals\<close>

record decimal =
  dc_negative :: bool
  dc_coefficient :: nat
  dc_exponent :: int

datatype amount_error = Decimal_Overflow | Decimal_Invalid

definition thread_precision :: nat where "thread_precision = 28"
definition max_exponent :: int where "max_exponent = 999999"

definition digits_of :: "nat \<Rightarrow> nat" where "digits_of n = length (show_nat n)"

text \<open>The sign and the rest of a text.\<close>

definition split_sign :: "string \<Rightarrow> bool \<times> string" where
  "split_sign s = (if s \<noteq> [] \<and> hd s = CHR ''-'' then (True, tl s)
    else if s \<noteq> [] \<and> hd s = CHR ''+'' then (False, tl s) else (False, s))"

definition split_at :: "(char \<Rightarrow> bool) \<Rightarrow> string \<Rightarrow> string \<times> string option" where
  "split_at p s = (let a = takeWhile (\<lambda>c. \<not> p c) s in
     (a, if length a = length s then None else Some (drop (length a + 1) s)))"

definition exponent_text :: "string option \<Rightarrow> int option" where
  "exponent_text e =
    (case e of
       None \<Rightarrow> Some 0
     | Some t \<Rightarrow> let (negative, body) = split_sign t in
         if body = [] \<or> \<not> list_all is_digit body then None
         else Some (if negative then - int (read_nat body) else int (read_nat body)))"

text \<open>
  \<open>Decimal(text)\<close>: white space around the text and underscores in it are ignored.  \<open>None\<close> is a text
  that is no decimal, or an infinity or a NaN, which the code rejects next; an exponent outside the
  range of the C implementation is no decimal either.
\<close>

definition parse_decimal :: "string \<Rightarrow> decimal option" where
  "parse_decimal text =
    (let (negative, body) = split_sign (filter (\<lambda>c. c \<noteq> CHR ''_'') (strip text));
         (mantissa, e) = split_at (\<lambda>c. c = CHR ''e'' \<or> c = CHR ''E'') body;
         (whole, fraction) = split_at (\<lambda>c. c = CHR ''.'') mantissa;
         decimals = (case fraction of None \<Rightarrow> [] | Some f \<Rightarrow> f) in
     if \<not> list_all is_digit (whole @ decimals) \<or> whole @ decimals = [] then None
     else case exponent_text e of
       None \<Rightarrow> None
     | Some x \<Rightarrow>
         let c = read_nat (whole @ decimals); exponent = x - int (length decimals) in
         if exponent + int (digits_of c) - 1 > 999999999999999999 \<or> exponent < -1999999999999999997 then None
         else Some \<lparr> dc_negative = negative, dc_coefficient = c, dc_exponent = exponent \<rparr>)"

definition optional_decimal :: "string option \<Rightarrow> decimal option" where
  "optional_decimal v = (case v of None \<Rightarrow> None | Some s \<Rightarrow> if s = [] then None else parse_decimal s)"

section \<open>Arithmetic\<close>

text \<open>\<open>n / 10 ^ k\<close> to the nearest integer, a half to the even one, or upwards.\<close>

definition half_even :: "nat \<Rightarrow> nat \<Rightarrow> nat" where
  "half_even n k =
    (let q = n div 10 ^ k; r = n mod 10 ^ k in
     if 2 * r < 10 ^ k then q else if 2 * r > 10 ^ k then q + 1 else if even q then q else q + 1)"

definition half_up :: "nat \<Rightarrow> nat \<Rightarrow> nat" where
  "half_up n k = (let q = n div 10 ^ k; r = n mod 10 ^ k in if 2 * r \<ge> 10 ^ k then q + 1 else q)"

text \<open>A result in the context of the thread: too many digits are rounded, too large a value raises;
  a value below the smallest subnormal loses digits.\<close>

definition in_context :: "decimal \<Rightarrow> (amount_error, decimal) result" where
  "in_context d =
    (let least = - max_exponent - int thread_precision + 1;
         excess = max (int (digits_of (dc_coefficient d)) - int thread_precision) (least - dc_exponent d);
         k = nat excess; c = half_even (dc_coefficient d) k; r = d\<lparr> dc_coefficient := c, dc_exponent := dc_exponent d + int k \<rparr> in
     ensure (dc_coefficient r = 0 \<or> dc_exponent r + int (digits_of c) - 1 \<le> max_exponent) Decimal_Overflow (Inr r))"

text \<open>\<open>raw / Decimal(10) ** scale\<close>; the power alone can be too large.\<close>

definition scaled_down :: "decimal \<Rightarrow> int \<Rightarrow> (amount_error, decimal) result" where
  "scaled_down d scale =
    (if scale > max_exponent then Inl Decimal_Overflow
     else in_context (d\<lparr> dc_exponent := dc_exponent d - scale \<rparr>))"

definition balance_places :: nat where "balance_places = 18"
definition usd_places :: nat where "usd_places = 8"

text \<open>The coefficient at the places of a quantum; more digits than the widened precision are an \<open>InvalidOperation\<close>.\<close>

definition quantized :: "nat \<Rightarrow> decimal \<Rightarrow> (amount_error, nat) result" where
  "quantized places d =
    (let shift = dc_exponent d + int places;
         precision = max 60 (digits_of (dc_coefficient d) + places + 4) in
     if shift \<ge> 0 then
       ensure (dc_coefficient d = 0 \<or> int (digits_of (dc_coefficient d)) + shift \<le> int precision) Decimal_Invalid
         (Inr (dc_coefficient d * 10 ^ nat shift))
     else let c = half_up (dc_coefficient d) (nat (- shift)) in
       ensure (digits_of c \<le> precision) Decimal_Invalid (Inr c))"

definition pad_digits :: "nat \<Rightarrow> string \<Rightarrow> string" where
  "pad_digits n s = replicate (n - length s) (CHR ''0'') @ s"

definition fixed_text :: "nat \<Rightarrow> bool \<Rightarrow> nat \<Rightarrow> string" where
  "fixed_text places negative c =
    (let s = pad_digits (places + 1) (show_nat c); n = length s - places in
     (if negative then ''-'' else []) @ take n s @ ''.'' @ drop n s)"

definition fixed_decimal_string :: "nat \<Rightarrow> decimal \<Rightarrow> (amount_error, string) result" where
  "fixed_decimal_string places d =
    bind_result (quantized places d) (\<lambda>c. Inr (fixed_text places (dc_negative d) c))"

definition scaled_balance_string :: "string option \<Rightarrow> int option \<Rightarrow> (amount_error, string option) result" where
  "scaled_balance_string v decimals =
    (case optional_decimal v of
       None \<Rightarrow> Inr None
     | Some raw \<Rightarrow>
         bind_result (case decimals of
             None \<Rightarrow> Inr raw
           | Some scale \<Rightarrow> if scale < 0 then Inr raw else scaled_down raw scale)
           (\<lambda>d. bind_result (fixed_decimal_string balance_places d) (\<lambda>s. Inr (Some s))))"

section \<open>Exactness\<close>

lemma less_power_digits: "n < 10 ^ digits_of n"
proof (induction n rule: show_nat.induct)
  case (1 n)
  show ?case
  proof (cases "n < 10")
    case True
    then show ?thesis by (simp add: digits_of_def show_nat.simps [of n])
  next
    case False
    with 1 have "n div 10 < 10 ^ digits_of (n div 10)" by simp
    moreover have "digits_of n = Suc (digits_of (n div 10))"
      using False by (simp add: digits_of_def show_nat.simps [of n])
    ultimately show ?thesis by simp
  qed
qed

lemma digits_of_le: "n < 10 ^ k \<Longrightarrow> 0 < k \<Longrightarrow> digits_of n \<le> k"
  unfolding digits_of_def by (rule show_nat_length)

lemma half_even_0 [simp]: "half_even n 0 = n"
  by (simp add: half_even_def)

lemma half_even_exact: "half_even n k * 10 ^ k = n \<longleftrightarrow> 10 ^ k dvd n"
proof
  show "10 ^ k dvd n" if "half_even n k * 10 ^ k = n" using that by (metis dvd_triv_right)
  show "half_even n k * 10 ^ k = n" if "10 ^ k dvd n"
    using that by (simp add: half_even_def Let_def)
qed

lemma half_even_le: "half_even n k \<le> n div 10 ^ k + 1"
  by (simp add: half_even_def Let_def)

lemma half_even_digits: "digits_of (half_even n (digits_of n - 28)) \<le> 29"
proof (cases "digits_of n \<le> 28")
  case True
  then show ?thesis by simp
next
  case False
  then have "digits_of n = 28 + (digits_of n - 28)" by simp
  then have "n < 10 ^ (28 + (digits_of n - 28))" using less_power_digits [of n] by metis
  then have "n < 10 ^ 28 * 10 ^ (digits_of n - 28)" unfolding power_add .
  then have "n div 10 ^ (digits_of n - 28) < 10 ^ 28"
    by (simp add: less_mult_imp_div_less)
  with half_even_le [of n "digits_of n - 28"] have "half_even n (digits_of n - 28) < 10 ^ 29" by simp
  then show ?thesis by (rule digits_of_le) simp
qed

lemma digit_no_space: "is_digit c \<Longrightarrow> \<not> is_space c"
  by (auto simp: is_digit_def dec_digits_def is_space_def)

lemma strip_digits: "list_all is_digit s \<Longrightarrow> strip s = s"
proof -
  assume s: "list_all is_digit s"
  have "dropWhile is_space t = t" if "list_all is_digit t" for t
    using that by (cases t) (auto simp: digit_no_space)
  then show "strip s = s" using s by (simp add: strip_def)
qed

lemma digit_plain: "is_digit c \<Longrightarrow> c \<notin> {CHR ''_'', CHR ''-'', CHR ''+'', CHR ''e'', CHR ''E'', CHR ''.''}"
  by (auto simp: is_digit_def dec_digits_def)

lemma filter_digits: "list_all is_digit s \<Longrightarrow> (\<And>c. is_digit c \<Longrightarrow> p c) \<Longrightarrow> filter p s = s"
  by (simp add: filter_id_conv list_all_iff)

lemma split_at_none: "list_all is_digit s \<Longrightarrow> (\<And>c. is_digit c \<Longrightarrow> \<not> p c) \<Longrightarrow> split_at p s = (s, None)"
  by (simp add: split_at_def list_all_iff takeWhile_eq_all_conv [THEN iffD2])

lemma split_sign_digits: "list_all is_digit s \<Longrightarrow> split_sign s = (False, s)"
  by (cases s) (auto simp: split_sign_def dest: digit_plain)

lemma parse_numeral:
  assumes "digits_of n \<le> 40"
  shows "parse_decimal (show_nat n) = Some \<lparr> dc_negative = False, dc_coefficient = n, dc_exponent = 0 \<rparr>"
proof -
  have d: "list_all is_digit (show_nat n)" by (rule show_nat_digits)
  have f: "filter (\<lambda>c. c \<noteq> CHR ''_'') (strip (show_nat n)) = show_nat n"
    unfolding strip_digits [OF d] by (rule filter_digits [OF d]) (use digit_plain in auto)
  have e: "split_at (\<lambda>c. c = CHR ''e'' \<or> c = CHR ''E'') (show_nat n) = (show_nat n, None)"
    by (rule split_at_none [OF d]) (use digit_plain in auto)
  have p: "split_at (\<lambda>c. c = CHR ''.'') (show_nat n) = (show_nat n, None)"
    by (rule split_at_none [OF d]) (use digit_plain in auto)
  show ?thesis
    using assms d by (simp add: parse_decimal_def f split_sign_digits [OF d] e p exponent_text_def)
qed

definition recorded_units :: "string \<Rightarrow> nat" where
  "recorded_units t = read_nat (filter is_digit t)"

lemma read_nat_zeros: "read_nat (replicate k (CHR ''0'') @ s) = read_nat s"
  by (induction s rule: rev_induct)
    (simp_all add: append_assoc [symmetric] del: append_assoc, induction k,
      simp_all add: replicate_append_same [symmetric] digit_val_def)

lemma recorded_fixed: "recorded_units (fixed_text places False c) = c"
proof -
  have d: "list_all is_digit (pad_digits m (show_nat c))" for m
  proof -
    have "is_digit (CHR ''0'')" by (simp add: is_digit_def dec_digits_def)
    then show ?thesis
      using show_nat_digits [of c] by (auto simp: pad_digits_def list_all_iff)
  qed
  have "filter is_digit (take k s @ ''.'' @ drop k s) = s" if "list_all is_digit s" for k s
  proof -
    have "\<not> is_digit (CHR ''.'')" by (simp add: is_digit_def dec_digits_def)
    then have "filter is_digit (take k s @ ''.'' @ drop k s) = filter is_digit (take k s @ drop k s)"
      by (simp del: append_take_drop_id)
    then show ?thesis using that by (simp add: list_all_iff)
  qed
  from this [OF d] show ?thesis
    unfolding recorded_units_def fixed_text_def Let_def
    by (simp del: append_take_drop_id filter_append) (simp add: pad_digits_def read_nat_zeros)
qed

lemma scaled_numeral:
  assumes n: "digits_of n \<le> 40" and scale: "scale \<le> 18"
  shows "scaled_balance_string (Some (show_nat n)) (Some (int scale)) =
    Inr (Some (fixed_text 18 False (half_even n (digits_of n - 28) * 10 ^ (digits_of n - 28) * 10 ^ (18 - scale))))"
proof -
  let ?k = "digits_of n - 28"
  have k: "?k \<le> 12" using n by simp
  have c: "digits_of (half_even n ?k) \<le> 29" by (rule half_even_digits)
  have ctx: "scaled_down \<lparr> dc_negative = False, dc_coefficient = n, dc_exponent = 0 \<rparr> (int scale) =
      Inr \<lparr> dc_negative = False, dc_coefficient = half_even n ?k, dc_exponent = int ?k - int scale \<rparr>"
  proof -
    have "nat (max (int (digits_of n) - int thread_precision) (- max_exponent - int thread_precision + 1 - - int scale)) = ?k"
      using n scale by (auto simp: thread_precision_def max_exponent_def)
    then show ?thesis
      using n scale c k unfolding scaled_down_def in_context_def Let_def
      by (simp add: max_exponent_def)
  qed
  have shift: "nat (int ?k - int scale + 18) = ?k + 18 - scale" "0 \<le> int ?k - int scale + 18"
    using scale by linarith+
  have "quantized 18 \<lparr> dc_negative = False, dc_coefficient = half_even n ?k, dc_exponent = int ?k - int scale \<rparr> =
      Inr (half_even n ?k * 10 ^ (?k + (18 - scale)))"
    using c k scale shift unfolding quantized_def Let_def by (simp add: balance_places_def)
  with ctx show ?thesis
    by (simp add: scaled_balance_string_def optional_decimal_def parse_numeral [OF n] fixed_decimal_string_def
        balance_places_def power_add mult.assoc)
qed

text \<open>C15: which raw amounts are recorded exactly.  An amount of up to 40 digits with up to 18 decimals
  is always recorded, and the recorded text denotes \<open>raw / 10 ^ decimals\<close> exactly when the digits
  beyond the first 28 are zeros: the division runs in the default context of the thread, and the
  wider context of \<open>_fixed_decimal_string\<close> comes after it.
\<close>

theorem amount_exact_iff:
  assumes "digits_of n \<le> 40" "scale \<le> 18"
  shows "\<exists>t. scaled_balance_string (Some (show_nat n)) (Some (int scale)) = Inr (Some t) \<and>
    (recorded_units t = n * 10 ^ (18 - scale) \<longleftrightarrow> 10 ^ (digits_of n - thread_precision) dvd n)"
  unfolding scaled_numeral [OF assms]
  by (simp add: recorded_fixed thread_precision_def half_even_exact)

theorem amount_exact_iff_witness:
  "(\<exists>t. scaled_balance_string (Some ''12345678901234567890123456789'') (Some 9) = Inr (Some t) \<and>
     recorded_units t \<noteq> 12345678901234567890123456789 * 10 ^ 9) \<and>
   scaled_balance_string (Some ''12345678901234567890123456789'') (Some 9) =
     Inr (Some ''12345678901234567890.123456790000000000'')"
proof -
  let ?n = "12345678901234567890123456789 :: nat"
  have n: "show_nat ?n = ''12345678901234567890123456789''"
    by (simp add: show_nat.simps digit_char_def dec_digits_def)
  have d: "digits_of ?n = 29" by (simp add: digits_of_def n)
  have h: "half_even ?n 1 = 1234567890123456789012345679" by (simp add: half_even_def)
  have "show_nat 12345678901234567890123456790000000000 = ''12345678901234567890123456790000000000''"
    by (simp add: show_nat.simps digit_char_def dec_digits_def)
  then have "fixed_text 18 False 12345678901234567890123456790000000000 = ''12345678901234567890.123456790000000000''"
    by (simp add: fixed_text_def pad_digits_def balance_places_def)
  then have t: "scaled_balance_string (Some ''12345678901234567890123456789'') (Some 9) =
     Inr (Some ''12345678901234567890.123456790000000000'')"
    using scaled_numeral [of ?n 9] by (simp add: d n h [simplified])
  then show ?thesis
    using amount_exact_iff [of ?n 9] by (simp add: d n thread_precision_def)
qed

end
