(* ===== verification/Provider_Actions.thy ===== *)
theory Provider_Actions
  imports Provider_Pages Provider_Amounts
begin

text \<open>
  From accepted provider rows to activity rows: the normalization of transfer and swap actions in
  \<open>backend/adapters/tonapi.py\<close> and the live rows of \<open>backend/adapters/wallet_activity.py\<close>.  The
  evidence copies (\<open>raw\<close>) of the rows are left out, and a timestamp is its instant in microseconds
  instead of its ISO text.
\<close>

section \<open>Dicts\<close>

datatype action_fault = Action_Shape shape_fault | Action_Amount amount_error | Action_Time

definition as_shape :: "(shape_fault, 'a) result \<Rightarrow> (action_fault, 'a) result" where
  "as_shape r = (case r of Inl e \<Rightarrow> Inl (Action_Shape e) | Inr a \<Rightarrow> Inr a)"

definition as_amount :: "(amount_error, 'a) result \<Rightarrow> (action_fault, 'a) result" where
  "as_amount r = (case r of Inl e \<Rightarrow> Inl (Action_Amount e) | Inr a \<Rightarrow> Inr a)"

definition or_empty :: "pyval \<Rightarrow> py_dict" where
  "or_empty v = (case v of PDict d \<Rightarrow> d | _ \<Rightarrow> [])"

definition account_address :: "(pyval \<Rightarrow> string) \<Rightarrow> pyval \<Rightarrow> string option" where
  "account_address repr v =
    (case v of PDict d \<Rightarrow> optional_string repr (dget d ''address'') | _ \<Rightarrow> optional_string repr v)"

definition or_text :: "string option \<Rightarrow> string \<Rightarrow> string" where
  "or_text v d = (case v of None \<Rightarrow> d | Some s \<Rightarrow> s)"

definition or_else :: "'a option \<Rightarrow> 'a option \<Rightarrow> 'a option" where
  "or_else a b = (case a of None \<Rightarrow> b | Some x \<Rightarrow> Some x)"

text \<open>What an event contributes to each of its actions.\<close>

record event_origin =
  eo_id :: "string option"
  eo_time :: "int option"
  eo_lt :: "string option"

section \<open>Transfers\<close>

definition transfer_sides ::
  "string \<Rightarrow> string option \<Rightarrow> string option \<Rightarrow> string \<times> string option" where
  "transfer_sides account sender recipient =
    (if account \<noteq> [] \<and> account = py_lower (strip (or_text sender [])) then (''out'', recipient)
     else if account \<noteq> [] \<and> account = py_lower (strip (or_text recipient [])) then (''in'', sender)
     else (''unknown'', or_else recipient sender))"

definition normalize_event_transfer ::
  "(pyval \<Rightarrow> string) \<Rightarrow> py_dict \<Rightarrow> py_dict \<Rightarrow> string \<Rightarrow> event_origin \<Rightarrow> string \<Rightarrow> nat \<Rightarrow>
   (shape_fault, py_dict) result" where
  "normalize_event_transfer repr detail action kind origin account index =
    (let sender = account_address repr (dget detail ''sender'');
         recipient = account_address repr (dget detail ''recipient'');
         (direction, counterparty) = transfer_sides account sender recipient;
         jetton = or_empty (dget detail ''jetton'');
         symbol = optional_string repr (dget jetton ''symbol'');
         address = optional_string repr (dget jetton ''address'') in
     bind_result (if kind = ''TonTransfer'' then Inr (''TON'', Some 9, None, None)
         else bind_result (optional_int (dget jetton ''decimals'')) (\<lambda>n. Inr
           (or_text (or_else symbol address) ''UNKNOWN_JETTON'', n, address, symbol)))
      (\<lambda>(asset, decimals, jetton_address, jetton_symbol). Inr
        [(''event_id'', of_string (eo_id origin)), (''utime'', of_int (eo_time origin)),
         (''lt'', of_string (eo_lt origin)), (''action_type'', PStr kind),
         (''action_index'', PInt (int index)), (''asset'', PStr asset),
         (''raw_amount'', of_string (optional_string repr (dget detail ''amount''))),
         (''decimals'', of_int decimals), (''direction'', PStr direction),
         (''counterparty'', of_string counterparty), (''sender'', of_string sender),
         (''recipient'', of_string recipient), (''jetton_address'', of_string jetton_address),
         (''jetton_symbol'', of_string jetton_symbol),
         (''status'', of_string (optional_string repr (dget action ''status''))),
         (''source'', PStr ''tonapi'')]))"

section \<open>Swaps\<close>

definition native_amount :: "string \<Rightarrow> py_dict \<Rightarrow> bool" where
  "native_amount side detail \<longleftrightarrow> dget detail (''ton_'' @ side) \<noteq> PNone \<and> dget detail (''ton_'' @ side) \<noteq> PStr []"

definition swap_side ::
  "(pyval \<Rightarrow> string) \<Rightarrow> py_dict \<Rightarrow> string \<Rightarrow>
   (shape_fault, string option \<times> string option \<times> int option \<times> string option) result" where
  "swap_side repr detail side =
    (if native_amount side detail
     then Inr (Some ''TON'', optional_string repr (dget detail (''ton_'' @ side)), Some 9, None)
     else let master = or_empty (dget detail (''jetton_master_'' @ side));
              address = optional_string repr (dget master ''address'') in
       bind_result (optional_int (dget master ''decimals'')) (\<lambda>decimals. Inr
         (or_else (optional_string repr (dget master ''symbol'')) address,
          optional_string repr (dget detail (''amount_'' @ side)), decimals, address)))"

definition token_standard :: "string \<Rightarrow> py_dict \<Rightarrow> string" where
  "token_standard side detail = (if native_amount side detail then ''native'' else ''jetton'')"

definition normalize_swap ::
  "(pyval \<Rightarrow> string) \<Rightarrow> py_dict \<Rightarrow> py_dict \<Rightarrow> event_origin \<Rightarrow> nat \<Rightarrow> (shape_fault, py_dict) result" where
  "normalize_swap repr detail action origin index =
    bind_result (swap_side repr detail ''in'') (\<lambda>(token_in, amount_in, decimals_in, address_in).
    bind_result (swap_side repr detail ''out'') (\<lambda>(token_out, amount_out, decimals_out, address_out). Inr
      [(''event_id'', of_string (eo_id origin)), (''utime'', of_int (eo_time origin)),
       (''lt'', of_string (eo_lt origin)), (''action_type'', PStr ''JettonSwap''),
       (''action_index'', PInt (int index)), (''dex'', of_string (optional_string repr (dget detail ''dex''))),
       (''token_in'', of_string token_in), (''token_in_standard'', PStr (token_standard ''in'' detail)),
       (''token_in_address'', of_string address_in), (''raw_amount_in'', of_string amount_in),
       (''decimals_in'', of_int decimals_in), (''token_out'', of_string token_out),
       (''token_out_standard'', PStr (token_standard ''out'' detail)),
       (''token_out_address'', of_string address_out), (''raw_amount_out'', of_string amount_out),
       (''decimals_out'', of_int decimals_out), (''router'', of_string (account_address repr (dget detail ''router''))),
       (''status'', of_string (optional_string repr (dget action ''status''))),
       (''source'', PStr ''tonapi'')]))"

section \<open>Events\<close>

text \<open>The actions of one event; \<open>take_action\<close> says what an action contributes, if anything.\<close>

fun event_actions ::
  "(py_dict \<Rightarrow> nat \<Rightarrow> (shape_fault, py_dict) result option) \<Rightarrow> nat \<Rightarrow> pyval list \<Rightarrow>
   (shape_fault, py_dict list) result" where
  "event_actions take_action i [] = Inr []"
| "event_actions take_action i (a # as) =
    (case (case a of PDict d \<Rightarrow> take_action d i | _ \<Rightarrow> None) of
       None \<Rightarrow> event_actions take_action (Suc i) as
     | Some r \<Rightarrow> bind_result r (\<lambda>row. bind_result (event_actions take_action (Suc i) as) (\<lambda>rows. Inr (row # rows))))"

definition event_rows ::
  "(pyval \<Rightarrow> string) \<Rightarrow> (event_origin \<Rightarrow> py_dict \<Rightarrow> nat \<Rightarrow> (shape_fault, py_dict) result option) \<Rightarrow> py_dict \<Rightarrow>
   (shape_fault, py_dict list) result" where
  "event_rows repr take_action event =
    bind_result (optional_int (dget event ''timestamp'')) (\<lambda>time.
      let origin = \<lparr> eo_id = optional_string repr (dget event ''event_id''), eo_time = time,
                     eo_lt = optional_string repr (dget event ''lt'') \<rparr> in
      case dget event ''actions'' of
        PList actions \<Rightarrow> event_actions (take_action origin) 0 actions
      | _ \<Rightarrow> Inr [])"

definition all_event_rows ::
  "(pyval \<Rightarrow> string) \<Rightarrow> (event_origin \<Rightarrow> py_dict \<Rightarrow> nat \<Rightarrow> (shape_fault, py_dict) result option) \<Rightarrow>
   py_dict list \<Rightarrow> (shape_fault, py_dict list) result" where
  "all_event_rows repr take_action events =
    bind_result (each (event_rows repr take_action) events) (\<lambda>rs. Inr (concat rs))"

definition transfer_action ::
  "(pyval \<Rightarrow> string) \<Rightarrow> string \<Rightarrow> event_origin \<Rightarrow> py_dict \<Rightarrow> nat \<Rightarrow> (shape_fault, py_dict) result option" where
  "transfer_action repr account origin action index =
    (case optional_string repr (dget action ''type'') of
       Some kind \<Rightarrow>
         if kind \<notin> {''TonTransfer'', ''JettonTransfer''} then None
         else (case dget action kind of
             PDict detail \<Rightarrow> Some (normalize_event_transfer repr detail action kind origin account index)
           | _ \<Rightarrow> None)
     | None \<Rightarrow> None)"

definition swap_action ::
  "(pyval \<Rightarrow> string) \<Rightarrow> event_origin \<Rightarrow> py_dict \<Rightarrow> nat \<Rightarrow> (shape_fault, py_dict) result option" where
  "swap_action repr origin action index =
    (if optional_string repr (dget action ''type'') \<noteq> Some ''JettonSwap'' then None
     else (case dget action ''JettonSwap'' of
         PDict detail \<Rightarrow> Some (normalize_swap repr detail action origin index)
       | _ \<Rightarrow> None))"

definition normalize_account_events_response ::
  "(pyval \<Rightarrow> string) \<Rightarrow> string \<Rightarrow> py_dict list \<Rightarrow> (shape_fault, py_dict list) result" where
  "normalize_account_events_response repr wallet events =
    all_event_rows repr (transfer_action repr (py_lower (strip wallet))) events"

definition normalize_account_swaps_response ::
  "(pyval \<Rightarrow> string) \<Rightarrow> py_dict list \<Rightarrow> (shape_fault, py_dict list) result" where
  "normalize_account_swaps_response repr events = all_event_rows repr (swap_action repr) events"

section \<open>Live rows\<close>

text \<open>\<open>datetime.fromtimestamp(_safe_int(value, -1))\<close>: later than the year 9999 raises.\<close>

definition live_time :: "pyval \<Rightarrow> (action_fault, int option) result" where
  "live_time v =
    (let seconds = (case int_of v of Inl _ \<Rightarrow> -1 | Inr i \<Rightarrow> i) in
     if seconds < 0 then Inr None
     else ensure (seconds \<le> 253402300799) Action_Time (Inr (Some (seconds * 1000000))))"

definition text_field :: "string \<Rightarrow> py_dict \<Rightarrow> string option" where
  "text_field k d = (case dget d k of PStr s \<Rightarrow> (let t = strip s in if t = [] then None else Some t) | _ \<Rightarrow> None)"

definition raw_field :: "string \<Rightarrow> py_dict \<Rightarrow> string option" where
  "raw_field k d = as_str (dget d k)"

definition int_field :: "string \<Rightarrow> py_dict \<Rightarrow> int option" where
  "int_field k d = (case dget d k of PInt i \<Rightarrow> Some i | _ \<Rightarrow> None)"

record live_transaction =
  lt_hash :: string
  lt_logical :: "string option"
  lt_time :: "int option"
  lt_fee :: "string option"
  lt_success :: string

record live_transfer =
  lf_hash :: "string option"
  lf_logical :: "string option"
  lf_time :: "int option"
  lf_asset :: string
  lf_amount :: "string option"
  lf_direction :: string
  lf_counterparty :: "string option"

record live_swap =
  lw_hash :: "string option"
  lw_time :: "int option"
  lw_dex :: "string option"
  lw_token_in :: "string option"
  lw_amount_in :: "string option"
  lw_token_out :: "string option"
  lw_amount_out :: "string option"

definition tonapi_live_transaction :: "py_dict \<Rightarrow> (action_fault, live_transaction) result" where
  "tonapi_live_transaction d =
    bind_result (as_amount (scaled_balance_string (raw_field ''total_fees'' d) (Some 9))) (\<lambda>fee.
    bind_result (live_time (dget d ''utime'')) (\<lambda>time. Inr
      \<lparr> lt_hash = or_text (text_field ''tx_hash'' d) [], lt_logical = text_field ''logical_time'' d,
        lt_time = time, lt_fee = fee,
        lt_success = (case dget d ''success'' of PBool True \<Rightarrow> ''success'' | PBool False \<Rightarrow> ''failed''
          | _ \<Rightarrow> ''unknown'') \<rparr>))"

definition tonapi_live_transfer :: "py_dict \<Rightarrow> (action_fault, live_transfer) result" where
  "tonapi_live_transfer d =
    bind_result (as_amount (scaled_balance_string (raw_field ''raw_amount'' d) (int_field ''decimals'' d))) (\<lambda>amount.
    bind_result (live_time (dget d ''utime'')) (\<lambda>time. Inr
      \<lparr> lf_hash = text_field ''event_id'' d, lf_logical = text_field ''lt'' d, lf_time = time,
        lf_asset = or_text (text_field ''asset'' d) ''UNKNOWN'', lf_amount = amount,
        lf_direction = (let s = field ''direction'' d in
          if s \<in> {''in'', ''out'', ''unknown''} then s else ''unknown''),
        lf_counterparty = text_field ''counterparty'' d \<rparr>))"

definition tonapi_live_swap :: "py_dict \<Rightarrow> (action_fault, live_swap) result" where
  "tonapi_live_swap d =
    bind_result (as_amount (scaled_balance_string (raw_field ''raw_amount_in'' d) (int_field ''decimals_in'' d))) (\<lambda>amount_in.
    bind_result (as_amount (scaled_balance_string (raw_field ''raw_amount_out'' d) (int_field ''decimals_out'' d))) (\<lambda>amount_out.
    bind_result (live_time (dget d ''utime'')) (\<lambda>time. Inr
      \<lparr> lw_hash = text_field ''event_id'' d, lw_time = time, lw_dex = text_field ''dex'' d,
        lw_token_in = text_field ''token_in'' d, lw_amount_in = amount_in,
        lw_token_out = text_field ''token_out'' d, lw_amount_out = amount_out \<rparr>)))"

end
