(* ===== verification/Event_Acquisition.thy ===== *)
theory Event_Acquisition
  imports Transaction_Acquisition Provider_Actions
begin

text \<open>
  \<open>TonapiWalletActivityLiveAdapter._fetch_event_acquisition\<close> of
  \<open>backend/adapters/wallet_activity.py\<close>: the pages of one account's events, from which transfers and
  swaps are derived.  The conventions are those of \<open>Transaction_Acquisition\<close>.
\<close>

section \<open>Page validation\<close>

definition canonical_hex_256 :: "pyval \<Rightarrow> bool" where
  "canonical_hex_256 v = (case v of PStr s \<Rightarrow> length s = 64 \<and> s = strip s \<and> list_all is_hex s | _ \<Rightarrow> False)"

fun check_event_rows ::
  "nat \<Rightarrow> int option \<Rightarrow> int option \<Rightarrow> pyval list \<Rightarrow> (page_fault, (py_dict \<times> int option) list) result" where
  "check_event_rows i prior_lt prior_time [] = Inr []"
| "check_event_rows i prior_lt prior_time (v # vs) =
    bind_result (as_dict (Page_Row_Not_Object i) v) (\<lambda>event.
      ensure (canonical_hex_256 (dget event ''event_id'')) (Page_Event_Invalid i)
     (case strict_logical_time (dget event ''lt'') of
        None \<Rightarrow> Inl (Page_Time_Invalid i)
      | Some lt \<Rightarrow>
          ensure (\<not> not_below (lt_of lt) prior_lt) Page_Not_Descending
         (bind_result (transaction_timestamp (dget event ''timestamp'')) (\<lambda>time.
            ensure (time \<noteq> None) (Page_Timestamp_Invalid i)
           (ensure (\<not> known_later time prior_time) Page_Times_Unordered
           (ensure (actions_valid (dget event ''actions'')) (Page_Actions_Invalid i)
           (ensure (is_bool (dget event ''in_progress'')) (Page_Progress_Invalid i)
           (bind_result (check_event_rows (Suc i) (Some (lt_of lt)) time vs)
             (\<lambda>rows. Inr ((event, time) # rows)))))))))) "

definition validate_event_page ::
  "(pyval \<Rightarrow> string) \<Rightarrow> pyval \<Rightarrow> string option \<Rightarrow> int \<Rightarrow> (page_fault, checked_page) result" where
  "validate_event_page digest v request_cursor limit =
    bind_result (as_dict Page_Not_Object v) (\<lambda>page.
      ensure (py_eq (dget page ''requested_limit'') (PInt limit)) Limit_Mismatch
     (ensure (py_eq (dget page ''request_before_lt'') (of_string request_cursor)) Cursor_Mismatch
     (case dget page ''events'' of
        PList rows \<Rightarrow>
          ensure (\<not> is_bool (dget page ''raw_count'') \<and> py_eq (dget page ''raw_count'') (PInt (int (length rows))))
            Count_Mismatch
         (ensure (\<not> int (length rows) > limit) Page_Too_Long
         (bind_result (check_event_rows 0 None None rows) (\<lambda>checked.
            let (low, high) = low_high (map (\<lambda>r. lt_of (field ''lt'' (fst r))) checked);
                response = dget page ''next_before_lt'';
                result = page_of_rows digest v in
            ensure (py_eq (dget page ''min_logical_time'') (of_string low)) Minimum_Inconsistent
           (ensure (py_eq (dget page ''max_logical_time'') (of_string high)) Maximum_Inconsistent
           (if checked = []
            then ensure (response = PNone) Empty_With_Cursor (Inr (result None low high checked))
            else ensure (strict_logical_time response = low) Response_Cursor_Wrong
              (ensure (\<not> (case request_cursor of None \<Rightarrow> False
                  | Some c \<Rightarrow> lt_of (the high) \<ge> lt_of c)) Cursor_Stuck
              (Inr (result low low high checked))))))))
      | _ \<Rightarrow> Inl Page_Rows_Not_List)))"

text \<open>Whole seconds at or before, and at or after, an instant.\<close>

definition event_query_dates :: "(int \<times> int) option \<Rightarrow> int option \<times> int option" where
  "event_query_dates bounds =
    (case bounds of None \<Rightarrow> (None, None)
     | Some (a, b) \<Rightarrow> (Some (a div 1000000), Some (- ((- b) div 1000000))))"

section \<open>One page\<close>

text \<open>An event seen before: its logical time, its timestamp and the digest of its payload.\<close>

type_synonym seen_event = "string \<times> int option \<times> string"

record event_scan =
  es_seen :: "(string \<times> seen_event) list"
  es_lt :: "int option"
  es_time :: "int option"
  es_duplicates :: nat
  es_accepted :: "py_dict list"
  es_in_progress :: bool
  es_crossed :: bool

definition scan_event ::
  "(pyval \<Rightarrow> string) \<Rightarrow> (int \<times> int) option \<Rightarrow> py_dict \<times> int option \<Rightarrow> event_scan \<Rightarrow>
   (page_fault, event_scan) result" where
  "scan_event digest bounds = (\<lambda>(event, time) s.
    let lt = field ''lt'' event; identity = py_lower (field ''event_id'' event);
        fact = (lt, time, digest (PDict event)) in
    case map_of (es_seen s) identity of
      Some prior \<Rightarrow> ensure (prior = fact) Duplicate_Changed
        (Inr (s\<lparr> es_duplicates := es_duplicates s + 1 \<rparr>))
    | None \<Rightarrow>
        ensure (\<not> not_below (lt_of lt) (es_lt s)) Not_Globally_Descending
       (ensure (\<not> known_later time (es_time s)) Times_Not_Global
       (let s' = s\<lparr> es_seen := (identity, fact) # es_seen s, es_lt := Some (lt_of lt), es_time := time \<rparr>;
            inside = (if dget event ''in_progress'' = PBool True
              then s'\<lparr> es_in_progress := True \<rparr> else s'\<lparr> es_accepted := es_accepted s' @ [event] \<rparr>) in
        case (bounds, time) of
          (Some (start, end'), Some t) \<Rightarrow>
            Inr (if t < start then s'\<lparr> es_crossed := True \<rparr> else if t \<ge> end' then s' else inside)
        | _ \<Rightarrow> Inr inside)))"

fun scan_events ::
  "(pyval \<Rightarrow> string) \<Rightarrow> (int \<times> int) option \<Rightarrow> (py_dict \<times> int option) list \<Rightarrow> event_scan \<Rightarrow>
   (page_fault, event_scan) result" where
  "scan_events digest bounds [] s = Inr s"
| "scan_events digest bounds (r # rs) s = bind_result (scan_event digest bounds r s) (scan_events digest bounds rs)"

section \<open>The loop\<close>

record event_env =
  ve_tonapi :: tonapi
  ve_net :: "nat \<Rightarrow> int \<Rightarrow> string option \<Rightarrow> int option \<Rightarrow> int option \<Rightarrow> fetched"
  ve_digest :: "pyval \<Rightarrow> string"
  ve_mode :: acquisition_mode
  ve_bounds :: "(int \<times> int) option"
  ve_page_size :: int
  ve_first :: int
  ve_transfers :: bool
  ve_swaps :: bool

record event_state =
  ev_pages :: "page_evidence list"
  ev_accepted :: "py_dict list"
  ev_transfers :: "live_transfer list"
  ev_swaps :: "live_swap list"
  ev_seen :: "(string \<times> seen_event) list"
  ev_lt :: "int option"
  ev_time :: "int option"
  ev_raw :: int
  ev_duplicates :: nat
  ev_cursor :: "string option"
  ev_in_progress :: bool

definition event_request :: "event_env \<Rightarrow> nat \<Rightarrow> string option \<Rightarrow> provider_result" where
  "event_request e k cursor =
    (let (start, end') = event_query_dates (ve_bounds e) in
     get_account_events_page (ve_tonapi e) (ve_net e k) (ve_page_size e) cursor start end')"

definition derived_rows ::
  "event_env \<Rightarrow> py_dict list \<Rightarrow> (action_fault, live_transfer list \<times> live_swap list) result" where
  "derived_rows e events =
    (let repr = ta_repr (ve_tonapi e); account = ta_account (ve_tonapi e) in
     bind_result (if ve_transfers e then as_shape (normalize_account_events_response repr account events) else Inr [])
       (\<lambda>transfer_rows.
     bind_result (if ve_swaps e then as_shape (normalize_account_swaps_response repr events) else Inr [])
       (\<lambda>swap_rows.
     bind_result (if ve_mode e = Ingest then each tonapi_live_transfer transfer_rows else Inr []) (\<lambda>transfers.
     bind_result (if ve_mode e = Ingest then each tonapi_live_swap swap_rows else Inr []) (\<lambda>swaps.
     Inr (transfers, swaps))))))"

definition ev_page ::
  "event_env \<Rightarrow> pyval \<Rightarrow> event_state \<Rightarrow>
   (page_fault, checked_page \<times> event_scan \<times> live_transfer list \<times> live_swap list) result" where
  "ev_page e v s =
    bind_result (validate_event_page (ve_digest e) v (ev_cursor s) (ve_page_size e)) (\<lambda>p.
    bind_result (scan_events (ve_digest e) (ve_bounds e) (cp_rows p)
        \<lparr> es_seen = ev_seen s, es_lt = ev_lt s, es_time = ev_time s, es_duplicates = 0, es_accepted = [],
          es_in_progress = False, es_crossed = False \<rparr>) (\<lambda>c.
    case derived_rows e (es_accepted c) of
      Inl _ \<Rightarrow> Inl Actions_Not_Derivable
    | Inr (transfers, swaps) \<Rightarrow> Inr (p, c, transfers, swaps)))"

definition ev_error_page :: "event_env \<Rightarrow> nat \<Rightarrow> pyval \<Rightarrow> string \<Rightarrow> event_state \<Rightarrow> event_state" where
  "ev_error_page e k v code s =
    s\<lparr> ev_pages := ev_pages s @ [error_page_evidence (ve_digest e) (ve_first e + int k) (ev_cursor s)
        (ve_page_size e) v code] \<rparr>"

definition ev_extend ::
  "event_env \<Rightarrow> nat \<Rightarrow> checked_page \<Rightarrow> event_scan \<Rightarrow> live_transfer list \<Rightarrow> live_swap list \<Rightarrow> event_state \<Rightarrow> event_state" where
  "ev_extend e k p c transfers swaps s =
    s\<lparr> ev_pages := ev_pages s @ [checked_page_evidence (ve_first e + int k) (ev_cursor s) (ve_page_size e) p
          (length (es_accepted c)) (es_duplicates c)],
       ev_raw := ev_raw s + cp_raw p, ev_duplicates := ev_duplicates s + es_duplicates c,
       ev_seen := es_seen c, ev_lt := es_lt c, ev_time := es_time c,
       ev_accepted := ev_accepted s @ es_accepted c, ev_transfers := ev_transfers s @ transfers,
       ev_swaps := ev_swaps s @ swaps, ev_in_progress := ev_in_progress s \<or> es_in_progress c \<rparr>"

definition ev_decide :: "event_env \<Rightarrow> bool \<Rightarrow> checked_page \<Rightarrow> event_scan \<Rightarrow> string option \<times> loop_end option" where
  "ev_decide e in_progress p c =
    (if ve_mode e = Preview then (cp_cursor p, Some (finished ''preview_only'' ''preview_page_limit''))
     else if ve_bounds e = None then (cp_cursor p, Some (finished ''incomplete'' ''legacy_unavailable''))
     else if cp_raw p = 0 \<or> es_crossed c then
       (if cp_raw p = 0 then None else cp_cursor p,
        Some (if in_progress then finished ''incomplete'' ''provider_event_in_progress''
          else finished ''complete'' (if cp_raw p = 0 then ''provider_terminal'' else ''requested_start_crossed'')))
     else (cp_cursor p, None))"

fun ev_loop :: "event_env \<Rightarrow> nat \<Rightarrow> nat \<Rightarrow> event_state \<Rightarrow> loop_end \<times> event_state" where
  "ev_loop e 0 k s = (finished ''incomplete'' ''page_cap_reached'', s)"
| "ev_loop e (Suc n) k s =
    (case event_request e k (ev_cursor s) of
       Provider_Failed code \<Rightarrow>
         let protocol = (code = error_protocol); code' = (if protocol then ''protocol_error'' else code) in
         (failed_loop (ev_accepted s = []) (if protocol then ''protocol_error'' else ''provider_error'') code',
          ev_error_page e k PNone code' s)
     | Provider_Ok v \<Rightarrow> (case ev_page e v s of
         Inl _ \<Rightarrow> (failed_loop (ev_accepted s = []) ''protocol_error'' ''protocol_error'',
           ev_error_page e k v ''protocol_error'' s)
       | Inr (p, c, transfers, swaps) \<Rightarrow>
           let s' = ev_extend e k p c transfers swaps s; (cursor, done) = ev_decide e (ev_in_progress s') p c;
               s'' = s'\<lparr> ev_cursor := cursor \<rparr> in
           (case done of Some r \<Rightarrow> (r, s'') | None \<Rightarrow> ev_loop e n (Suc k) s'')))"

section \<open>The acquisition\<close>

definition event_contract :: string where "event_contract = ''tonapi_account_events_display_v1''"

definition fresh_ev :: "string option \<Rightarrow> event_state" where
  "fresh_ev cursor =
    \<lparr> ev_pages = [], ev_accepted = [], ev_transfers = [], ev_swaps = [], ev_seen = [], ev_lt = None,
      ev_time = None, ev_raw = 0, ev_duplicates = 0, ev_cursor = cursor, ev_in_progress = False \<rparr>"

definition event_stream ::
  "(int \<times> int) option \<Rightarrow> int \<Rightarrow> int \<Rightarrow> loop_end \<Rightarrow> event_state \<Rightarrow> stream_evidence" where
  "event_stream bounds page_size page_cap r s =
    \<lparr> se_key = ''account_events'', se_contract = event_contract,
      se_scope = (if bounds \<noteq> None then ''provider_display_events'' else ''legacy_unavailable''),
      se_bounds = bounds, se_page_size = page_size, se_page_cap = page_cap,
      se_completion = le_completion r, se_reason = le_reason r, se_raw = ev_raw s,
      se_normalized = int (length (ev_accepted s)), se_duplicates = int (ev_duplicates s),
      se_first_cursor = (case ev_pages s of [] \<Rightarrow> None | p # _ \<Rightarrow> pe_request p),
      se_terminal_cursor = ev_cursor s, se_verified = (bounds \<noteq> None \<and> le_completion r = ''complete''),
      se_error = le_error r, se_pages = ev_pages s \<rparr>"

record event_outcome =
  oo_raw :: int
  oo_transfers :: "live_transfer list"
  oo_swaps :: "live_swap list"
  oo_stream :: stream_evidence
  oo_fatal :: bool
  oo_incomplete :: bool

definition event_outcome_of ::
  "(int \<times> int) option \<Rightarrow> int \<Rightarrow> int \<Rightarrow> loop_end \<Rightarrow> event_state \<Rightarrow> event_outcome" where
  "event_outcome_of bounds page_size page_cap r s =
    \<lparr> oo_raw = ev_raw s, oo_transfers = ev_transfers s, oo_swaps = ev_swaps s,
      oo_stream = event_stream bounds page_size page_cap r s, oo_fatal = le_fatal r,
      oo_incomplete = le_completion r \<in> {''preview_only'', ''incomplete'', ''error''} \<rparr>"

definition fetch_event_acquisition ::
  "live_settings \<Rightarrow> tonapi \<Rightarrow> (nat \<Rightarrow> int \<Rightarrow> string option \<Rightarrow> int option \<Rightarrow> int option \<Rightarrow> fetched) \<Rightarrow>
   (pyval \<Rightarrow> string) \<Rightarrow> acquisition_request \<Rightarrow> acquisition_mode \<Rightarrow> bool \<Rightarrow> bool \<Rightarrow> event_outcome" where
  "fetch_event_acquisition lv ta net digest q mode transfers swaps =
    (let page_size = clamp 100 (lv_event_limit lv); configured = clamp 100 (lv_event_pages lv) in
     case bind_result (resolved_transaction_bounds q) (\<lambda>bounds.
         bind_result (resume_position q ''account_events'') (\<lambda>position. Inr (bounds, position))) of
       Inl _ \<Rightarrow> event_outcome_of None page_size 1 (failed_loop True ''protocol_error'' ''protocol_error'')
         (fresh_ev None)
     | Inr (bounds, cursor, first) \<Rightarrow>
         let page_cap = page_cap_of mode bounds q configured;
             env = \<lparr> ve_tonapi = ta, ve_net = net, ve_digest = digest, ve_mode = mode, ve_bounds = bounds,
                     ve_page_size = page_size, ve_first = first, ve_transfers = transfers, ve_swaps = swaps \<rparr>;
             (r, s) = ev_loop env (nat page_cap) 0 (fresh_ev cursor) in
         event_outcome_of bounds page_size page_cap r s)"

end
