(* ===== verification/Live_Activity.thy ===== *)
theory Live_Activity
  imports Event_Acquisition
begin

text \<open>
  \<open>TonapiWalletActivityLiveAdapter._fetch_live_activity\<close> of \<open>backend/adapters/wallet_activity.py\<close>: the
  surfaces of one request, fetched one after the other, and the status of the whole; with the balance
  and jetton requests of \<open>backend/adapters/tonapi.py\<close> that two of the surfaces make.

  \<open>Inl\<close> is an exception that leaves the adapter.  Texts for people and clock readings are left out.
\<close>

section \<open>Balances\<close>

text \<open>\<open>d.get(k, other)\<close>\<close>

definition dget_or :: "py_dict \<Rightarrow> string \<Rightarrow> pyval \<Rightarrow> pyval" where
  "dget_or d k v = (case map_of d k of None \<Rightarrow> v | Some w \<Rightarrow> w)"

definition py_or :: "pyval \<Rightarrow> pyval \<Rightarrow> pyval" where
  "py_or a b = (if truthy a then a else b)"

definition normalize_account_balance_response ::
  "(pyval \<Rightarrow> string) \<Rightarrow> string \<Rightarrow> pyval \<Rightarrow> (shape_fault, py_dict) result" where
  "normalize_account_balance_response repr account payload =
    bind_result (as_dict Response_Not_Object payload) (\<lambda>d.
      let nested = or_empty (dget d ''account''); balance = dget_or d ''balance'' (dget nested ''balance'') in
      ensure (balance \<noteq> PNone) Rows_Not_List
       (Inr [(''wallet_address'', PStr account), (''asset'', PStr ''TON''),
         (''balance'', of_string (optional_string repr balance)), (''decimals'', PInt 9),
         (''account_status'', of_string (optional_string repr (dget_or d ''status'' (dget nested ''status'')))),
         (''is_scam'', dget_or d ''is_scam'' (dget nested ''is_scam'')), (''source'', PStr ''tonapi'')]))"

text \<open>A \<open>ValueError\<close> of these two responses is a provider error, not a protocol error.\<close>

definition structure_failure :: "('e, pyval) result \<Rightarrow> provider_result" where
  "structure_failure r = (case r of Inl _ \<Rightarrow> Provider_Failed error_provider | Inr v \<Rightarrow> Provider_Ok v)"

definition balance_page :: "string \<Rightarrow> pyval \<Rightarrow> pyval" where
  "balance_page account balance = PDict [(''wallet_address'', PStr account), (''balance'', balance)]"

definition get_account_balance_preview :: "tonapi \<Rightarrow> fetched \<Rightarrow> provider_result" where
  "get_account_balance_preview ta response =
    (case optional_string (ta_repr ta) (PStr (ta_account ta)) of
       None \<Rightarrow> Provider_Failed error_provider
     | Some account \<Rightarrow>
         if ta_mock ta then Provider_Ok (balance_page account PNone)
         else (case response of
           Fetch_Failed e \<Rightarrow> Provider_Failed e
         | Fetched payload \<Rightarrow> structure_failure
             (bind_result (normalize_account_balance_response (ta_repr ta) account payload)
               (\<lambda>d. Inr (balance_page account (PDict d))))))"

section \<open>Jettons\<close>

definition normalize_jetton_balance ::
  "(pyval \<Rightarrow> string) \<Rightarrow> string \<Rightarrow> py_dict \<Rightarrow> (shape_fault, py_dict) result" where
  "normalize_jetton_balance repr account raw =
    (let jetton = or_empty (dget raw ''jetton'');
         address = optional_string repr (py_or (py_or (py_or (dget jetton ''address'') (dget jetton ''master''))
           (dget raw ''jetton_address'')) (dget raw ''jetton_master''));
         wallet = (case dget raw ''wallet_address'' of PDict w \<Rightarrow> dget w ''address'' | v \<Rightarrow> v) in
     ensure (address \<noteq> None) Hash_Not_Canonical
    (bind_result (optional_int (dget jetton ''decimals'')) (\<lambda>decimals. Inr
      [(''wallet_address'', PStr account), (''jetton_address'', of_string address),
       (''jetton_name'', of_string (optional_string repr (dget jetton ''name''))),
       (''jetton_symbol'', of_string (optional_string repr (dget jetton ''symbol''))),
       (''balance'', of_string (optional_string repr (dget raw ''balance''))),
       (''decimals'', of_int decimals), (''image'', of_string (optional_string repr (dget jetton ''image''))),
       (''price_usd'', of_string (optional_string repr (dget raw ''price''))),
       (''wallet_contract_address'', of_string (optional_string repr wallet)), (''source'', PStr ''tonapi'')])))"

definition normalize_account_jettons_response ::
  "(pyval \<Rightarrow> string) \<Rightarrow> string \<Rightarrow> pyval \<Rightarrow> (shape_fault, py_dict list) result" where
  "normalize_account_jettons_response repr account payload =
    bind_result (as_dict Response_Not_Object payload) (\<lambda>d.
      case dget d ''balances'' of
        PList rows \<Rightarrow> each_row (\<lambda>i v. bind_result (as_dict (Row_Not_Object i) v)
          (normalize_jetton_balance repr account)) 0 rows
      | _ \<Rightarrow> Inl Rows_Not_List)"

definition jettons_page :: "string \<Rightarrow> py_dict list \<Rightarrow> nat \<Rightarrow> pyval" where
  "jettons_page account preview count =
    PDict [(''wallet_address'', PStr account), (''jettons'', PList (map PDict preview)),
      (''preview_count'', PInt (int (length preview))), (''total_jettons'', PInt (int count))]"

definition get_account_jettons_preview :: "tonapi \<Rightarrow> fetched \<Rightarrow> int \<Rightarrow> provider_result" where
  "get_account_jettons_preview ta response limit =
    (case optional_string (ta_repr ta) (PStr (ta_account ta)) of
       None \<Rightarrow> Provider_Failed error_provider
     | Some account \<Rightarrow>
         if limit < 1 then Provider_Failed error_provider
         else if ta_mock ta then Provider_Ok (jettons_page account [] 0)
         else (case response of
           Fetch_Failed e \<Rightarrow> Provider_Failed e
         | Fetched payload \<Rightarrow> structure_failure
             (bind_result (normalize_account_jettons_response (ta_repr ta) account payload)
               (\<lambda>rows. Inr (jettons_page account (take (nat limit) rows) (length rows))))))"

section \<open>Snapshots\<close>

record live_balance =
  lb_asset :: string
  lb_balance :: "string option"
  lb_usd :: "string option"

definition native_balance_snapshot :: "py_dict \<Rightarrow> (action_fault, live_balance) result" where
  "native_balance_snapshot d =
    bind_result (as_amount (scaled_balance_string (raw_field ''balance'' d)
      (case map_of d ''decimals'' of None \<Rightarrow> Some 9 | Some _ \<Rightarrow> int_field ''decimals'' d)))
      (\<lambda>balance. Inr \<lparr> lb_asset = ''TON'', lb_balance = balance, lb_usd = None \<rparr>)"

text \<open>The product of two decimals in the context of the thread.\<close>

definition decimal_times :: "decimal \<Rightarrow> decimal \<Rightarrow> (amount_error, decimal) result" where
  "decimal_times a b = in_context
    \<lparr> dc_negative = (dc_negative a \<noteq> dc_negative b), dc_coefficient = dc_coefficient a * dc_coefficient b,
      dc_exponent = dc_exponent a + dc_exponent b \<rparr>"

definition balance_usd :: "string option \<Rightarrow> string option \<Rightarrow> (amount_error, string option) result" where
  "balance_usd balance price =
    (case (optional_decimal balance, optional_decimal price) of
       (Some b, Some p) \<Rightarrow> bind_result (decimal_times b p) (\<lambda>v.
         bind_result (fixed_decimal_string usd_places v) (\<lambda>t. Inr (Some t)))
     | _ \<Rightarrow> Inr None)"

definition jetton_balance_snapshot :: "py_dict \<Rightarrow> (action_fault, live_balance) result" where
  "jetton_balance_snapshot d =
    bind_result (as_amount (scaled_balance_string (raw_field ''balance'' d) (int_field ''decimals'' d))) (\<lambda>balance.
    bind_result (as_amount (balance_usd balance (raw_field ''price_usd'' d))) (\<lambda>usd. Inr
      \<lparr> lb_asset = or_text (or_else (text_field ''jetton_symbol'' d) (text_field ''jetton_address'' d)) ''UNKNOWN_JETTON'',
        lb_balance = balance, lb_usd = usd \<rparr>))"

section \<open>The surfaces of a request\<close>

definition supported_surfaces :: "string list" where
  "supported_surfaces = [''balances'', ''jettons'', ''transactions'', ''transfers'', ''swaps'']"

text \<open>What the surfaces leave behind, in the order they are fetched.\<close>

record live_state =
  ls_raw :: int
  ls_ok :: "string list"
  ls_failed :: "string list"
  ls_unavailable :: "string list"
  ls_incomplete :: "string list"
  ls_streams :: "stream_evidence list"
  ls_balances :: "live_balance list"
  ls_transactions :: "live_transaction list"
  ls_transfers :: "live_transfer list"
  ls_swaps :: "live_swap list"

definition surfaces_failed :: "string list \<Rightarrow> live_state \<Rightarrow> live_state" where
  "surfaces_failed names s =
    s\<lparr> ls_unavailable := ls_unavailable s @ names, ls_failed := ls_failed s @ names \<rparr>"

definition surfaces_ok :: "string list \<Rightarrow> live_state \<Rightarrow> live_state" where
  "surfaces_ok names s = s\<lparr> ls_ok := ls_ok s @ names \<rparr>"

record live_source =
  so_tonapi :: tonapi
  so_settings :: live_settings
  so_jetton_limit :: int
  so_balance :: fetched
  so_jettons :: fetched
  so_transactions :: "nat \<Rightarrow> int \<Rightarrow> string option \<Rightarrow> fetched"
  so_events :: "nat \<Rightarrow> int \<Rightarrow> string option \<Rightarrow> int option \<Rightarrow> int option \<Rightarrow> fetched"
  so_digest :: "pyval \<Rightarrow> string"

definition fetch_balances ::
  "live_source \<Rightarrow> acquisition_mode \<Rightarrow> live_state \<Rightarrow> (action_fault, live_state) result" where
  "fetch_balances so mode s =
    (case get_account_balance_preview (so_tonapi so) (so_balance so) of
       Provider_Failed _ \<Rightarrow> Inr (surfaces_failed [''balances''] s)
     | Provider_Ok v \<Rightarrow> (case dget (or_empty v) ''balance'' of
         PDict native \<Rightarrow>
           let s' = surfaces_ok [''balances''] (s\<lparr> ls_raw := ls_raw s + 1 \<rparr>) in
           if mode = Ingest
           then bind_result (native_balance_snapshot native) (\<lambda>b. Inr (s'\<lparr> ls_balances := ls_balances s' @ [b] \<rparr>))
           else Inr s'
       | _ \<Rightarrow> Inr (surfaces_failed [''balances''] s)))"

definition safe_int :: "pyval \<Rightarrow> int \<Rightarrow> int" where
  "safe_int v other = (case int_of v of Inl _ \<Rightarrow> other | Inr i \<Rightarrow> i)"

definition fetch_jettons ::
  "live_source \<Rightarrow> acquisition_mode \<Rightarrow> live_state \<Rightarrow> (action_fault, live_state) result" where
  "fetch_jettons so mode s =
    (case get_account_jettons_preview (so_tonapi so) (so_jettons so) (so_jetton_limit so) of
       Provider_Failed _ \<Rightarrow> Inr (surfaces_failed [''jettons''] s)
     | Provider_Ok v \<Rightarrow>
         let d = or_empty v; rows = (case dget d ''jettons'' of PList rows \<Rightarrow> rows | _ \<Rightarrow> []);
             s' = surfaces_ok [''jettons'']
               (s\<lparr> ls_raw := ls_raw s + safe_int (dget d ''total_jettons'') (int (length rows)) \<rparr>) in
         if mode = Ingest
         then bind_result (each jetton_balance_snapshot (dict_rows rows))
           (\<lambda>bs. Inr (s'\<lparr> ls_balances := ls_balances s' @ bs \<rparr>))
         else Inr s')"

definition fetch_transactions ::
  "live_source \<Rightarrow> acquisition_request \<Rightarrow> acquisition_mode \<Rightarrow> live_state \<Rightarrow> (action_fault, live_state) result" where
  "fetch_transactions so q mode s =
    (let o' = fetch_transaction_acquisition (so_settings so) (so_tonapi so) (so_transactions so) (so_digest so) q mode in
     bind_result (each tonapi_live_transaction (to_rows o')) (\<lambda>rows.
       let s' = s\<lparr> ls_raw := ls_raw s + to_raw o', ls_transactions := ls_transactions s @ rows,
                  ls_streams := ls_streams s @ [to_stream o'],
                  ls_incomplete := ls_incomplete s @ (if to_incomplete o' then [''transactions''] else []) \<rparr> in
       Inr (if to_fatal o' then surfaces_failed [''transactions''] s' else surfaces_ok [''transactions''] s')))"

definition event_surfaces :: "string list \<Rightarrow> string list" where
  "event_surfaces requested = filter (\<lambda>x. x \<in> set requested) [''transfers'', ''swaps'']"

definition fetch_events ::
  "live_source \<Rightarrow> acquisition_request \<Rightarrow> acquisition_mode \<Rightarrow> string list \<Rightarrow> live_state \<Rightarrow> live_state" where
  "fetch_events so q mode names s =
    (let o' = fetch_event_acquisition (so_settings so) (so_tonapi so) (so_events so) (so_digest so) q mode
           (''transfers'' \<in> set names) (''swaps'' \<in> set names);
         s' = s\<lparr> ls_raw := ls_raw s + oo_raw o', ls_transfers := ls_transfers s @ oo_transfers o',
                ls_swaps := ls_swaps s @ oo_swaps o', ls_streams := ls_streams s @ [oo_stream o'],
                ls_incomplete := ls_incomplete s @ names \<rparr> in
     if oo_fatal o' then surfaces_failed names s' else surfaces_ok names s')"

section \<open>The result\<close>

record live_result =
  lr_status :: string
  lr_source :: string
  lr_state :: live_state

definition fresh_live :: "string list \<Rightarrow> live_state" where
  "fresh_live requested =
    \<lparr> ls_raw = 0, ls_ok = [], ls_failed = [],
      ls_unavailable = filter (\<lambda>x. x \<notin> set supported_surfaces) requested, ls_incomplete = [],
      ls_streams = [], ls_balances = [], ls_transactions = [], ls_transfers = [], ls_swaps = [] \<rparr>"

definition limiting_incomplete :: "live_state \<Rightarrow> bool" where
  "limiting_incomplete s \<longleftrightarrow>
    (\<exists>x \<in> set (ls_streams s). se_completion x \<in> {''incomplete'', ''error''} \<and> se_reason x \<noteq> ''legacy_unavailable'')"

definition live_result_of :: "string list \<Rightarrow> live_state \<Rightarrow> live_result" where
  "live_result_of requested s0 =
    (let s = s0\<lparr> ls_unavailable := first_occurrences (ls_unavailable s0),
                ls_incomplete := first_occurrences (ls_incomplete s0) \<rparr>;
         display = event_surfaces requested \<noteq> [] in
     if ls_failed s \<noteq> [] \<and> ls_ok s = [] then \<lparr> lr_status = ''error'', lr_source = ''error'', lr_state = s \<rparr>
     else
       \<lparr> lr_status = (if ls_unavailable s \<noteq> [] \<or> display \<or> limiting_incomplete s then ''partial'' else ''success''),
         lr_source = (if ls_failed s \<noteq> [] \<or> display \<or> limiting_incomplete s then ''limited'' else ''live''),
         lr_state = s \<rparr>)"

definition when_requested ::
  "string \<Rightarrow> string list \<Rightarrow> (live_state \<Rightarrow> (action_fault, live_state) result) \<Rightarrow> live_state \<Rightarrow>
   (action_fault, live_state) result" where
  "when_requested name requested f s = (if name \<in> set requested then f s else Inr s)"

definition fetch_live_activity ::
  "live_source \<Rightarrow> acquisition_request \<Rightarrow> string list \<Rightarrow> acquisition_mode \<Rightarrow> (action_fault, live_result) result" where
  "fetch_live_activity so q requested mode =
    (let s = fresh_live requested in
     if filter (\<lambda>x. x \<in> set requested) supported_surfaces = []
     then Inr \<lparr> lr_status = (if ls_unavailable s \<noteq> [] then ''partial'' else ''success''), lr_source = ''live'', lr_state = s \<rparr>
     else bind_result (when_requested ''balances'' requested (fetch_balances so mode) s)
       (\<lambda>s. bind_result (when_requested ''jettons'' requested (fetch_jettons so mode) s)
       (\<lambda>s. bind_result (when_requested ''transactions'' requested (fetch_transactions so q mode) s)
       (\<lambda>s. let names = event_surfaces requested in
         Inr (live_result_of requested (if names = [] then s else fetch_events so q mode names s))))))"

end
