(* ===== verification/Canonical_Json.thy ===== *)
theory Canonical_Json
  imports Prelude
begin

text \<open>
  The canonical JSON documents that \<open>backend/services/wallet_case_sync_manifests.py\<close> and
  \<open>backend/services/wallet_case_stream_checkpoints.py\<close> store and address by their SHA-256 digest:
  \<open>json.dumps\<close> with the options the code passes, \<open>json.loads\<close>, and the verification of a stored
  text.  Reading a canonical text gives its document back.

  Strings are Latin-1 here, so an escape beyond one byte is rejected.  Floating point numbers are
  opaque: \<open>of_text\<close> is the number a token denotes, \<open>to_text\<close> its \<open>repr\<close>, \<open>None\<close> for the values
  \<open>allow_nan=False\<close> refuses.
\<close>

section \<open>Writing\<close>

definition quote :: char where "quote = CHR 0x22"
definition escape_char :: char where "escape_char = CHR 0x5C"

text \<open>\<open>ensure_ascii\<close>: what is not printable ASCII is escaped.\<close>

definition json_char :: "char \<Rightarrow> string" where
  "json_char c =
    (if c = quote \<or> c = escape_char then [escape_char, c]
     else if c = CHR 0x0A then [escape_char, CHR ''n''] else if c = CHR 0x0D then [escape_char, CHR ''r'']
     else if c = CHR 0x09 then [escape_char, CHR ''t''] else if c = CHR 0x0C then [escape_char, CHR ''f'']
     else if c = CHR 0x08 then [escape_char, CHR ''b'']
     else if 32 \<le> (of_char c :: nat) \<and> (of_char c :: nat) \<le> 126 then [c]
     else [escape_char, CHR ''u'', CHR ''0'', CHR ''0''] @ hex_of_byte (of_char c))"

definition json_string :: "string \<Rightarrow> string" where
  "json_string s = quote # concat (map json_char s) @ [quote]"

fun joined :: "string list \<Rightarrow> string" where
  "joined [] = []"
| "joined [s] = s"
| "joined (s # ss) = s @ CHR '','' # joined ss"

text \<open>\<open>json.dumps(..., sort_keys=True, separators=(",", ":"))\<close>, and the values it refuses.\<close>

type_synonym float_text = "nat \<Rightarrow> string option"

definition json_entry :: "string \<times> string \<Rightarrow> string" where
  "json_entry e = json_string (fst e) @ CHR '':'' # snd e"

primrec json_text :: "float_text \<Rightarrow> pyval \<Rightarrow> string" where
  "json_text to_text PNone = ''null''"
| "json_text to_text (PBool b) = (if b then ''true'' else ''false'')"
| "json_text to_text (PInt i) = show_int i"
| "json_text to_text (PStr s) = json_string s"
| "json_text to_text (PList vs) = CHR ''['' # joined (map (json_text to_text) vs) @ '']''"
| "json_text to_text (PDict d) =
    CHR ''{'' # joined (map json_entry (sort_key fst (map (map_prod id (json_text to_text)) d))) @ ''}''"
| "json_text to_text (POther n) = (case to_text n of None \<Rightarrow> [] | Some s \<Rightarrow> s)"

definition int_fits :: "int \<Rightarrow> bool" where
  "int_fits i \<longleftrightarrow> length (show_nat (nat \<bar>i\<bar>)) \<le> max_str_digits"

primrec json_ok :: "float_text \<Rightarrow> pyval \<Rightarrow> bool" where
  "json_ok to_text PNone = True"
| "json_ok to_text (PBool b) = True"
| "json_ok to_text (PInt i) = int_fits i"
| "json_ok to_text (PStr s) = True"
| "json_ok to_text (PList vs) = list_all id (map (json_ok to_text) vs)"
| "json_ok to_text (PDict d) = list_all snd (map (map_prod id (json_ok to_text)) d)"
| "json_ok to_text (POther n) = (to_text n \<noteq> None)"

section \<open>Reading\<close>

definition skip_ws :: "string \<Rightarrow> string" where
  "skip_ws s = dropWhile (\<lambda>c. c \<in> {CHR '' '', CHR 0x09, CHR 0x0A, CHR 0x0D}) s"

definition nibble :: "char \<Rightarrow> nat" where
  "nibble c = (let n = of_char c in if n < 58 then n - 48 else if n < 71 then n - 55 else n - 87)"

definition parse_escape :: "string \<Rightarrow> (char \<times> string) option" where
  "parse_escape s =
    (case s of
       [] \<Rightarrow> None
     | c # r \<Rightarrow>
         if c = quote \<or> c = escape_char \<or> c = CHR ''/'' then Some (c, r)
         else if c = CHR ''n'' then Some (CHR 0x0A, r) else if c = CHR ''r'' then Some (CHR 0x0D, r)
         else if c = CHR ''t'' then Some (CHR 0x09, r) else if c = CHR ''f'' then Some (CHR 0x0C, r)
         else if c = CHR ''b'' then Some (CHR 0x08, r)
         else if c = CHR ''u'' \<and> 4 \<le> length r \<and> list_all is_hex (take 4 r) then
           (let n = foldl (\<lambda>a h. 16 * a + nibble h) 0 (take 4 r) in
            if n < 256 then Some (char_of n, drop 4 r) else None)
         else None)"

lemma parse_escape_shorter: "parse_escape s = Some (c, r) \<Longrightarrow> length r < length s"
  by (auto simp: parse_escape_def Let_def split: list.splits if_splits)

function parse_chars :: "string \<Rightarrow> (string \<times> string) option" where
  "parse_chars [] = None"
| "parse_chars (c # cs) =
    (if c = quote then Some ([], cs)
     else if (of_char c :: nat) < 32 then None
     else case (if c = escape_char then parse_escape cs else Some (c, cs)) of
       None \<Rightarrow> None
     | Some (d, r) \<Rightarrow> (case parse_chars r of None \<Rightarrow> None | Some (s, t) \<Rightarrow> Some (d # s, t)))"
  by pat_completeness auto
termination
  by (relation "measure length") (auto split: if_splits dest: parse_escape_shorter)

text \<open>The number token: an integer part, then a fraction and an exponent.\<close>

definition int_digits :: "string \<Rightarrow> string" where
  "int_digits t = (if t \<noteq> [] \<and> hd t = CHR ''0'' then [hd t] else takeWhile is_digit t)"

definition int_part :: "string \<Rightarrow> (string \<times> string) option" where
  "int_part s =
    (let signed = (s \<noteq> [] \<and> hd s = CHR ''-''); t = (if signed then tl s else s);
         ds = int_digits t in
     if ds = [] then None else Some ((if signed then ''-'' else []) @ ds, drop (length ds) t))"

definition fraction_part :: "string \<Rightarrow> string \<times> string" where
  "fraction_part s =
    (case s of
       c # r \<Rightarrow> if c = CHR ''.'' \<and> takeWhile is_digit r \<noteq> []
         then (c # takeWhile is_digit r, dropWhile is_digit r) else ([], s)
     | [] \<Rightarrow> ([], s))"

definition exponent_part :: "string \<Rightarrow> string \<times> string" where
  "exponent_part s =
    (case s of
       c # r \<Rightarrow>
         let sign = (if r \<noteq> [] \<and> hd r \<in> {CHR ''+'', CHR ''-''} then [hd r] else []);
             t = drop (length sign) r in
         if c \<in> {CHR ''e'', CHR ''E''} \<and> takeWhile is_digit t \<noteq> []
         then (c # sign @ takeWhile is_digit t, dropWhile is_digit t) else ([], s)
     | [] \<Rightarrow> ([], s))"

definition parse_number :: "(string \<Rightarrow> nat) \<Rightarrow> string \<Rightarrow> (pyval \<times> string) option" where
  "parse_number of_text s =
    (case int_part s of
       None \<Rightarrow> None
     | Some (i, r) \<Rightarrow>
         let (f, r1) = fraction_part r; (e, r2) = exponent_part r1 in
         if f @ e = [] then
           (if length (filter is_digit i) \<le> max_str_digits then Some (PInt (read_int i), r) else None)
         else Some (POther (of_text (i @ f @ e)), r2))"

definition literals :: "(string \<Rightarrow> nat) \<Rightarrow> (string \<times> pyval) list" where
  "literals of_text =
    [(''null'', PNone), (''true'', PBool True), (''false'', PBool False),
     (''NaN'', POther (of_text ''NaN'')), (''Infinity'', POther (of_text ''Infinity'')),
     (''-Infinity'', POther (of_text ''-Infinity''))]"

definition parse_scalar :: "(string \<Rightarrow> nat) \<Rightarrow> string \<Rightarrow> (pyval \<times> string) option" where
  "parse_scalar of_text s =
    (case find (\<lambda>l. take (length (fst l)) s = fst l) (literals of_text) of
       Some (t, v) \<Rightarrow> Some (v, drop (length t) s)
     | None \<Rightarrow> parse_number of_text s)"

text \<open>The next character after white space, and what follows it.\<close>

definition next_char :: "string \<Rightarrow> (char \<times> string) option" where
  "next_char s = (case skip_ws s of [] \<Rightarrow> None | c # r \<Rightarrow> Some (c, r))"

text \<open>
  \<open>scan_once\<close>; \<open>parse_fuel\<close> shows that more fuel than twice the length of the text changes nothing.
  \<open>parse_pairs\<close> starts after the opening quote of a key.
\<close>

fun parse_value :: "(string \<Rightarrow> nat) \<Rightarrow> nat \<Rightarrow> string \<Rightarrow> (pyval \<times> string) option"
  and parse_items :: "(string \<Rightarrow> nat) \<Rightarrow> nat \<Rightarrow> string \<Rightarrow> (pyval list \<times> string) option"
  and parse_pairs :: "(string \<Rightarrow> nat) \<Rightarrow> nat \<Rightarrow> string \<Rightarrow> ((string \<times> pyval) list \<times> string) option" where
  "parse_value of_text 0 s = None"
| "parse_value of_text (Suc n) s =
    (case s of
       [] \<Rightarrow> None
     | c # cs \<Rightarrow>
         if c = quote then map_option (map_prod PStr id) (parse_chars cs)
         else if c = CHR ''['' then
           (case next_char cs of
              None \<Rightarrow> None
            | Some (d, r) \<Rightarrow> if d = CHR '']'' then Some (PList [], r)
                else map_option (map_prod PList id) (parse_items of_text n (d # r)))
         else if c = CHR ''{'' then
           (case next_char cs of
              None \<Rightarrow> None
            | Some (d, r) \<Rightarrow> if d = CHR ''}'' then Some (PDict [], r)
                else if d = quote
                then map_option (map_prod (\<lambda>ps. PDict (dict_of ps)) id) (parse_pairs of_text n r)
                else None)
         else parse_scalar of_text s)"
| "parse_items of_text 0 s = None"
| "parse_items of_text (Suc n) s =
    (case parse_value of_text n s of
       None \<Rightarrow> None
     | Some (v, r) \<Rightarrow> (case next_char r of
         None \<Rightarrow> None
       | Some (c, r1) \<Rightarrow>
           if c = CHR '']'' then Some ([v], r1)
           else if c = CHR '','' then map_option (map_prod ((#) v) id) (parse_items of_text n (skip_ws r1))
           else None))"
| "parse_pairs of_text 0 s = None"
| "parse_pairs of_text (Suc n) s =
    (case parse_chars s of
       None \<Rightarrow> None
     | Some (k, r) \<Rightarrow> (case next_char r of
         None \<Rightarrow> None
       | Some (c, r1) \<Rightarrow> if c \<noteq> CHR '':'' then None else (case parse_value of_text n (skip_ws r1) of
           None \<Rightarrow> None
         | Some (v, r2) \<Rightarrow> (case next_char r2 of
             None \<Rightarrow> None
           | Some (d, r3) \<Rightarrow>
               if d = CHR ''}'' then Some ([(k, v)], r3)
               else if d = CHR '','' then (case next_char r3 of
                 None \<Rightarrow> None
               | Some (q, r4) \<Rightarrow> if q = quote
                   then map_option (map_prod ((#) (k, v)) id) (parse_pairs of_text n r4) else None)
               else None))))"

definition json_loads :: "(string \<Rightarrow> nat) \<Rightarrow> string \<Rightarrow> pyval option" where
  "json_loads of_text s =
    (case parse_value of_text (Suc (2 * length s)) (skip_ws s) of
       Some (v, r) \<Rightarrow> if skip_ws r = [] then Some v else None
     | None \<Rightarrow> None)"

section \<open>Stored documents\<close>

datatype document_fault =
    Document_Json_Invalid | Document_Not_Canonical | Document_Hash_Mismatch
  | Document_Contract_Unsupported | Document_Digest_Not_Ascii

text \<open>
  \<open>verify_wallet_case_sync_manifest\<close> and \<open>verify_wallet_case_stream_checkpoint\<close>, which differ in the
  contract.  \<open>hmac.compare_digest\<close> takes ASCII text only.
\<close>

definition verify_document ::
  "(string \<Rightarrow> nat) \<Rightarrow> float_text \<Rightarrow> (string \<Rightarrow> string) \<Rightarrow> string \<Rightarrow> string \<Rightarrow> string \<Rightarrow>
   (document_fault, (string \<times> pyval) list) result" where
  "verify_document of_text to_text sha256 contract t expected =
    (case json_loads of_text t of
       Some (PDict d) \<Rightarrow>
         ensure (json_ok to_text (PDict d)) Document_Json_Invalid
        (ensure (json_text to_text (PDict d) = t) Document_Not_Canonical
        (ensure (list_all (\<lambda>c. (of_char c :: nat) < 128) expected) Document_Digest_Not_Ascii
        (ensure (sha256 t = expected) Document_Hash_Mismatch
        (ensure (py_eq (dget d ''contract_version'') (PStr contract)) Document_Contract_Unsupported
        (Inr d)))))
     | _ \<Rightarrow> Inl Document_Json_Invalid)"

section \<open>Reading what was written\<close>

lemma joined_Cons: "joined (s # ss) = s @ (if ss = [] then [] else CHR '','' # joined ss)"
  by (cases ss) auto

lemma hex_of_byte_read:
  "n < 256 \<Longrightarrow> list_all is_hex (hex_of_byte n) \<and> foldl (\<lambda>a h. 16 * a + nibble h) 0 (''00'' @ hex_of_byte n) = n"
proof -
  assume n: "n < 256"
  have digit: "is_hex (hex_digits ! k) \<and> nibble (hex_digits ! k) = k" if "k < 16" for k
  proof -
    from that have "k \<in> set [0..<16]" by simp
    then show ?thesis
      by (auto simp: upt_rec hex_digits_def is_hex_def nibble_def)
  qed
  have "nibble CHR ''0'' = 0" by (simp add: nibble_def)
  with n digit [of "n div 16"] digit [of "n mod 16"] show ?thesis
    by (simp add: hex_of_byte_def)
qed

lemma json_char_cases:
  "(\<exists>d. json_char c = [escape_char, d] \<and> (\<forall>t. parse_escape (d # t) = Some (c, t))) \<or>
   (32 \<le> (of_char c :: nat) \<and> c \<noteq> quote \<and> c \<noteq> escape_char \<and> json_char c = [c]) \<or>
   json_char c = [escape_char, CHR ''u'', CHR ''0'', CHR ''0''] @ hex_of_byte (of_char c)"
  by (auto simp: json_char_def parse_escape_def quote_def escape_char_def)

lemma parse_escape_byte:
  "parse_escape ([CHR ''u'', CHR ''0'', CHR ''0''] @ hex_of_byte (of_char c) @ t) = Some (c, t)"
proof -
  have h: "length (hex_of_byte (of_char c)) = 2" by (simp add: hex_of_byte_def)
  have four: "take 4 ([CHR ''0'', CHR ''0''] @ hex_of_byte (of_char c) @ t) = ''00'' @ hex_of_byte (of_char c)"
    "drop 4 ([CHR ''0'', CHR ''0''] @ hex_of_byte (of_char c) @ t) = t"
    using h by (simp_all add: eval_nat_numeral)
  have "(of_char c :: nat) < 256" "is_hex CHR ''0''" by (simp_all add: is_hex_def)
  with four hex_of_byte_read [of "of_char c"] show ?thesis
    using h by (simp add: parse_escape_def quote_def escape_char_def Let_def)
qed

lemma parse_json_char:
  "parse_chars (json_char c @ t) = map_option (map_prod ((#) c) id) (parse_chars t)"
proof -
  have escaped: "parse_chars (escape_char # u) = map_option (map_prod ((#) c) id) (parse_chars t)"
    if "parse_escape u = Some (c, t)" for u
    using that by (auto simp: quote_def escape_char_def split: option.splits)
  from json_char_cases [of c] show ?thesis
  proof (elim disjE exE conjE)
    assume "json_char c = [escape_char, CHR ''u'', CHR ''0'', CHR ''0''] @ hex_of_byte (of_char c)"
    then show ?thesis using escaped [OF parse_escape_byte] by simp
  next
    fix d assume "json_char c = [escape_char, d]" "\<forall>t. parse_escape (d # t) = Some (c, t)"
    then show ?thesis using escaped [of "d # t"] by simp
  next
    assume "32 \<le> (of_char c :: nat)" "c \<noteq> quote" "c \<noteq> escape_char" "json_char c = [c]"
    then show ?thesis by (auto split: option.splits)
  qed
qed

lemma parse_json_string: "parse_chars (concat (map json_char s) @ quote # t) = Some (s, t)"
proof (induction s)
  case (Cons c s)
  have "parse_chars (json_char c @ concat (map json_char s) @ quote # t) = Some (c # s, t)"
    by (simp only: parse_json_char Cons.IH) simp
  then show ?case by simp
qed (simp add: quote_def)

text \<open>The documents of the code: no floating point, no key twice.\<close>

primrec json_plain :: "pyval \<Rightarrow> bool" where
  "json_plain PNone = True"
| "json_plain (PBool b) = True"
| "json_plain (PInt i) = int_fits i"
| "json_plain (PStr s) = True"
| "json_plain (PList vs) = list_all id (map json_plain vs)"
| "json_plain (PDict d) = (distinct (map fst d) \<and> list_all snd (map (map_prod id json_plain) d))"
| "json_plain (POther n) = False"

text \<open>The document with the keys of its dicts in order, as they are read back.\<close>

primrec key_sorted :: "pyval \<Rightarrow> pyval" where
  "key_sorted PNone = PNone"
| "key_sorted (PBool b) = PBool b"
| "key_sorted (PInt i) = PInt i"
| "key_sorted (PStr s) = PStr s"
| "key_sorted (PList vs) = PList (map key_sorted vs)"
| "key_sorted (PDict d) = PDict (sort_key fst (map (map_prod id key_sorted) d))"
| "key_sorted (POther n) = POther n"

definition ends_value :: "string \<Rightarrow> bool" where
  "ends_value rest \<longleftrightarrow> rest = [] \<or> hd rest \<in> set '',]}''"

lemma skip_ws_id: "c \<notin> {CHR '' '', CHR 0x09, CHR 0x0A, CHR 0x0D} \<Longrightarrow> skip_ws (c # s) = c # s"
  by (simp add: skip_ws_def)

lemma show_int_digits: "\<exists>c cs. show_int i = c # cs \<and> (c = CHR ''-'' \<or> is_digit c)"
  using show_nat_digits [of "nat i"] show_nat_nonempty [of "nat i"]
  by (cases "show_nat (nat i)") (auto simp: show_int_def)

definition value_start :: "char \<Rightarrow> bool" where
  "value_start c \<longleftrightarrow> c \<in> set ''-ntf[{'' \<or> c = quote \<or> is_digit c"

lemma json_text_start: "json_plain v \<Longrightarrow> \<exists>c cs. json_text to_text v = c # cs \<and> value_start c"
proof (cases v)
  case (PInt i)
  then show ?thesis using show_int_digits [of i] by (auto simp: value_start_def)
qed (auto simp: value_start_def json_string_def)

lemma value_start_skip: "value_start c \<Longrightarrow> skip_ws (c # s) = c # s \<and> c \<noteq> CHR '']'' \<and> c \<noteq> CHR ''}''"
  by (auto simp: value_start_def skip_ws_def quote_def is_digit_def dec_digits_def)

lemma takeWhile_show_nat:
  "ends_value rest \<Longrightarrow> takeWhile is_digit (show_nat n @ rest) = show_nat n"
  using show_nat_digits [of n]
  by (cases rest) (auto simp: takeWhile_append list_all_iff ends_value_def is_digit_def dec_digits_def)

lemma int_digits_nat:
  assumes "ends_value rest"
  shows "int_digits (show_nat n @ rest) = show_nat n"
proof (cases "n = 0")
  case True
  then show ?thesis by (simp add: int_digits_def show_nat.simps digit_char_def dec_digits_def)
next
  case False
  then show ?thesis using show_nat_hd [of n] takeWhile_show_nat [OF assms] by (simp add: int_digits_def)
qed

lemma int_part_show_int:
  assumes "ends_value rest"
  shows "int_part (show_int i @ rest) = Some (show_int i, rest)"
  using hd_show_nat_no_minus [of "nat i"]
  by (simp add: int_part_def show_int_def Let_def int_digits_nat [OF assms])

lemma digits_show_int: "filter is_digit (show_int i) = show_nat (nat \<bar>i\<bar>)"
  using show_nat_digits [of "nat \<bar>i\<bar>"]
  by (auto simp: show_int_def list_all_iff is_digit_def [of "CHR ''-''"] dec_digits_def)

lemma parse_number_int:
  assumes "ends_value rest" "int_fits i"
  shows "parse_number of_text (show_int i @ rest) = Some (PInt i, rest)"
proof -
  have "fraction_part rest = ([], rest)" "exponent_part rest = ([], rest)"
    using assms(1) by (auto simp: fraction_part_def exponent_part_def ends_value_def split: list.splits)
  then show ?thesis
    using assms(2) by (simp add: parse_number_def int_part_show_int [OF assms(1)] digits_show_int int_fits_def)
qed

text \<open>Lists and dicts, given that their parts are read back.\<close>

definition reads_back :: "(string \<Rightarrow> nat) \<Rightarrow> float_text \<Rightarrow> pyval \<Rightarrow> bool" where
  "reads_back of_text to_text v \<longleftrightarrow>
    (\<exists>c cs. json_text to_text v = c # cs \<and> value_start c) \<and>
    (\<forall>n rest. ends_value rest \<longrightarrow> length (json_text to_text v) \<le> n \<longrightarrow>
      parse_value of_text n (json_text to_text v @ rest) = Some (key_sorted v, rest))"

lemma reads_backD:
  "reads_back of_text to_text v \<Longrightarrow> ends_value rest \<Longrightarrow> length (json_text to_text v) \<le> n \<Longrightarrow>
     parse_value of_text n (json_text to_text v @ rest) = Some (key_sorted v, rest)"
  by (simp add: reads_back_def)

lemma reads_back_start:
  "reads_back of_text to_text v \<Longrightarrow> json_text to_text v \<noteq> [] \<and>
     skip_ws (json_text to_text v @ s) = json_text to_text v @ s"
  using value_start_skip by (fastforce simp: reads_back_def)

lemma next_char_simps: "c \<in> set '',]}:'' \<or> c = quote \<Longrightarrow> next_char (c # s) = Some (c, s)"
  by (auto simp: next_char_def skip_ws_def quote_def)

lemma ends_value_simps: "ends_value []" "c \<in> set '',]}'' \<Longrightarrow> ends_value (c # s)"
  by (simp_all add: ends_value_def)

lemma parse_items_back:
  assumes "reads_back of_text to_text v" "\<forall>u \<in> set vs. reads_back of_text to_text u"
    and "length (joined (map (json_text to_text) (v # vs))) < n"
  shows "parse_items of_text n (joined (map (json_text to_text) (v # vs)) @ CHR '']'' # rest) =
    Some (map key_sorted (v # vs), rest)"
  using assms
proof (induction vs arbitrary: v n)
  case Nil
  then obtain m where n: "n = Suc m" by (cases n) auto
  with Nil show ?case
    by (simp add: reads_backD ends_value_simps next_char_simps)
next
  case (Cons u us)
  then obtain m where n: "n = Suc m" by (cases n) auto
  define j where "j = joined (map (json_text to_text) (u # us))"
  have all: "joined (map (json_text to_text) (v # u # us)) = json_text to_text v @ CHR '','' # j"
    by (simp add: j_def)
  have u: "reads_back of_text to_text u" "\<forall>w \<in> set us. reads_back of_text to_text w" using Cons.prems(2) by auto
  have len: "length (json_text to_text v) + Suc (length j) \<le> m" using Cons.prems(3) n unfolding all by simp
  have skip: "skip_ws (j @ s) = j @ s" for s
    using reads_back_start [OF u(1)] by (simp add: j_def joined_Cons)
  have "length j < m" using len reads_back_start [OF Cons.prems(1), of "[]"] by (cases "json_text to_text v") auto
  then have "parse_items of_text m (j @ CHR '']'' # rest) = Some (map key_sorted (u # us), rest)"
    unfolding j_def by (rule Cons.IH [OF u])
  moreover have "parse_value of_text m (json_text to_text v @ CHR '','' # j @ CHR '']'' # rest) =
      Some (key_sorted v, CHR '','' # j @ CHR '']'' # rest)"
    by (rule reads_backD [OF Cons.prems(1)]) (use len in \<open>simp_all add: ends_value_simps\<close>)
  ultimately show ?case
    unfolding all n by (simp add: next_char_simps skip)
qed

definition entry_text :: "float_text \<Rightarrow> string \<times> pyval \<Rightarrow> string" where
  "entry_text to_text e = json_entry (map_prod id (json_text to_text) e)"

definition entry_rest :: "float_text \<Rightarrow> string \<times> pyval \<Rightarrow> string" where
  "entry_rest to_text e = concat (map json_char (fst e)) @ [quote, CHR '':''] @ json_text to_text (snd e)"

lemma entry_text_quote: "entry_text to_text e = quote # entry_rest to_text e"
  by (simp add: entry_text_def entry_rest_def json_entry_def json_string_def)

lemma parse_pairs_back:
  assumes "reads_back of_text to_text (snd e)" "\<forall>f \<in> set es. reads_back of_text to_text (snd f)"
    and "length (joined (map (entry_text to_text) (e # es))) < n"
  shows "parse_pairs of_text n (tl (joined (map (entry_text to_text) (e # es))) @ CHR ''}'' # rest) =
    Some (map (map_prod id key_sorted) (e # es), rest)"
  using assms
proof (induction es arbitrary: e n)
  case Nil
  then obtain m where n: "n = Suc m" by (cases n) auto
  have "length (json_text to_text (snd e)) \<le> m"
    using Nil.prems(3) n by (simp add: entry_text_quote entry_rest_def)
  then show ?case
    using reads_backD [OF Nil.prems(1), of "CHR ''}'' # rest" m] reads_back_start [OF Nil.prems(1)]
    by (simp add: n entry_text_quote entry_rest_def parse_json_string ends_value_simps next_char_simps prod_eq_iff)
next
  case (Cons f fs)
  then obtain m where n: "n = Suc m" by (cases n) auto
  define j where "j = joined (map (entry_text to_text) (f # fs))"
  have all: "joined (map (entry_text to_text) (e # f # fs)) = entry_text to_text e @ CHR '','' # j"
    by (simp add: j_def)
  have f: "reads_back of_text to_text (snd f)" "\<forall>g \<in> set fs. reads_back of_text to_text (snd g)" using Cons.prems(2) by auto
  have len: "length (json_text to_text (snd e)) + Suc (length j) \<le> m"
    using Cons.prems(3) n unfolding all by (simp add: entry_text_quote entry_rest_def)
  have j: "j = quote # tl j" by (simp add: j_def joined_Cons entry_text_quote)
  have "length j < m" using len by simp
  then have rest: "parse_pairs of_text m (tl j @ CHR ''}'' # rest) = Some (map (map_prod id key_sorted) (f # fs), rest)"
    unfolding j_def by (rule Cons.IH [OF f])
  have read: "parse_value of_text m (json_text to_text (snd e) @ CHR '','' # quote # tl j @ CHR ''}'' # rest) =
      Some (key_sorted (snd e), CHR '','' # quote # tl j @ CHR ''}'' # rest)"
  proof (rule reads_backD [OF Cons.prems(1)])
    show "length (json_text to_text (snd e)) \<le> m" using len by simp
  qed (simp add: ends_value_simps)
  have t: "tl (entry_text to_text e @ CHR '','' # j) @ CHR ''}'' # rest =
      concat (map json_char (fst e)) @ quote # CHR '':'' # json_text to_text (snd e) @ CHR '','' # quote # tl j @ CHR ''}'' # rest"
    by (subst j) (simp add: entry_text_quote entry_rest_def)
  show ?case
    unfolding all t n using reads_back_start [OF Cons.prems(1)]
    by (simp add: parse_json_string next_char_simps read rest prod_eq_iff)
qed

lemma insort_map_snd:
  "insort_key fst (map_prod id f x) (map (map_prod id f) xs) = map (map_prod id f) (insort_key fst x xs)"
  by (induction xs) auto

lemma sort_map_snd: "sort_key fst (map (map_prod id f) xs) = map (map_prod id f) (sort_key fst xs)"
proof (induction xs)
  case (Cons x xs)
  have "sort_key fst (y # ys) = insort_key fst y (sort_key fst ys)" for y :: "'a \<times> 'b" and ys by simp
  moreover have "sort_key fst (y # ys) = insort_key fst y (sort_key fst ys)" for y :: "'a \<times> 'c" and ys by simp
  ultimately show ?case by (simp only: list.map Cons.IH insort_map_snd)
qed simp

lemma json_text_dict:
  "json_text to_text (PDict d) = CHR ''{'' # joined (map (entry_text to_text) (sort_key fst d)) @ ''}''"
  by (simp add: sort_map_snd comp_def entry_text_def [abs_def])

lemma parse_scalar_int:
  assumes "ends_value rest" "int_fits i"
  shows "parse_scalar of_text (show_int i @ rest) = Some (PInt i, rest)"
proof -
  obtain c cs where c: "show_nat (nat \<bar>i\<bar>) = c # cs" "is_digit c"
    using show_nat_digits [of "nat \<bar>i\<bar>"] by (cases "show_nat (nat \<bar>i\<bar>)") auto
  then have "c \<notin> set ''ntfNI-''" by (auto simp: is_digit_def dec_digits_def)
  then have "find (\<lambda>l. take (length (fst l)) (show_int i @ rest) = fst l) (literals of_text) = None"
    using c(1) by (simp add: literals_def show_int_def abs_if split: if_splits)
  then show ?thesis using parse_number_int [OF assms] by (simp add: parse_scalar_def)
qed

lemma parse_scalar_literal:
  "parse_scalar of_text (''null'' @ rest) = Some (PNone, rest)"
  "parse_scalar of_text (''true'' @ rest) = Some (PBool True, rest)"
  "parse_scalar of_text (''false'' @ rest) = Some (PBool False, rest)"
  by (simp_all add: parse_scalar_def literals_def)

lemma parse_value_scalar:
  assumes "parse_scalar of_text (t @ rest) = Some r" "t = c # cs" "c \<in> set ''-ntf'' \<or> is_digit c" "length t \<le> n"
  shows "parse_value of_text n (t @ rest) = Some r"
proof -
  obtain m where "n = Suc m" using assms(2,4) by (cases n) auto
  moreover have "c \<noteq> quote" "c \<noteq> CHR ''[''" "c \<noteq> CHR ''{''"
    using assms(3) by (auto simp: quote_def is_digit_def dec_digits_def)
  ultimately show ?thesis using assms(1,2) by simp
qed

lemma list_reads_back:
  assumes "\<forall>v \<in> set vs. reads_back of_text to_text v"
  shows "reads_back of_text to_text (PList vs)"
proof -
  have "parse_value of_text n (json_text to_text (PList vs) @ rest) = Some (key_sorted (PList vs), rest)"
    if fuel: "length (json_text to_text (PList vs)) \<le> n" for n rest
  proof -
    obtain m where n: "n = Suc m" using fuel by (cases n) auto
    show ?thesis
    proof (cases vs)
      case Nil
      then show ?thesis by (simp add: n quote_def next_char_simps)
    next
      case (Cons u us)
      define j where "j = joined (map (json_text to_text) (u # us))"
      obtain c cs where c: "json_text to_text u = c # cs" "value_start c"
        using assms Cons by (auto simp: reads_back_def)
      then obtain j' where j': "j = c # j'" by (simp add: j_def joined_Cons)
      have shape: "json_text to_text (PList vs) = CHR ''['' # j @ '']''" by (simp add: Cons j_def)
      have "parse_items of_text m (j @ CHR '']'' # rest) = Some (map key_sorted vs, rest)"
        unfolding j_def Cons by (rule parse_items_back) (use assms fuel n in \<open>auto simp: Cons\<close>)
      then show ?thesis
        using value_start_skip [OF c(2)] unfolding shape j' by (simp add: n quote_def next_char_def)
    qed
  qed
  then show ?thesis by (simp add: reads_back_def value_start_def)
qed

lemma keys_sorted: "distinct (map fst d) \<Longrightarrow> distinct (map fst (map (map_prod id f) (sort_key fst d)))"
  by (simp add: comp_def distinct_map)

lemma dict_reads_back:
  assumes parts: "\<forall>e \<in> set d. reads_back of_text to_text (snd e)" and "distinct (map fst d)"
  shows "reads_back of_text to_text (PDict d)"
proof -
  note keys = keys_sorted [OF assms(2), of key_sorted]
  have sorted: "key_sorted (PDict d) = PDict (map (map_prod id key_sorted) (sort_key fst d))"
    by (simp add: sort_map_snd)
  have "parse_value of_text n (json_text to_text (PDict d) @ rest) = Some (key_sorted (PDict d), rest)"
    if fuel: "length (json_text to_text (PDict d)) \<le> n" for n rest
  proof -
    obtain m where n: "n = Suc m" using fuel by (cases n) auto
    show ?thesis
    proof (cases "sort_key fst d")
      case Nil
      then show ?thesis unfolding json_text_dict sorted by (simp add: n quote_def next_char_simps)
    next
      case (Cons e es)
      define j where "j = joined (map (entry_text to_text) (e # es))"
      have es: "\<forall>f \<in> set (e # es). reads_back of_text to_text (snd f)"
        unfolding Cons [symmetric] using parts by simp
      obtain j' where j': "j = quote # j'" by (simp add: j_def joined_Cons entry_text_quote)
      have shape: "json_text to_text (PDict d) = CHR ''{'' # j @ ''}''"
        unfolding json_text_dict Cons j_def by simp
      have "length j < m" using fuel unfolding shape n by simp
      then have "parse_pairs of_text m (tl j @ CHR ''}'' # rest) = Some (map (map_prod id key_sorted) (e # es), rest)"
        unfolding j_def by (intro parse_pairs_back) (use es in auto)
      then have "parse_pairs of_text m (j' @ CHR ''}'' # rest) = Some (map (map_prod id key_sorted) (e # es), rest)"
        by (simp only: j' list.sel)
      moreover have "quote \<noteq> CHR ''}''" "CHR ''{'' \<noteq> quote" by (simp_all add: quote_def)
      ultimately show ?thesis
        using dict_of_distinct [OF keys] unfolding shape sorted Cons j'
        by (simp add: n next_char_simps)
    qed
  qed
  then show ?thesis by (simp add: reads_back_def value_start_def)
qed

text \<open>Reading a canonical text gives its document.\<close>

lemma parse_json_text: "json_plain v \<Longrightarrow> reads_back of_text to_text v"
proof (induction v)
  case (PInt i)
  obtain c cs where c: "show_int i = c # cs" "c = CHR ''-'' \<or> is_digit c" using show_int_digits by blast
  then have "parse_value of_text n (show_int i @ rest) = Some (PInt i, rest)"
    if "ends_value rest" "length (show_int i) \<le> n" for n rest
    by (intro parse_value_scalar [OF parse_scalar_int]) (use that PInt in auto)
  then show ?case using json_text_start [OF PInt] by (simp add: reads_back_def)
next
  case (PStr s)
  have "parse_value of_text n (json_string s @ rest) = Some (PStr s, rest)" if "length (json_string s) \<le> n" for n rest
    using that by (cases n) (simp_all add: json_string_def parse_json_string)
  then show ?case using json_text_start [OF PStr] by (simp add: reads_back_def)
next
  case (PList vs)
  then show ?case by (intro list_reads_back) (auto simp: list_all_iff)
next
  case (PDict d)
  have "reads_back of_text to_text (snd e)" if "e \<in> set d" for e
    using PDict.IH [of e "snd e"] PDict.prems that by (cases e) (fastforce simp: list_all_iff)
  then show ?case using PDict.prems by (intro dict_reads_back) auto
next
  case (PBool b)
  then show ?case
    using json_text_start [OF PBool] parse_value_scalar [OF parse_scalar_literal(2)] parse_value_scalar [OF parse_scalar_literal(3)]
    by (simp add: reads_back_def)
next
  case PNone
  then show ?case
    using json_text_start [of PNone] parse_value_scalar [OF parse_scalar_literal(1)] by (simp add: reads_back_def)
qed simp

text \<open>The fuel suffices.\<close>

lemma skip_ws_length: "length (skip_ws s) \<le> length s"
  by (simp add: skip_ws_def length_dropWhile_le)

lemma next_char_length: "next_char s = Some (c, r) \<Longrightarrow> length r < length s"
  using skip_ws_length [of s] by (auto simp: next_char_def split: list.splits)

lemma parse_chars_length: "parse_chars s = Some (t, r) \<Longrightarrow> length r < length s"
proof (induction s arbitrary: t r rule: parse_chars.induct)
  case (2 c cs)
  then show ?case
    by (force split: if_splits option.splits dest: parse_escape_shorter)
qed simp

lemma int_part_length:
  assumes "int_part s = Some (i, r)"
  shows "length r < length s"
proof -
  from assms obtain t where t: "length t \<le> length s" "int_digits t \<noteq> []" "r = drop (length (int_digits t)) t"
    by (auto simp: int_part_def Let_def split: if_splits intro: that [of s] that [of "tl s"])
  then have "t \<noteq> []" by (auto simp: int_digits_def)
  then have "length r < length t" using t(2,3) by (cases "int_digits t"; cases t) auto
  then show ?thesis using t(1) by simp
qed

lemma fraction_part_length: "length (snd (fraction_part s)) \<le> length s"
  using length_dropWhile_le [of is_digit "tl s"] by (auto simp: fraction_part_def split: list.split)

lemma exponent_part_length: "length (snd (exponent_part s)) \<le> length s"
  using length_dropWhile_le [of is_digit "tl s"] length_dropWhile_le [of is_digit "tl (tl s)"]
  by (auto simp: exponent_part_def Let_def drop_Suc split: list.split)

lemma parse_number_length:
  assumes "parse_number of_text s = Some (v, r)"
  shows "length r < length s"
proof -
  obtain i r0 where i: "int_part s = Some (i, r0)" using assms by (auto simp: parse_number_def split: option.splits)
  have "length r \<le> length r0"
    using assms fraction_part_length [of r0] exponent_part_length [of "snd (fraction_part r0)"]
    by (auto simp: parse_number_def i split_beta split: if_splits)
  then show ?thesis using int_part_length [OF i] by simp
qed

lemma parse_scalar_length:
  assumes "parse_scalar of_text s = Some (v, r)"
  shows "length r < length s"
proof (cases "find (\<lambda>l. take (length (fst l)) s = fst l) (literals of_text)")
  case None
  then show ?thesis using assms parse_number_length by (simp add: parse_scalar_def)
next
  case (Some l)
  then have "l \<in> set (literals of_text)" "take (length (fst l)) s = fst l" by (auto simp: find_Some_iff)
  moreover have "fst l \<noteq> []" using calculation(1) by (auto simp: literals_def)
  ultimately have "length (fst l) \<le> length s" "0 < length (fst l)" by (auto dest: arg_cong [where f = length])
  then show ?thesis using assms Some by (cases l) (auto simp: parse_scalar_def intro!: diff_less)
qed

lemma parse_length:
  "(\<forall>s v r. parse_value of_text n s = Some (v, r) \<longrightarrow> length r < length s) \<and>
   (\<forall>s vs r. parse_items of_text n s = Some (vs, r) \<longrightarrow> length r < length s) \<and>
   (\<forall>s ps r. parse_pairs of_text n s = Some (ps, r) \<longrightarrow> length r < length s)"
proof (induction n)
  case (Suc n)
  then have ih: "parse_value of_text n s = Some (v, r) \<Longrightarrow> length r < length s"
    "parse_items of_text n s = Some (vs, r) \<Longrightarrow> length r < length s"
    "parse_pairs of_text n s = Some (ps, r) \<Longrightarrow> length r < length s" for s v r vs ps by blast+
  have "length r < length s" if "parse_value of_text (Suc n) s = Some (v, r)" for s v r
    using that by (cases s) (force split: if_splits option.splits
      dest: ih parse_chars_length parse_scalar_length next_char_length)+
  moreover have "length r < length s" if got: "parse_items of_text (Suc n) s = Some (vs, r)" for s vs r
  proof -
    obtain v u where v: "parse_value of_text n s = Some (v, u)" using got by (auto split: option.splits)
    then obtain c w where c: "next_char u = Some (c, w)" using got by (auto split: option.splits)
    have "length r \<le> length w"
      using got skip_ws_length [of w] by (fastforce simp: v c split: if_splits dest: ih(2))
    then show ?thesis using ih(1) [OF v] next_char_length [OF c] by simp
  qed
  moreover have "length r < length s" if got: "parse_pairs of_text (Suc n) s = Some (ps, r)" for s ps r
  proof -
    obtain k u where k: "parse_chars s = Some (k, u)" using got by (auto split: option.splits)
    then obtain c w where c: "next_char u = Some (c, w)" using got by (auto split: option.splits)
    then obtain v x where v: "parse_value of_text n (skip_ws w) = Some (v, x)"
      using got by (auto simp: k split: option.splits if_splits)
    then obtain d y where d: "next_char x = Some (d, y)"
      using got by (auto simp: k c split: option.splits if_splits)
    have "length r \<le> length y"
      using got by (fastforce simp: k c v d split: if_splits option.splits dest: ih(3) next_char_length)
    then show ?thesis
      using ih(1) [OF v] next_char_length [OF c] next_char_length [OF d] parse_chars_length [OF k] skip_ws_length [of w]
      by simp
  qed
  ultimately show ?case by blast
qed simp

lemma parse_fuel_step:
  "(\<forall>s. 2 * length s < n \<longrightarrow> parse_value of_text n s = parse_value of_text (Suc n) s) \<and>
   (\<forall>s. Suc (2 * length s) < n \<longrightarrow> parse_items of_text n s = parse_items of_text (Suc n) s) \<and>
   (\<forall>s. 2 * length s < n \<longrightarrow> parse_pairs of_text n s = parse_pairs of_text (Suc n) s)"
proof (induction n)
  case (Suc n)
  then have ih: "2 * length s < n \<Longrightarrow> parse_value of_text n s = parse_value of_text (Suc n) s"
    "Suc (2 * length s) < n \<Longrightarrow> parse_items of_text n s = parse_items of_text (Suc n) s"
    "2 * length s < n \<Longrightarrow> parse_pairs of_text n s = parse_pairs of_text (Suc n) s" for s by blast+
  have "parse_value of_text (Suc n) s = parse_value of_text (Suc (Suc n)) s" if "2 * length s < Suc n" for s
  proof (cases s)
    case (Cons c cs)
    have "parse_items of_text n (d # r) = parse_items of_text (Suc n) (d # r)"
      "parse_pairs of_text n r = parse_pairs of_text (Suc n) r" if "next_char cs = Some (d, r)" for d r
      using that \<open>2 * length s < Suc n\<close> next_char_length [OF that] Cons by (intro ih; simp)+
    then show ?thesis
      unfolding Cons parse_value.simps(2) [of _ n] parse_value.simps(2) [of _ "Suc n"] list.case
      by (auto split: option.split)
  qed simp
  moreover have "parse_items of_text (Suc n) s = parse_items of_text (Suc (Suc n)) s" if "Suc (2 * length s) < Suc n" for s
  proof -
    have "parse_items of_text n (skip_ws w) = parse_items of_text (Suc n) (skip_ws w)"
      if "parse_value of_text n s = Some (v, u)" "next_char u = Some (c, w)" for v u c w
      using parse_length [of of_text n] that next_char_length [OF that(2)] skip_ws_length [of w] \<open>Suc (2 * length s) < Suc n\<close>
      by (intro ih) fastforce
    then show ?thesis
      using ih(1) [of s] that
      unfolding parse_items.simps(2) [of _ n] parse_items.simps(2) [of _ "Suc n"]
      by (auto split: option.split)
  qed
  moreover have "parse_pairs of_text (Suc n) s = parse_pairs of_text (Suc (Suc n)) s" if "2 * length s < Suc n" for s
  proof -
    have v: "parse_value of_text n (skip_ws w) = parse_value of_text (Suc n) (skip_ws w)"
      if "parse_chars s = Some (k, u)" "next_char u = Some (c, w)" for k u c w
      using parse_chars_length [OF that(1)] next_char_length [OF that(2)] skip_ws_length [of w] \<open>2 * length s < Suc n\<close>
      by (intro ih) simp
    have "parse_pairs of_text n z = parse_pairs of_text (Suc n) z"
      if "parse_chars s = Some (k, u)" "next_char u = Some (c, w)" "parse_value of_text n (skip_ws w) = Some (x, y)"
        "next_char y = Some (d, y')" "next_char y' = Some (q, z)" for k u c w x y d y' q z
      using parse_chars_length [OF that(1)] next_char_length [OF that(2)] skip_ws_length [of w] \<open>2 * length s < Suc n\<close>
        parse_length [of of_text n] that(3) next_char_length [OF that(4)] next_char_length [OF that(5)]
      by (intro ih) fastforce
    with v show ?thesis
      unfolding parse_pairs.simps(2) [of _ n] parse_pairs.simps(2) [of _ "Suc n"]
      by (auto split: option.split)
  qed
  ultimately show ?case by blast
qed simp

lemma parse_fuel: "2 * length s < n \<Longrightarrow> parse_value of_text n s = parse_value of_text (Suc (2 * length s)) s"
proof (induction n)
  case (Suc n)
  then show ?case using parse_fuel_step [of n of_text] by (cases "n = 2 * length s") auto
qed simp

theorem json_roundtrip:
  assumes "json_plain v"
  shows "json_loads of_text (json_text to_text v) = Some (key_sorted v)"
proof -
  have v: "reads_back of_text to_text v" by (rule parse_json_text [OF assms])
  then have "skip_ws (json_text to_text v) = json_text to_text v" using reads_back_start [OF v, of "[]"] by simp
  then show ?thesis
    using reads_backD [OF v ends_value_simps(1), of "Suc (2 * length (json_text to_text v))"]
    by (simp add: json_loads_def skip_ws_def)
qed

section \<open>Documents verify\<close>

text \<open>Sorting the keys changes neither the value, for Python's equality, nor its canonical text.\<close>

lemma sort_sorted: "sort_key fst (map (map_prod id f) (sort_key fst xs)) = map (map_prod id f) (sort_key fst xs)"
  by (rule sort_key_id_if_sorted) simp

lemma map_prod_parts: "\<forall>e \<in> set d. f (snd e) = g (snd e) \<Longrightarrow> map (map_prod id f) d = map (map_prod id g) d"
  by auto

lemma sorted_by_parts:
  assumes "\<And>e. e \<in> set d \<Longrightarrow> f (key_sorted (snd e)) = f (snd e)"
  shows "sort_key fst (map (map_prod id f) (sort_key fst (map (map_prod id key_sorted) d))) =
    sort_key fst (map (map_prod id f) d)"
proof -
  have "map (map_prod id f) (map (map_prod id key_sorted) (sort_key fst d)) = map (map_prod id f) (sort_key fst d)"
    using assms by auto
  then show ?thesis by (simp only: sort_map_snd sort_sorted) (simp add: sort_key_id_if_sorted)
qed

lemma dict_parts: "json_plain (PDict d) \<Longrightarrow> e \<in> set d \<Longrightarrow> json_plain (snd e)"
  by (auto simp: list_all_iff)

lemma key_sorted_norm: "py_norm (key_sorted v) = py_norm v"
proof (induction v)
  case (PDict d)
  then have "py_norm (key_sorted (snd e)) = py_norm (snd e)" if "e \<in> set d" for e
    using that by (cases e) fastforce
  then show ?case unfolding key_sorted.simps py_norm.simps by (simp only: sorted_by_parts)
qed simp_all

lemma key_sorted_text: "json_text to_text (key_sorted v) = json_text to_text v"
proof (induction v)
  case (PDict d)
  then have "json_text to_text (key_sorted (snd e)) = json_text to_text (snd e)" if "e \<in> set d" for e
    using that by (cases e) fastforce
  then show ?case unfolding key_sorted.simps json_text.simps by (simp only: sorted_by_parts)
qed (simp_all add: comp_def cong: map_cong)

lemma plain_ok: "json_plain v \<Longrightarrow> json_ok to_text (key_sorted v)"
proof (induction v)
  case (PDict d)
  then have "json_ok to_text (key_sorted (snd e))" if "e \<in> set d" for e
    using that dict_parts [OF PDict.prems that] by (cases e) fastforce
  then show ?case by (auto simp: list_all_iff)
qed (auto simp: list_all_iff)

lemma map_of_parts: "map_of (map (map_prod id f) e) k = map_option f (map_of e k)"
  by (induction e) auto

lemma map_of_sorted: "distinct (map fst e) \<Longrightarrow> map_of (sort_key fst e) = map_of e"
  using keys_sorted [of e id] by (subst map_of_inject_set) (simp_all add: prod.map_id0)

text \<open>Equal dicts hold equal values.\<close>

lemma dget_norm:
  assumes "py_norm (PDict d) = py_norm (PDict d')" "distinct (map fst d)" "distinct (map fst d')"
  shows "py_norm (dget d k) = py_norm (dget d' k)"
proof -
  have "map (map_prod id py_norm) (sort_key fst d) = map (map_prod id py_norm) (sort_key fst d')"
    using assms(1) by (simp add: sort_map_snd)
  then have "map_option py_norm (map_of d k) = map_option py_norm (map_of d' k)"
    using map_of_parts [of py_norm "sort_key fst d" k] map_of_parts [of py_norm "sort_key fst d'" k]
    by (simp add: map_of_sorted assms(2,3))
  then show ?thesis by (auto simp: dget_def split: option.splits)
qed

text \<open>What is stored for a document verifies, and is read as the same document.\<close>

lemma document_verifies:
  assumes "json_plain (PDict d)" "dget d ''contract_version'' = PStr contract"
    and "list_all (\<lambda>c. (of_char c :: nat) < 128) (sha256 (json_text to_text (PDict d)))"
  shows "\<exists>d'. verify_document of_text to_text sha256 contract (json_text to_text (PDict d))
      (sha256 (json_text to_text (PDict d))) = Inr d' \<and> py_eq (PDict d') (PDict d) \<and> distinct (map fst d')"
proof -
  obtain d' where d': "key_sorted (PDict d) = PDict d'" by simp
  then have "distinct (map fst d')" using keys_sorted [of d key_sorted] assms(1) by (simp add: sort_map_snd)
  moreover have norm: "py_norm (PDict d') = py_norm (PDict d)" using key_sorted_norm [of "PDict d"] by (simp only: d')
  ultimately have "py_eq (dget d' ''contract_version'') (PStr contract)"
    using dget_norm [OF norm] assms(1,2) by (simp add: py_eq_def)
  then show ?thesis
    using json_roundtrip [OF assms(1), of of_text to_text] plain_ok [OF assms(1), of to_text] norm assms(3) \<open>distinct (map fst d')\<close>
      key_sorted_text [of to_text "PDict d"] unfolding d'
    by (simp only: verify_document_def option.case pyval.case) (simp add: py_eq_def)
qed

end
