(* ===== verification/Sync_Manifests.thy ===== *)
theory Sync_Manifests
  imports Canonical_Json "HOL-Library.Product_Lexorder" "HOL-Library.Multiset"
begin

text \<open>
  The acquisition manifest of a synchronization: \<open>build_wallet_case_sync_manifest\<close> of
  \<open>backend/services/wallet_case_sync_manifests.py\<close>, with its verification.  SHA-256 is an
  argument, and so are the ISO texts of the snapshot's bounds.
\<close>

section \<open>Fields\<close>

text \<open>\<open>_optional_text\<close>, \<open>_required_text\<close>, \<open>_nonnegative_int\<close>, \<open>_sha256\<close>, \<open>_list\<close>.\<close>

definition cleaned_text :: "nat \<Rightarrow> pyval \<Rightarrow> string option" where
  "cleaned_text limit v =
    (case v of PStr s \<Rightarrow> (let t = strip s in if t = [] then None else Some (take limit t)) | _ \<Rightarrow> None)"

definition known_text :: "nat \<Rightarrow> pyval \<Rightarrow> string" where
  "known_text limit v = (case cleaned_text limit v of None \<Rightarrow> ''unknown'' | Some s \<Rightarrow> if s = [] then ''unknown'' else s)"

definition known_count :: "pyval \<Rightarrow> int" where
  "known_count v = (case v of PInt i \<Rightarrow> max 0 i | _ \<Rightarrow> 0)"

definition sha256_field :: "pyval \<Rightarrow> string option" where
  "sha256_field v =
    (case v of PStr s \<Rightarrow> if length s = 64 \<and> list_all is_hex s then Some (map hex_lower s) else None | _ \<Rightarrow> None)"

definition list_field :: "pyval \<Rightarrow> pyval list" where
  "list_field v = (case v of PList vs \<Rightarrow> vs | _ \<Rightarrow> [])"

definition period_document :: "pyval \<Rightarrow> pyval \<Rightarrow> pyval" where
  "period_document start end' =
    PDict [(''start_at'', of_string (cleaned_text 40 start)), (''end_at'', of_string (cleaned_text 40 end'))]"

section \<open>Records\<close>

definition manifest_page :: "py_dict \<Rightarrow> py_dict" where
  "manifest_page d =
    [(''page_index'', PInt (known_count (dget d ''page_index''))),
     (''request_cursor'', of_string (cleaned_text 128 (dget d ''request_cursor''))),
     (''response_cursor'', of_string (cleaned_text 128 (dget d ''response_cursor''))),
     (''requested_limit'', PInt (known_count (dget d ''requested_limit''))),
     (''raw_count'', PInt (known_count (dget d ''raw_count''))),
     (''normalized_count'', PInt (known_count (dget d ''normalized_count''))),
     (''duplicate_count'', PInt (known_count (dget d ''duplicate_count''))),
     (''min_logical_time'', of_string (cleaned_text 20 (dget d ''min_logical_time''))),
     (''max_logical_time'', of_string (cleaned_text 20 (dget d ''max_logical_time''))),
     (''min_timestamp'', of_string (cleaned_text 40 (dget d ''min_timestamp''))),
     (''max_timestamp'', of_string (cleaned_text 40 (dget d ''max_timestamp''))),
     (''response_digest_sha256'', of_string (sha256_field (dget d ''response_digest''))),
     (''attempt_count'', PInt (known_count (dget d ''attempt_count''))),
     (''error_code'', of_string (cleaned_text 64 (dget d ''error_code''))),
     (''fetched_at'', of_string (cleaned_text 40 (dget d ''fetched_at'')))]"

definition page_order :: "py_dict \<Rightarrow> int" where
  "page_order d = (case dget d ''page_index'' of PInt i \<Rightarrow> i | _ \<Rightarrow> 0)"

definition manifest_stream :: "py_dict \<Rightarrow> py_dict" where
  "manifest_stream d =
    [(''provider'', PStr (known_text 64 (dget d ''provider''))),
     (''stream_key'', PStr (known_text 40 (dget d ''stream_key''))),
     (''contract_version'', PStr (known_text 48 (dget d ''contract_version''))),
     (''scope_kind'', PStr (known_text 24 (dget d ''scope_kind''))),
     (''requested_period'', period_document (dget d ''requested_start'') (dget d ''requested_end'')),
     (''sort_order'', of_string (cleaned_text 32 (dget d ''sort_order''))),
     (''page_size'', PInt (known_count (dget d ''page_size''))),
     (''page_cap'', PInt (known_count (dget d ''page_cap''))),
     (''completion_state'', PStr (known_text 24 (dget d ''completion_state''))),
     (''termination_reason'', of_string (cleaned_text 48 (dget d ''termination_reason''))),
     (''page_count'', PInt (known_count (dget d ''page_count''))),
     (''pages_succeeded'', PInt (known_count (dget d ''pages_succeeded''))),
     (''raw_count'', PInt (known_count (dget d ''raw_count''))),
     (''normalized_count'', PInt (known_count (dget d ''normalized_count''))),
     (''duplicate_count'', PInt (known_count (dget d ''duplicate_count''))),
     (''first_cursor'', of_string (cleaned_text 128 (dget d ''first_cursor''))),
     (''terminal_cursor'', of_string (cleaned_text 128 (dget d ''terminal_cursor''))),
     (''bounds_verified'', PBool (dget d ''bounds_verified'' = PBool True)),
     (''error_code'', of_string (cleaned_text 64 (dget d ''error_code''))),
     (''started_at'', of_string (cleaned_text 40 (dget d ''started_at''))),
     (''finished_at'', of_string (cleaned_text 40 (dget d ''finished_at''))),
     (''pages'', PList (map PDict (sort_key page_order (map manifest_page (dict_rows (list_field (dget d ''pages'')))))))]"

definition stream_order :: "py_dict \<Rightarrow> string \<times> string" where
  "stream_order d = (field ''provider'' d, field ''stream_key'' d)"

section \<open>The manifest\<close>

record manifest_source =
  ms_case :: string
  ms_sync :: string
  ms_network :: string
  ms_data_mode :: string
  ms_provider :: string
  ms_state :: string
  ms_start :: string
  ms_end :: string
  ms_plan :: py_dict
  ms_surfaces :: "string list"
  ms_run :: py_dict

definition manifest_contract :: string where "manifest_contract = ''wallet_case_sync_manifest_v1''"

definition manifest_streams :: "py_dict \<Rightarrow> py_dict list" where
  "manifest_streams run =
    sort_key stream_order (map manifest_stream (dict_rows (list_field (dget run ''acquisition_streams''))))"

definition manifest_document :: "manifest_source \<Rightarrow> py_dict" where
  "manifest_document m =
    [(''contract_version'', PStr manifest_contract),
     (''case_public_id'', PStr (known_text 36 (PStr (ms_case m)))),
     (''sync_public_id'', PStr (known_text 36 (PStr (ms_sync m)))),
     (''network'', PStr (known_text 16 (PStr (ms_network m)))),
     (''data_mode'', PStr (known_text 16 (PStr (ms_data_mode m)))),
     (''provider'', PStr (known_text 64 (PStr (ms_provider m)))),
     (''sync_state'', PStr (known_text 16 (PStr (ms_state m)))),
     (''snapshot_period'', PDict [(''start_at'', PStr (ms_start m)), (''end_at'', PStr (ms_end m))]),
     (''acquisition_period'', period_document (dget (ms_plan m) ''start_at'') (dget (ms_plan m) ''end_at'')),
     (''acquisition_mode'', PStr (known_text 16 (dget (ms_plan m) ''mode''))),
     (''overlap_seconds'', PInt (known_count (dget (ms_plan m) ''overlap_seconds''))),
     (''base_snapshot_public_id'', of_string (cleaned_text 36 (dget (ms_plan m) ''base_snapshot_public_id''))),
     (''requested_surfaces'', PList (map PStr (sort (remdups
       (List.map_filter (\<lambda>s. cleaned_text 32 (PStr s)) (ms_surfaces m)))))),
     (''streams'', PList (map PDict (manifest_streams (ms_run m))))]"

record built_manifest =
  bm_document :: py_dict
  bm_json :: string
  bm_hash :: string
  bm_public_id :: string
  bm_stream_count :: nat
  bm_page_count :: nat
  bm_digest_count :: nat

definition pages_of :: "py_dict list \<Rightarrow> py_dict list" where
  "pages_of streams = concat (map (\<lambda>d. dict_rows (list_field (dget d ''pages''))) streams)"

text \<open>The document has no floating point numbers; an integer of too many digits raises.\<close>

definition no_floats :: float_text where "no_floats n = None"

definition build_manifest :: "(string \<Rightarrow> string) \<Rightarrow> manifest_source \<Rightarrow> (py_error, built_manifest) result" where
  "build_manifest sha256 m =
    (let d = manifest_document m; t = json_text no_floats (PDict d); streams = manifest_streams (ms_run m);
         pages = pages_of streams in
     ensure (json_ok no_floats (PDict d)) ValueError
       (Inr \<lparr> bm_document = d, bm_json = t, bm_hash = sha256 t, bm_public_id = ''smf_'' @ sha256 t,
         bm_stream_count = length streams, bm_page_count = length pages,
         bm_digest_count = length (filter (\<lambda>p. dget p ''response_digest_sha256'' \<noteq> PNone) pages) \<rparr>))"

section \<open>Manifests verify\<close>

text \<open>Values without floating point numbers and repeated keys.\<close>

primrec json_shaped :: "pyval \<Rightarrow> bool" where
  "json_shaped PNone = True"
| "json_shaped (PBool b) = True"
| "json_shaped (PInt i) = True"
| "json_shaped (PStr s) = True"
| "json_shaped (PList vs) = list_all id (map json_shaped vs)"
| "json_shaped (PDict d) = (distinct (map fst d) \<and> list_all snd (map (map_prod id json_shaped) d))"
| "json_shaped (POther n) = False"

lemma shaped_plain: "json_shaped v \<Longrightarrow> json_ok to_text v \<Longrightarrow> json_plain v"
proof (induction v)
  case (PDict d)
  then have "json_plain (snd e)" if "e \<in> set d" for e
    using that by (cases e) (fastforce simp: list_all_iff)
  then show ?case using PDict.prems by (auto simp: list_all_iff)
qed (auto simp: list_all_iff)

lemma shaped_text: "json_shaped v \<Longrightarrow> json_text a v = json_text b v"
proof (induction v)
  case (PDict d)
  then have "json_text a (snd e) = json_text b (snd e)" if "e \<in> set d" for e
    using that by (cases e) (fastforce simp: list_all_iff)
  then have "map (map_prod id (json_text a)) d = map (map_prod id (json_text b)) d" by auto
  then show ?case by (simp only: json_text.simps)
qed (auto simp: list_all_iff comp_def cong: map_cong)

lemma shaped_simps [simp]:
  "json_shaped (of_string s)" "json_shaped (period_document start end')"
  "json_shaped (PList (map PStr ss))"
  by (simp_all add: of_string_def period_document_def list_all_iff split: option.split)

lemma manifest_page_shaped: "json_shaped (PDict (manifest_page d))"
  by (simp add: manifest_page_def)

lemma manifest_stream_shaped: "json_shaped (PDict (manifest_stream d))"
proof -
  have "json_shaped (PList (map PDict (sort_key page_order (map manifest_page ps))))" for ps
    using manifest_page_shaped by (auto simp: list_all_iff simp del: json_shaped.simps(6))
  then show ?thesis by (simp add: manifest_stream_def)
qed

lemma manifest_shaped: "json_shaped (PDict (manifest_document m))"
proof -
  have "json_shaped (PList (map PDict (manifest_streams run)))" for run
    using manifest_stream_shaped by (auto simp: manifest_streams_def list_all_iff simp del: json_shaped.simps(6))
  moreover have "list_all id (map (json_shaped \<circ> PStr) ss)" for ss by (simp add: list_all_iff)
  ultimately show ?thesis by (simp add: manifest_document_def)
qed

text \<open>A document of the shape the builders produce verifies against its own digest.\<close>

lemma shaped_verifies:
  assumes "json_shaped (PDict d)" "json_ok no_floats (PDict d)" "dget d ''contract_version'' = PStr contract"
    and "\<forall>s. list_all (\<lambda>c. (of_char c :: nat) < 128) (sha256 s)"
  shows "\<exists>d'. verify_document of_text to_text sha256 contract (json_text no_floats (PDict d))
      (sha256 (json_text no_floats (PDict d))) = Inr d' \<and> py_eq (PDict d') (PDict d) \<and> distinct (map fst d')"
  using document_verifies [OF shaped_plain [OF assms(1,2)] assms(3), of sha256 to_text of_text] assms(4)
    shaped_text [OF assms(1), of to_text no_floats] by simp

text \<open>C11: a manifest that is built verifies.  Its canonical JSON text, checked against its own digest,
  is accepted and read back as the same document, whatever the provider returned.
\<close>

theorem manifest_verifies:
  assumes "build_manifest sha256 m = Inr b" "\<forall>s. list_all (\<lambda>c. (of_char c :: nat) < 128) (sha256 s)"
  shows "\<exists>d. verify_document of_text to_text sha256 manifest_contract (bm_json b) (bm_hash b) = Inr d \<and>
    py_eq (PDict d) (PDict (bm_document b)) \<and> bm_public_id b = ''smf_'' @ bm_hash b"
proof -
  have b: "json_ok no_floats (PDict (manifest_document m))" "bm_document b = manifest_document m"
    "bm_json b = json_text no_floats (PDict (manifest_document m))"
    "bm_hash b = sha256 (json_text no_floats (PDict (manifest_document m)))" "bm_public_id b = ''smf_'' @ bm_hash b"
    using assms(1) by (auto simp: build_manifest_def Let_def)
  have "dget (manifest_document m) ''contract_version'' = PStr manifest_contract"
    by (simp add: manifest_document_def dget_def)
  from shaped_verifies [OF manifest_shaped b(1) this assms(2)] show ?thesis
    by (simp add: b(2-4)) (auto simp: b(5) b(4))
qed

section \<open>The order of rows does not matter\<close>

lemma sort_key_permuted:
  assumes "mset xs = mset ys" "distinct (map f xs)"
  shows "sort_key f xs = sort_key f ys"
proof (rule properties_for_sort_key [symmetric])
  show "mset (sort_key f xs) = mset ys" using assms(1) by simp
  fix k assume k: "k \<in> set (sort_key f xs)"
  have one: "filter (\<lambda>x. f k = f x) zs = [k]" if "mset zs = mset xs" for zs
  proof -
    have d: "distinct (map f zs)" using that assms(2) by (metis mset_eq_imp_distinct_iff mset_map)
    have "k \<in> set zs" using k that by (metis set_mset_mset set_sort)
    then show ?thesis using d by (induction zs) (auto simp: filter_empty_conv image_iff)
  qed
  show "filter (\<lambda>x. f k = f x) (sort_key f xs) = filter (\<lambda>x. f k = f x) ys"
    using one [of "sort_key f xs"] one [of ys] assms(1) by simp
qed simp

text \<open>Two rows of one stream: equal but for the order of their pages, which have different indexes.\<close>

definition same_stream :: "py_dict \<Rightarrow> py_dict \<Rightarrow> bool" where
  "same_stream d e \<longleftrightarrow>
     (\<forall>k. k \<noteq> ''pages'' \<longrightarrow> dget d k = dget e k) \<and>
     mset (dict_rows (list_field (dget d ''pages''))) = mset (dict_rows (list_field (dget e ''pages''))) \<and>
     distinct (map (page_order \<circ> manifest_page) (dict_rows (list_field (dget d ''pages''))))"

text \<open>Two answers of the provider layer that list the same streams, in any order.\<close>

definition run_rows :: "py_dict \<Rightarrow> py_dict list" where
  "run_rows run = dict_rows (list_field (dget run ''acquisition_streams''))"

definition same_run :: "py_dict \<Rightarrow> py_dict \<Rightarrow> bool" where
  "same_run r r' \<longleftrightarrow>
    (\<exists>rows. list_all2 same_stream (run_rows r) rows \<and> mset rows = mset (run_rows r')) \<and>
    distinct (map (stream_order \<circ> manifest_stream) (run_rows r))"

lemma same_stream_manifest: "same_stream d e \<Longrightarrow> manifest_stream d = manifest_stream e"
proof -
  assume same: "same_stream d e"
  then have "sort_key page_order (map manifest_page (dict_rows (list_field (dget d ''pages'')))) =
      sort_key page_order (map manifest_page (dict_rows (list_field (dget e ''pages''))))"
    by (intro sort_key_permuted) (simp_all add: same_stream_def)
  then show ?thesis using same by (simp add: manifest_stream_def same_stream_def)
qed

text \<open>C12: the manifest does not depend on the order in which the streams of a run and their pages are
  listed, so neither do its digest and its public id.
\<close>

theorem manifest_order_independent:
  assumes "same_run (ms_run m) r"
  shows "build_manifest sha256 (m\<lparr> ms_run := r \<rparr>) = build_manifest sha256 m"
proof -
  obtain rows where rows: "list_all2 same_stream (run_rows (ms_run m)) rows" "mset rows = mset (run_rows r)"
    and keys: "distinct (map (stream_order \<circ> manifest_stream) (run_rows (ms_run m)))"
    using assms by (auto simp: same_run_def)
  have same: "map manifest_stream (run_rows (ms_run m)) = map manifest_stream rows"
    using rows(1) by (induction rule: list_all2_induct) (simp_all add: same_stream_manifest)
  have "sort_key stream_order (map manifest_stream (run_rows (ms_run m))) =
      sort_key stream_order (map manifest_stream (run_rows r))"
  proof (rule sort_key_permuted)
    show "mset (map manifest_stream (run_rows (ms_run m))) = mset (map manifest_stream (run_rows r))"
      by (simp add: same rows(2))
  qed (use keys in simp)
  then have "manifest_streams r = manifest_streams (ms_run m)"
    by (simp add: manifest_streams_def run_rows_def)
  then show ?thesis by (simp add: build_manifest_def manifest_document_def Let_def)
qed

end
