(* ===== verification/Stream_Checkpoints.thy ===== *)
theory Stream_Checkpoints
  imports Sync_Manifests
begin

text \<open>
  The continuation records of a manifest: \<open>build_wallet_case_stream_checkpoints\<close> of
  \<open>backend/services/wallet_case_stream_checkpoints.py\<close>.  Every check raises \<open>ValueError\<close>.
\<close>

section \<open>Fields\<close>

text \<open>\<open>_optional_text\<close>, \<open>_required_text\<close>, \<open>_nonnegative_int\<close>.\<close>

definition exact_text :: "nat \<Rightarrow> pyval \<Rightarrow> string option" where
  "exact_text limit v =
    (case v of PStr s \<Rightarrow> if s = [] \<or> s \<noteq> strip s then None else if length s \<le> limit then Some s else None
     | _ \<Rightarrow> None)"

definition required_text :: "nat \<Rightarrow> pyval \<Rightarrow> (py_error, string) result" where
  "required_text limit v = (case exact_text limit v of None \<Rightarrow> Inl ValueError | Some s \<Rightarrow> Inr s)"

definition required_count :: "pyval \<Rightarrow> (py_error, int) result" where
  "required_count v = (case v of PInt i \<Rightarrow> if i < 0 then Inl ValueError else Inr i | _ \<Rightarrow> Inl ValueError)"

definition exact_period :: "pyval \<Rightarrow> (py_error, pyval) result" where
  "exact_period v =
    (case v of
       PDict d \<Rightarrow> Inr (PDict [(''start_at'', of_string (exact_text 40 (dget d ''start_at''))),
         (''end_at'', of_string (exact_text 40 (dget d ''end_at'')))])
     | _ \<Rightarrow> Inl ValueError)"

definition last_page_record :: "py_dict option \<Rightarrow> (py_error, pyval) result" where
  "last_page_record page =
    (case page of
       None \<Rightarrow> Inr PNone
     | Some p \<Rightarrow>
         let digest = exact_text 64 (dget p ''response_digest_sha256'') in
         ensure (case digest of None \<Rightarrow> True | Some s \<Rightarrow> length s = 64 \<and> list_all is_lower_hex s) ValueError
        (bind_result (required_count (dget p ''page_index'')) (\<lambda>index. Inr (PDict
          [(''page_index'', PInt index),
           (''response_cursor'', of_string (exact_text 128 (dget p ''response_cursor''))),
           (''response_digest_sha256'', of_string digest),
           (''min_logical_time'', of_string (exact_text 20 (dget p ''min_logical_time''))),
           (''max_logical_time'', of_string (exact_text 20 (dget p ''max_logical_time''))),
           (''min_timestamp'', of_string (exact_text 40 (dget p ''min_timestamp''))),
           (''max_timestamp'', of_string (exact_text 40 (dget p ''max_timestamp''))),
           (''fetched_at'', of_string (exact_text 40 (dget p ''fetched_at'')))]))))"

section \<open>Classification\<close>

definition resumable_terminations :: "string list" where
  "resumable_terminations = [''page_cap_reached'', ''provider_error'']"

text \<open>What the state of a checkpoint is computed from.\<close>

record stream_progress =
  sp_completion :: string
  sp_termination :: "string option"
  sp_succeeded :: int
  sp_terminal :: "string option"
  sp_last_response :: "string option"

definition continuation_ready :: "stream_progress \<Rightarrow> bool" where
  "continuation_ready p \<longleftrightarrow>
     sp_completion p = ''incomplete'' \<and> (\<exists>r \<in> set resumable_terminations. sp_termination p = Some r) \<and>
     sp_succeeded p > 0 \<and> sp_terminal p \<noteq> None \<and> sp_last_response p = sp_terminal p"

definition resume_blocker :: "stream_progress \<Rightarrow> string" where
  "resume_blocker p =
    (if sp_completion p = ''preview_only'' then ''preview_only''
     else if sp_termination p = Some ''legacy_unavailable'' then ''resolved_bounds_unavailable''
     else if sp_termination p = Some ''provider_event_in_progress'' then ''provider_event_in_progress''
     else if sp_termination p = Some ''protocol_error'' then ''provider_protocol_error''
     else if sp_succeeded p = 0 then ''no_successful_page''
     else if sp_terminal p = None then ''continuation_cursor_unavailable''
     else if sp_last_response p \<noteq> sp_terminal p then ''continuation_cursor_unverified''
     else ''termination_not_resumable'')"

definition resume_state :: "stream_progress \<Rightarrow> string" where
  "resume_state p =
    (if sp_completion p = ''complete'' then ''complete''
     else if continuation_ready p then ''ready'' else ''blocked'')"

section \<open>Checkpoints\<close>

definition checkpoint_contract :: string where "checkpoint_contract = ''wallet_case_stream_checkpoint_v1''"

definition succeeded_page :: "py_dict \<Rightarrow> bool" where
  "succeeded_page d \<longleftrightarrow> dget d ''error_code'' = PNone"

definition last_option :: "'a list \<Rightarrow> 'a option" where
  "last_option xs = (if xs = [] then None else Some (last xs))"

text \<open>The progress of a stream of a manifest, with its last successful page.\<close>

definition progress_of :: "py_dict \<Rightarrow> (py_error, stream_progress \<times> int \<times> py_dict option) result" where
  "progress_of d =
    bind_result (required_text 24 (dget d ''completion_state'')) (\<lambda>completion.
    bind_result (required_count (dget d ''page_count'')) (\<lambda>count.
    bind_result (required_count (dget d ''pages_succeeded'')) (\<lambda>succeeded.
      ensure (succeeded \<le> count) ValueError
     (case dget d ''pages'' of
        PList pages \<Rightarrow>
          let good = filter succeeded_page (dict_rows pages); final = last_option good in
          ensure (int (length good) = succeeded) ValueError
            (Inr (\<lparr> sp_completion = completion, sp_termination = exact_text 48 (dget d ''termination_reason''),
                sp_succeeded = succeeded, sp_terminal = exact_text 128 (dget d ''terminal_cursor''),
                sp_last_response = (case final of None \<Rightarrow> None | Some p \<Rightarrow> exact_text 128 (dget p ''response_cursor'')) \<rparr>,
              count, final))
      | _ \<Rightarrow> Inl ValueError))))"

definition continuation_index :: "stream_progress \<Rightarrow> py_dict option \<Rightarrow> (py_error, int option) result" where
  "continuation_index p final =
    (case final of
       Some page \<Rightarrow> if continuation_ready p
         then bind_result (required_count (dget page ''page_index'')) (\<lambda>i. Inr (Some (i + 1))) else Inr None
     | None \<Rightarrow> Inr None)"

record built_checkpoint =
  bc_document :: py_dict
  bc_json :: string
  bc_hash :: string
  bc_public_id :: string
  bc_provider :: string
  bc_stream_key :: string
  bc_contract :: string
  bc_state :: string
  bc_cursor :: "string option"
  bc_page_index :: "int option"
  bc_page_count :: int
  bc_succeeded :: int

definition checkpoint_document ::
  "built_manifest \<Rightarrow> py_dict \<Rightarrow> (py_error, py_dict \<times> stream_progress \<times> int option) result" where
  "checkpoint_document b d =
    bind_result (required_text 64 (dget d ''provider'')) (\<lambda>provider.
    bind_result (required_text 40 (dget d ''stream_key'')) (\<lambda>stream_key.
    bind_result (required_text 48 (dget d ''contract_version'')) (\<lambda>contract.
    bind_result (progress_of d) (\<lambda>(p, count, final).
    bind_result (continuation_index p final) (\<lambda>index.
    bind_result (required_text 36 (dget (bm_document b) ''case_public_id'')) (\<lambda>case_id.
    bind_result (required_text 36 (dget (bm_document b) ''sync_public_id'')) (\<lambda>sync_id.
    bind_result (required_text 16 (dget (bm_document b) ''acquisition_mode'')) (\<lambda>mode.
    bind_result (exact_period (dget d ''requested_period'')) (\<lambda>period.
    bind_result (required_count (dget d ''page_size'')) (\<lambda>size.
    bind_result (required_count (dget d ''page_cap'')) (\<lambda>cap.
    bind_result (last_page_record final) (\<lambda>page. Inr
      ([(''contract_version'', PStr checkpoint_contract), (''case_public_id'', PStr case_id),
        (''source_sync_public_id'', PStr sync_id), (''source_manifest_public_id'', PStr (bm_public_id b)),
        (''source_manifest_hash_sha256'', PStr (bm_hash b)), (''provider'', PStr provider),
        (''stream_key'', PStr stream_key), (''provider_contract_version'', PStr contract),
        (''acquisition_mode'', PStr mode), (''requested_period'', period),
        (''sort_order'', of_string (exact_text 32 (dget d ''sort_order''))),
        (''page_size'', PInt size), (''page_cap'', PInt cap),
        (''completion_state'', PStr (sp_completion p)), (''termination_reason'', of_string (sp_termination p)),
        (''page_count'', PInt count), (''pages_succeeded'', PInt (sp_succeeded p)),
        (''resume_state'', PStr (resume_state p)),
        (''resume_blocker'', of_string (if resume_state p = ''blocked'' then Some (resume_blocker p) else None)),
        (''continuation_cursor'', of_string (if continuation_ready p then sp_terminal p else None)),
        (''continuation_page_index'', of_int index), (''last_successful_page'', page)],
       p, index)))))))))))))"

definition build_checkpoint ::
  "(string \<Rightarrow> string) \<Rightarrow> built_manifest \<Rightarrow> py_dict \<Rightarrow> (py_error, built_checkpoint) result" where
  "build_checkpoint sha256 b d =
    bind_result (checkpoint_document b d) (\<lambda>(document, p, index).
      let t = json_text no_floats (PDict document) in
      ensure (json_ok no_floats (PDict document)) ValueError
        (Inr \<lparr> bc_document = document, bc_json = t, bc_hash = sha256 t, bc_public_id = ''scp_'' @ sha256 t,
          bc_provider = field ''provider'' document, bc_stream_key = field ''stream_key'' document,
          bc_contract = field ''provider_contract_version'' document, bc_state = resume_state p,
          bc_cursor = (if continuation_ready p then sp_terminal p else None), bc_page_index = index,
          bc_page_count = (case dget document ''page_count'' of PInt i \<Rightarrow> i | _ \<Rightarrow> 0),
          bc_succeeded = sp_succeeded p \<rparr>))"

definition build_checkpoints ::
  "(string \<Rightarrow> string) \<Rightarrow> built_manifest \<Rightarrow> (py_error, built_checkpoint list) result" where
  "build_checkpoints sha256 b =
    (case dget (bm_document b) ''streams'' of
       PList streams \<Rightarrow> each (build_checkpoint sha256 b) (dict_rows streams)
     | _ \<Rightarrow> Inl ValueError)"

section \<open>Checkpoints verify\<close>

lemma exact_period_shaped: "exact_period v = Inr w \<Longrightarrow> json_shaped w"
  by (auto simp: exact_period_def split: pyval.splits)

lemma last_page_shaped: "last_page_record p = Inr w \<Longrightarrow> json_shaped w"
  by (auto simp: last_page_record_def Let_def bind_result_Inr split: option.splits)

lemma of_int_shaped [simp]: "json_shaped (of_int i)"
  by (simp add: of_int_def split: option.split)

lemma checkpoint_shaped: "checkpoint_document b d = Inr (document, p, index) \<Longrightarrow> json_shaped (PDict document)"
  by (auto simp: checkpoint_document_def bind_result_Inr dest: exact_period_shaped last_page_shaped)

lemma checkpoint_header:
  "checkpoint_document b d = Inr (document, p, index) \<Longrightarrow> dget document ''contract_version'' = PStr checkpoint_contract"
  by (auto simp: checkpoint_document_def bind_result_Inr dget_def)

text \<open>C13: a checkpoint that is built verifies against its own digest and is read back as the same
  document; its public id is that digest.
\<close>

theorem checkpoint_verifies:
  assumes "build_checkpoint sha256 b d = Inr c" "\<forall>s. list_all (\<lambda>c. (of_char c :: nat) < 128) (sha256 s)"
  shows "\<exists>e. verify_document of_text to_text sha256 checkpoint_contract (bc_json c) (bc_hash c) = Inr e \<and>
    py_eq (PDict e) (PDict (bc_document c)) \<and> bc_public_id c = ''scp_'' @ bc_hash c"
proof -
  obtain document p index where doc: "checkpoint_document b d = Inr (document, p, index)"
    using assms(1) by (auto simp: build_checkpoint_def bind_result_Inr)
  then have c: "json_ok no_floats (PDict document)" "bc_document c = document"
    "bc_json c = json_text no_floats (PDict document)" "bc_hash c = sha256 (json_text no_floats (PDict document))"
    "bc_public_id c = ''scp_'' @ bc_hash c"
    using assms(1) by (auto simp: build_checkpoint_def Let_def)
  from shaped_verifies [OF checkpoint_shaped [OF doc] c(1) checkpoint_header [OF doc] assms(2)] show ?thesis
    by (simp add: c(2-4)) (auto simp: c(5) c(4))
qed

end
