(* ===== verification/Stored_Streams.thy ===== *)
theory Stored_Streams
  imports Stream_Checkpoints Event_Acquisition
begin

text \<open>
  How the evidence of an acquisition reaches a manifest: the rows
  \<open>backend/services/wallet_activity_ingestion.py\<close> stores for a stream and its pages
  (\<open>_acquisition_stream_models\<close>) and the records it answers for them (\<open>_acquisition_stream_record\<close>).

  Arguments: the readings of the clock, and the ISO text of an instant.  The columns no manifest
  reads (query filters, messages for people) are left out.
\<close>

section \<open>Rows\<close>

record page_row =
  pr_index :: int
  pr_request :: "string option"
  pr_response :: "string option"
  pr_limit :: int
  pr_raw :: int
  pr_normalized :: int
  pr_duplicates :: int
  pr_newest_lt :: "string option"
  pr_oldest_lt :: "string option"
  pr_newest_at :: "int option"
  pr_oldest_at :: "int option"
  pr_digest :: "string option"
  pr_attempts :: int
  pr_error :: "string option"
  pr_fetched :: int

record stream_row =
  sr_provider :: string
  sr_key :: string
  sr_contract :: string
  sr_scope :: string
  sr_start :: "int option"
  sr_end :: "int option"
  sr_order :: string
  sr_page_size :: int
  sr_page_cap :: int
  sr_completion :: string
  sr_reason :: "string option"
  sr_attempted :: int
  sr_succeeded :: int
  sr_raw :: int
  sr_normalized :: int
  sr_duplicates :: int
  sr_first_cursor :: "string option"
  sr_terminal_cursor :: "string option"
  sr_verified :: bool
  sr_error :: "string option"
  sr_started :: int
  sr_finished :: int
  sr_pages :: "page_row list"

record stream_clock =
  sk_started :: int
  sk_finished :: int
  sk_fetched :: "int \<Rightarrow> int"

text \<open>\<open>value or None\<close> of a text.\<close>

definition nonempty_text :: "string \<Rightarrow> string option" where
  "nonempty_text s = (if s = [] then None else Some s)"

definition page_model :: "stream_clock \<Rightarrow> page_evidence \<Rightarrow> page_row" where
  "page_model k p =
    \<lparr> pr_index = pe_index p, pr_request = pe_request p, pr_response = pe_response p, pr_limit = pe_limit p,
      pr_raw = pe_raw p, pr_normalized = pe_normalized p, pr_duplicates = pe_duplicates p,
      pr_newest_lt = pe_max p, pr_oldest_lt = pe_min p, pr_newest_at = pe_latest p, pr_oldest_at = pe_earliest p,
      pr_digest = nonempty_text (pe_digest p), pr_attempts = 1, pr_error = pe_error p,
      pr_fetched = sk_fetched k (pe_index p) \<rparr>"

definition page_succeeded :: "page_evidence \<Rightarrow> bool" where
  "page_succeeded p \<longleftrightarrow> pe_error p = None"

definition stream_model :: "stream_clock \<Rightarrow> stream_evidence \<Rightarrow> stream_row" where
  "stream_model k s =
    \<lparr> sr_provider = ''tonapi'', sr_key = se_key s, sr_contract = se_contract s, sr_scope = se_scope s,
      sr_start = map_option fst (se_bounds s), sr_end = map_option snd (se_bounds s),
      sr_order = ''logical_time_desc'', sr_page_size = se_page_size s, sr_page_cap = se_page_cap s,
      sr_completion = se_completion s, sr_reason = nonempty_text (se_reason s),
      sr_attempted = se_page_count s, sr_succeeded = int (length (filter page_succeeded (se_pages s))),
      sr_raw = se_raw s, sr_normalized = se_normalized s, sr_duplicates = se_duplicates s,
      sr_first_cursor = se_first_cursor s, sr_terminal_cursor = se_terminal_cursor s,
      sr_verified = se_verified s, sr_error = se_error s, sr_started = sk_started k,
      sr_finished = sk_finished k, sr_pages = map (page_model k) (se_pages s) \<rparr>"

section \<open>Records\<close>

definition iso_field :: "(int \<Rightarrow> string) \<Rightarrow> int option \<Rightarrow> pyval" where
  "iso_field iso_text t = of_string (map_option iso_text t)"

definition page_response :: "(int \<Rightarrow> string) \<Rightarrow> page_row \<Rightarrow> py_dict" where
  "page_response iso_text p =
    [(''page_index'', PInt (pr_index p)), (''request_cursor'', of_string (pr_request p)),
     (''response_cursor'', of_string (pr_response p)), (''requested_limit'', PInt (pr_limit p)),
     (''raw_count'', PInt (pr_raw p)), (''normalized_count'', PInt (pr_normalized p)),
     (''duplicate_count'', PInt (pr_duplicates p)), (''min_logical_time'', of_string (pr_oldest_lt p)),
     (''max_logical_time'', of_string (pr_newest_lt p)), (''min_timestamp'', iso_field iso_text (pr_oldest_at p)),
     (''max_timestamp'', iso_field iso_text (pr_newest_at p)),
     (''response_digest'', PStr (case pr_digest p of None \<Rightarrow> [] | Some s \<Rightarrow> s)),
     (''attempt_count'', PInt (pr_attempts p)), (''error_code'', of_string (pr_error p)),
     (''fetched_at'', PStr (iso_text (pr_fetched p)))]"

definition stream_response :: "(int \<Rightarrow> string) \<Rightarrow> stream_row \<Rightarrow> py_dict" where
  "stream_response iso_text s =
    [(''provider'', PStr (sr_provider s)), (''stream_key'', PStr (sr_key s)),
     (''contract_version'', PStr (sr_contract s)), (''scope_kind'', PStr (sr_scope s)),
     (''requested_start'', iso_field iso_text (sr_start s)), (''requested_end'', iso_field iso_text (sr_end s)),
     (''sort_order'', PStr (sr_order s)), (''page_size'', PInt (sr_page_size s)),
     (''page_cap'', PInt (sr_page_cap s)), (''completion_state'', PStr (sr_completion s)),
     (''termination_reason'', of_string (sr_reason s)), (''page_count'', PInt (sr_attempted s)),
     (''pages_succeeded'', PInt (sr_succeeded s)), (''raw_count'', PInt (sr_raw s)),
     (''normalized_count'', PInt (sr_normalized s)), (''duplicate_count'', PInt (sr_duplicates s)),
     (''first_cursor'', of_string (sr_first_cursor s)), (''terminal_cursor'', of_string (sr_terminal_cursor s)),
     (''bounds_verified'', PBool (sr_verified s)), (''started_at'', PStr (iso_text (sr_started s))),
     (''finished_at'', PStr (iso_text (sr_finished s))), (''error_code'', of_string (sr_error s)),
     (''pages'', PList (map PDict (map (page_response iso_text) (sort_key pr_index (sr_pages s)))))]"

text \<open>The streams of a run, as its response lists them.\<close>

definition run_streams :: "(int \<Rightarrow> string) \<Rightarrow> (stream_clock \<times> stream_evidence) list \<Rightarrow> pyval" where
  "run_streams iso_text ses = PList (map (PDict \<circ> stream_response iso_text)
    (sort_key (\<lambda>r. (sr_provider r, sr_key r)) (map (\<lambda>(k, s). stream_model k s) ses)))"

section \<open>The progress a checkpoint reads off a stream\<close>

text \<open>Text without surrounding white space is kept up to its length limit.\<close>

definition plain_label :: "nat \<Rightarrow> string \<Rightarrow> bool" where
  "plain_label n s \<longleftrightarrow> s \<noteq> [] \<and> length s \<le> n \<and> list_all (\<lambda>c. \<not> is_space c) s"

lemma strip_unspaced: "list_all (\<lambda>c. \<not> is_space c) s \<Longrightarrow> strip s = s"
  by (simp add: strip_def dropWhile_eq_self_iff list_all_iff hd_conv_nth [symmetric] split: if_splits)
    (metis dropWhile_eq_self_iff hd_in_set rev_rev_ident set_rev)

lemma cleaned_plain: "plain_label n s \<Longrightarrow> cleaned_text n (PStr s) = Some s"
  by (simp add: cleaned_text_def plain_label_def strip_unspaced)

lemma exact_plain: "plain_label n s \<Longrightarrow> exact_text n (PStr s) = Some s"
  by (simp add: exact_text_def plain_label_def strip_unspaced)

lemma known_plain: "plain_label n s \<Longrightarrow> known_text n (PStr s) = s"
  by (simp add: known_text_def cleaned_plain) (simp add: plain_label_def)

definition plain_option :: "nat \<Rightarrow> string option \<Rightarrow> bool" where
  "plain_option n v \<longleftrightarrow> (case v of None \<Rightarrow> True | Some s \<Rightarrow> plain_label n s)"

lemma option_kept:
  "plain_option n v \<Longrightarrow> cleaned_text n (of_string v) = v"
  "plain_option n v \<Longrightarrow> exact_text n (of_string v) = v"
  by (auto simp: plain_option_def of_string_def cleaned_plain exact_plain split: option.splits)
    (simp_all add: cleaned_text_def exact_text_def)

end
