(* ===== verification/Acquisition_Pages.thy ===== *)
theory Acquisition_Pages
  imports Transaction_Acquisition
begin

text \<open>
  What the page checks of the two modules have in common: a row the TonAPI adapter normalizes passes
  the validation of the acquisition, and a page of such rows does.
\<close>

section \<open>Canonical fields\<close>

lemma lt_text_read: "lt_text s \<Longrightarrow> show_int (lt_of s) = s \<and> 1 \<le> lt_of s"
proof -
  assume s: "lt_text s"
  then have "show_nat (read_nat s) = s" "0 < read_nat s"
    by (auto simp: lt_text_def is_canonical_nat_def intro: show_read_nat read_nat_pos)
  then show ?thesis by (simp add: show_int_def lt_of_def)
qed

lemma show_int_lt:
  assumes "1 \<le> i" "i \<le> max_lt"
  shows "lt_text (show_int i)" "lt_of (show_int i) = i"
proof -
  have "nat i < 10 ^ 20" using assms by (simp add: max_lt_def nat_less_iff)
  then have "length (show_nat (nat i)) \<le> 20" by (rule show_nat_length) simp
  then show "lt_text (show_int i)"
    using assms show_nat_hd [of "nat i"] by (simp add: lt_text_def show_int_def show_nat_digits)
  show "lt_of (show_int i) = i" using assms by (simp add: lt_of_def show_int_def)
qed

lemma strict_lt_canonical: "strict_lt v = Some s \<Longrightarrow> lt_text s \<and> lt_of s \<le> max_lt"
  using show_int_lt by (cases v) (fastforce simp: strict_lt_def lt_of_def split: if_splits)+

lemma strict_logical_time_iff: "strict_logical_time v = Some s \<longleftrightarrow> v = PStr s \<and> lt_text s \<and> lt_of s \<le> max_lt"
  by (cases v) (auto simp: strict_logical_time_def)

lemma strict_nonnegative_canonical: "strict_nonnegative v = Some s \<Longrightarrow> canonical_uint_string (PStr s)"
proof (cases v)
  case (PInt i)
  assume "strict_nonnegative v = Some s"
  then have s: "s = show_int i" "0 \<le> i" "i \<le> max_lt" using PInt by (auto simp: strict_nonnegative_def split: if_splits)
  show ?thesis
  proof (cases "i = 0")
    case True
    then show ?thesis using s by (simp add: canonical_uint_string_def show_int_def show_nat.simps digit_char_def dec_digits_def)
  next
    case False
    then show ?thesis using s show_int_lt [of i] by (simp add: canonical_uint_string_def)
  qed
qed (auto simp: strict_nonnegative_def canonical_uint_string_def lt_of_def split: if_splits)

lemma hash_text_plain: "hash_text h \<Longrightarrow> plain_text (PStr h)"
  by (auto simp: hash_text_def plain_text_def)

section \<open>Normalized rows\<close>

text \<open>A dict with the fields the acquisition reads, each in canonical form, and a valid instant.\<close>

definition row_time :: "py_dict \<Rightarrow> int option" where
  "row_time d = (case transaction_timestamp (dget d ''utime'') of Inr (Some t) \<Rightarrow> Some t | _ \<Rightarrow> None)"

definition row_lt :: "py_dict \<Rightarrow> int" where "row_lt d = lt_of (field ''logical_time'' d)"

definition good_row :: "py_dict \<Rightarrow> bool" where
  "good_row d \<longleftrightarrow>
     plain_text (dget d ''tx_hash'') \<and>
     (dget d ''total_fees'' = PNone \<or> canonical_uint_string (dget d ''total_fees'')) \<and>
     strict_logical_time (dget d ''logical_time'') = Some (field ''logical_time'' d) \<and>
     transaction_timestamp (dget d ''utime'') = Inr (row_time d)"

lemma dget_cons: "dget ((k, v) # d) j = (if j = k then v else dget d j)"
  by (simp add: dget_def)

lemma normalized_good:
  assumes "normalize_transaction repr account raw = Inr d"
  shows "good_row d"
proof -
  obtain h where h: "dget raw ''hash'' = PStr h" "hash_text h"
    using assms by (auto simp: normalize_transaction_def split: pyval.splits)
  then obtain lt where lt: "strict_lt (dget raw ''lt'') = Some lt"
    using assms by (auto simp: normalize_transaction_def split: option.splits)
  let ?fees = "strict_nonnegative (dget raw ''total_fees'')"
  obtain utime where u: "optional_int (dget raw ''utime'') = Inr utime"
    using assms h lt by (auto simp: normalize_transaction_def Let_def bind_result_Inr)
  have d: "dget d ''tx_hash'' = PStr h" "dget d ''logical_time'' = PStr lt"
    "dget d ''total_fees'' = of_string ?fees" "dget d ''utime'' = of_int utime"
    using assms h lt u by (auto simp: normalize_transaction_def Let_def bind_result_Inr dget_cons)
  have "of_string ?fees = PNone \<or> canonical_uint_string (of_string ?fees)"
    by (cases ?fees) (auto simp: of_string_def dest: strict_nonnegative_canonical)
  moreover have "transaction_timestamp (of_int utime) = Inr (row_time d)"
    unfolding row_time_def d(4)
    by (cases utime) (simp_all add: of_int_def transaction_timestamp_def option.case_eq_if)
  ultimately show ?thesis
    using h(2) strict_lt_canonical [OF lt]
    by (simp add: good_row_def d field_def hash_text_plain strict_logical_time_iff)
qed

lemma each_row_Inr:
  "each_row f i vs = Inr as \<Longrightarrow> list_all2 (\<lambda>v a. \<exists>j. f j v = Inr a) vs as"
  by (induction vs arbitrary: i as) (auto simp: bind_result_Inr)

lemma each_row_all:
  "list_all2 (\<lambda>v a. \<forall>j. f j v = Inr a) vs as \<Longrightarrow> each_row f i vs = Inr as"
  by (induction vs as arbitrary: i rule: list_all2_induct) auto

section \<open>Pages of good rows\<close>

text \<open>Strictly descending logical times, and timestamps in the same order.\<close>

definition newest_first :: "py_dict list \<Rightarrow> bool" where
  "newest_first ds \<longleftrightarrow> sorted_wrt (>) (map row_lt ds) \<and> sorted_wrt (\<ge>) (map (\<lambda>d. the (row_time d)) ds)"

definition timed_rows :: "py_dict list \<Rightarrow> bool" where
  "timed_rows ds \<longleftrightarrow> list_all (\<lambda>d. good_row d \<and> row_time d \<noteq> None) ds"

lemma check_good_rows:
  assumes "timed_rows ds" "newest_first ds"
    and "\<And>p d. prior_lt = Some p \<Longrightarrow> d \<in> set ds \<Longrightarrow> row_lt d < p"
    and "\<And>p d. prior_time = Some p \<Longrightarrow> d \<in> set ds \<Longrightarrow> the (row_time d) \<le> p"
  shows "check_transaction_rows timed i prior_lt prior_time (map PDict ds) = Inr (map (\<lambda>d. (d, row_time d)) ds)"
  using assms
proof (induction ds arbitrary: i prior_lt prior_time)
  case (Cons d ds)
  obtain t where t: "row_time d = Some t" using Cons.prems(1) by (auto simp: timed_rows_def)
  have good: "good_row d" using Cons.prems(1) by (simp add: timed_rows_def)
  have lt: "\<not> not_below (row_lt d) prior_lt" using Cons.prems(3) [of _ d] by (cases prior_lt) (auto simp: not_below_def)
  have later: "\<not> known_later (Some t) prior_time"
    using Cons.prems(4) [of _ d] t by (cases prior_time) (auto simp: known_later_def)
  have "check_transaction_rows timed (Suc i) (Some (row_lt d)) (Some t) (map PDict ds) =
      Inr (map (\<lambda>d. (d, row_time d)) ds)"
    by (rule Cons.IH) (use Cons.prems t in \<open>auto simp: timed_rows_def newest_first_def\<close>)
  then show ?case
    using good lt later t
    by (simp add: good_row_def as_dict_def row_lt_def latest_known_def)
qed simp

lemma low_high_text:
  assumes "list_all good_row ds" "ds \<noteq> []"
  shows "\<exists>low high. low_high (map row_lt ds) = (Some low, Some high) \<and>
    strict_logical_time (PStr low) = Some low \<and> lt_of low = Min (row_lt ` set ds)"
proof -
  have "Min (row_lt ` set ds) \<in> row_lt ` set ds" using assms(2) by simp
  then obtain d where d: "d \<in> set ds" "Min (row_lt ` set ds) = row_lt d" by auto
  then have "strict_logical_time (dget d ''logical_time'') = Some (field ''logical_time'' d)"
    using assms(1) by (simp add: list_all_iff good_row_def)
  then have lt: "lt_text (field ''logical_time'' d)" "row_lt d \<le> max_lt"
    by (simp_all add: strict_logical_time_iff row_lt_def)
  then have "show_int (row_lt d) = field ''logical_time'' d" using lt_text_read by (simp add: row_lt_def)
  with lt have "strict_logical_time (PStr (show_int (row_lt d))) = Some (show_int (row_lt d))"
      "lt_of (show_int (row_lt d)) = row_lt d"
    by (simp_all add: strict_logical_time_iff row_lt_def)
  then show ?thesis
    using assms(2) by (simp add: low_high_def d(2))
qed

text \<open>A page the adapter builds of such rows below the request's cursor is accepted.\<close>

lemma good_page_accepted:
  assumes rows: "timed_rows ds" "newest_first ds" "int (length ds) \<le> n"
    and below: "\<And>c d. cursor = Some c \<Longrightarrow> d \<in> set ds \<Longrightarrow> row_lt d < lt_of c"
  shows "validate_transaction_page digest (transaction_page account n cursor ds) cursor n True =
    Inr (page_of_rows digest (transaction_page account n cursor ds) (fst (low_high (map row_lt ds)))
      (fst (low_high (map row_lt ds))) (snd (low_high (map row_lt ds))) (map (\<lambda>d. (d, row_time d)) ds))"
proof -
  let ?v = "transaction_page account n cursor ds"
  obtain low high where lh: "low_high (map row_lt ds) = (low, high)" by (cases "low_high (map row_lt ds)")
  have lh': "low_high (map (\<lambda>d. lt_of (field ''logical_time'' d)) ds) = (low, high)"
    using lh by (simp add: row_lt_def [abs_def])
  have v: "?v = PDict [(''wallet_address'', PStr account), (''requested_limit'', PInt n),
       (''request_before_lt'', of_string cursor), (''raw_count'', PInt (int (length ds))),
       (''min_logical_time'', of_string low), (''max_logical_time'', of_string high),
       (''next_before_lt'', of_string low), (''transactions'', PList (map PDict ds))]"
    by (simp add: transaction_page_def lh')
  have checked: "check_transaction_rows True 0 None None (map PDict ds) = Inr (map (\<lambda>d. (d, row_time d)) ds)"
    by (rule check_good_rows [OF rows(1,2)]) simp_all
  show ?thesis
  proof (cases "ds = []")
    case True
    then have "low = None" "high = None" using lh by (auto simp: low_high_def)
    then show ?thesis
      using True rows(3) unfolding v validate_transaction_page_def
      by (simp add: as_dict_def dget_cons is_bool_def low_high_def of_string_def)
  next
    case False
    have "list_all good_row ds" using rows(1) by (simp add: timed_rows_def list_all_iff)
    from low_high_text [OF this False] obtain lo hi where
      lo: "low = Some lo" "strict_logical_time (PStr lo) = Some lo" "lt_of lo = Min (row_lt ` set ds)"
      by (auto simp: lh)
    have "Min (row_lt ` set ds) < lt_of c" if "cursor = Some c" for c
      using below [OF that] False by (auto simp: Min_less_iff ex_in_conv)
    then have adv: "\<not> (case cursor of None \<Rightarrow> False | Some c \<Rightarrow> lt_of lo \<ge> lt_of c)"
      by (auto simp: lo(3) not_le split: option.split)
    have r: "of_string (Some lo) = PStr lo" by (simp add: of_string_def)
    show ?thesis
      using False rows(3) adv lo(1,2) unfolding v validate_transaction_page_def
      by (simp add: as_dict_def dget_cons is_bool_def checked comp_def row_lt_def [symmetric] lh r Let_def
          cong: option.case_cong)
  qed
qed

end
