(* ===== verification/Acquisition_Results.thy ===== *)
theory Acquisition_Results
  imports Acquisition_Pages
begin

text \<open>
  What an acquisition of transactions establishes when the provider answers from the account's
  history: completeness, resumption and the number of pages.  The provider may fail any request, and
  the history may grow while the pages are read.
\<close>

section \<open>A provider that answers from a history\<close>

definition normal_account :: "tonapi \<Rightarrow> string" where "normal_account ta = strip (ta_account ta)"

definition normalizes :: "tonapi \<Rightarrow> py_dict \<Rightarrow> py_dict \<Rightarrow> bool" where
  "normalizes ta raw d \<longleftrightarrow> normalize_transaction (ta_repr ta) (normal_account ta) raw = Inr d"

definition below :: "string option \<Rightarrow> py_dict \<Rightarrow> bool" where
  "below cursor d \<longleftrightarrow> (case cursor of None \<Rightarrow> True | Some c \<Rightarrow> row_lt d < lt_of c)"

definition history :: "py_dict list \<Rightarrow> bool" where
  "history ds \<longleftrightarrow> timed_rows ds \<and> newest_first ds"

text \<open>
  The documented behaviour of the endpoint: up to \<open>limit\<close> transactions below the cursor, newest first.
  \<open>D\<close> is the history, as normalized rows, when the first page is asked for; what is newer appears
  above it, and above the cursor the acquisition starts from.
\<close>

definition answers_from ::
  "tonapi \<Rightarrow> string option \<Rightarrow> py_dict list \<Rightarrow> nat \<Rightarrow> int \<Rightarrow> string option \<Rightarrow> fetched \<Rightarrow> bool" where
  "answers_from ta start D k limit cursor r \<longleftrightarrow>
    (\<exists>newer raws. history (newer @ D) \<and> (k = 0 \<and> start = None \<longrightarrow> newer = []) \<and>
      (\<forall>d \<in> set newer. start = None \<or> \<not> below start d) \<and>
      r = Fetched (PDict [(''transactions'', PList (map PDict raws))]) \<and>
      list_all2 (normalizes ta) raws (take (nat limit) (filter (below cursor) (newer @ D))))"

definition serves ::
  "tonapi \<Rightarrow> (nat \<Rightarrow> int \<Rightarrow> string option \<Rightarrow> fetched) \<Rightarrow> string option \<Rightarrow> py_dict list \<Rightarrow> bool" where
  "serves ta net start D \<longleftrightarrow>
    (\<forall>k limit cursor. (\<exists>e. net k limit cursor = Fetch_Failed e) \<or> answers_from ta start D k limit cursor (net k limit cursor))"

definition never_fails :: "(nat \<Rightarrow> int \<Rightarrow> string option \<Rightarrow> fetched) \<Rightarrow> bool" where
  "never_fails net \<longleftrightarrow> (\<forall>k limit cursor e. net k limit cursor \<noteq> Fetch_Failed e)"

definition in_period :: "int \<times> int \<Rightarrow> py_dict \<Rightarrow> bool" where
  "in_period b d \<longleftrightarrow> (case row_time d of None \<Rightarrow> False | Some t \<Rightarrow> fst b \<le> t \<and> t < snd b)"

section \<open>Histories\<close>

lemma history_append:
  "history (xs @ ys) \<longleftrightarrow> history xs \<and> history ys \<and>
     (\<forall>x \<in> set xs. \<forall>y \<in> set ys. row_lt x > row_lt y \<and> the (row_time x) \<ge> the (row_time y))"
  by (auto simp: history_def timed_rows_def newest_first_def sorted_wrt_append)

lemma history_filter: "history ds \<Longrightarrow> history (filter p ds)"
  by (auto simp: history_def timed_rows_def newest_first_def sorted_wrt_map list_all_iff
      intro: sorted_wrt_filter)

lemma history_time: "history ds \<Longrightarrow> d \<in> set ds \<Longrightarrow> \<exists>t. row_time d = Some t"
  by (auto simp: history_def timed_rows_def list_all_iff)

lemma history_good: "history ds \<Longrightarrow> d \<in> set ds \<Longrightarrow> good_row d"
  by (auto simp: history_def timed_rows_def list_all_iff)

lemma history_cursor: "history ds \<Longrightarrow> d \<in> set ds \<Longrightarrow> lt_text (field ''logical_time'' d) \<and> row_lt d \<le> max_lt"
  using history_good [of ds d] by (auto simp: good_row_def strict_logical_time_iff row_lt_def)

text \<open>Below the last row read is exactly what is left.\<close>

lemma rest_below:
  assumes "history (P @ R)" "P \<noteq> []"
  shows "filter (\<lambda>d. row_lt d < row_lt (last P)) (P @ R) = R"
proof -
  have last: "last P \<in> set P" using assms(2) by simp
  have P: "\<not> row_lt d < row_lt (last P)" if "d \<in> set P" for d
  proof -
    have P: "P = butlast P @ [last P]" using assms(2) by simp
    have "history (butlast P @ [last P])" using assms(1) P by (simp add: history_append)
    then have "\<forall>x \<in> set (butlast P). row_lt (last P) < row_lt x" by (simp add: history_append)
    moreover have "d \<in> set (butlast P) \<or> d = last P" using that P by (metis Un_iff set_append empty_iff insert_iff list.set)
    ultimately show ?thesis by auto
  qed
  have "row_lt d < row_lt (last P)" if "d \<in> set R" for d
    using assms(1) last that by (simp add: history_append)
  with P show ?thesis by (simp add: filter_id_conv filter_empty_conv)
qed

lemma served_rest:
  assumes hist: "history (newer @ D)" and start: "\<forall>d \<in> set newer. start = None \<or> \<not> below start d"
    and first: "P = [] \<and> start = None \<longrightarrow> newer = []"
    and split: "filter (below start) D = P @ R"
    and cursor: "cursor = (if P = [] then start else Some (field ''logical_time'' (last P)))"
  shows "filter (below cursor) (newer @ D) = R"
proof (cases "P = []")
  case True
  then have "filter (below cursor) newer = []"
    using start first cursor by (auto simp: filter_empty_conv)
  with True split cursor show ?thesis by simp
next
  case False
  have last: "last P \<in> set D" "below start (last P)"
  proof -
    have "last P \<in> set (filter (below start) D)" unfolding split using False by simp
    then show "last P \<in> set D" "below start (last P)" by auto
  qed
  have c: "below cursor d \<longleftrightarrow> row_lt d < row_lt (last P)" for d
    using False cursor by (simp add: below_def row_lt_def)
  have "filter (below cursor) newer = []"
    using hist last(1) c by (fastforce simp: history_append filter_empty_conv)
  moreover have "filter (below cursor) D = filter (below cursor) (filter (below start) D)"
  proof -
    have "below cursor d \<Longrightarrow> below start d" for d
      using last(2) c by (auto simp: below_def split: option.splits)
    then show ?thesis by (simp add: filter_filter) (metis (mono_tags, lifting))
  qed
  moreover have "history (P @ R)" using hist split history_filter [of D] by (metis history_append)
  moreover have "below cursor = (\<lambda>d. row_lt d < row_lt (last P))" using c by (rule ext)
  ultimately show ?thesis using rest_below [of P R] False by (simp add: split)
qed

lemma last_lowest:
  assumes "history ds" "ds \<noteq> []"
  shows "fst (low_high (map row_lt ds)) = Some (field ''logical_time'' (last ds))"
proof -
  have ds: "ds = butlast ds @ [last ds]" using assms(2) by simp
  then have "history (butlast ds @ [last ds])" using assms(1) by simp
  then have "\<forall>x \<in> set (butlast ds). row_lt (last ds) < row_lt x" by (simp add: history_append)
  then have "\<forall>x \<in> set (butlast ds @ [last ds]). row_lt (last ds) \<le> row_lt x" by auto
  then have "\<forall>x \<in> set ds. row_lt (last ds) \<le> row_lt x" using ds by simp
  then have "Min (row_lt ` set ds) = row_lt (last ds)"
    using assms(2) by (intro Min_eqI) auto
  moreover have "show_int (row_lt (last ds)) = field ''logical_time'' (last ds)"
    using history_cursor [OF assms(1), of "last ds"] assms(2) lt_text_read by (simp add: row_lt_def)
  ultimately show ?thesis using assms(2) by (simp add: low_high_def)
qed

section \<open>One page\<close>

lemma take_history: "history ds \<Longrightarrow> history (take n ds)"
  by (metis append_take_drop_id history_append)

lemma request_served:
  assumes "\<not> ta_mock ta" "normal_account ta \<noteq> []" "1 \<le> n" "n \<le> 1000"
    and "cursor = None \<or> (\<exists>c. cursor = Some c \<and> lt_text c \<and> lt_of c \<le> max_lt)"
    and "fetch n cursor = Fetched (PDict [(''transactions'', PList (map PDict raws))])"
    and "list_all2 (normalizes ta) raws ds" "history ds" "int (length ds) \<le> n"
    and "\<forall>d \<in> set ds. below cursor d"
  shows "get_account_transactions_page ta fetch n cursor =
    Provider_Ok (transaction_page (normal_account ta) n cursor ds)"
proof -
  have account: "optional_string (ta_repr ta) (PStr (ta_account ta)) = Some (normal_account ta)"
    using assms(2) by (simp add: optional_string_def py_text_def normal_account_def Let_def)
  have before: "checked_before cursor = Inr cursor"
    using assms(5) by (auto simp: checked_before_def strict_lt_def lt_of_def)
  have rows: "normalize_account_transactions_response (ta_repr ta) (normal_account ta)
      (PDict [(''transactions'', PList (map PDict raws))]) = Inr ds"
    unfolding normalize_account_transactions_response_def
    by (simp add: as_dict_def dget_cons)
      (rule each_row_all, use assms(7) in \<open>simp add: list_all2_map1 as_dict_def normalizes_def [abs_def]\<close>)
  have times: "map (\<lambda>d. lt_of (field ''logical_time'' d)) ds = map row_lt ds"
    by (simp add: row_lt_def)
  have "sorted_wrt (>) (map row_lt ds)" using assms(8) by (simp add: history_def newest_first_def)
  moreover have "below_cursor cursor (map row_lt ds)"
    using assms(10) by (auto simp: below_cursor_def below_def split: option.splits)
  ultimately show ?thesis
    using assms(1,3,4,6,9)
    by (simp add: get_account_transactions_page_def account before rows times protocol_failure_def Let_def)
qed

lemma scan_new_rows:
  assumes "history ds"
    and "\<forall>d \<in> set ds. \<not> not_below (row_lt d) (sc_lt s)"
    and "\<forall>d \<in> set ds. \<not> known_later (row_time d) (sc_time s)"
    and "\<forall>x \<in> set (sc_seen s). \<forall>d \<in> set ds. row_lt d < lt_of (fst (fst x))"
  shows "\<exists>c. scan_rows (Some b) (map (\<lambda>d. (d, row_time d)) ds) s = Inr c \<and>
    sc_accepted c = sc_accepted s @ filter (in_period b) ds \<and> sc_duplicates c = sc_duplicates s \<and>
    (sc_crossed c \<longleftrightarrow> sc_crossed s \<or> (\<exists>d \<in> set ds. the (row_time d) < fst b)) \<and>
    sc_lt c = (if ds = [] then sc_lt s else Some (row_lt (last ds))) \<and>
    sc_time c = (if ds = [] then sc_time s else row_time (last ds)) \<and>
    (\<forall>x \<in> set (sc_seen c). x \<in> set (sc_seen s) \<or> (\<exists>d \<in> set ds. lt_of (fst (fst x)) = row_lt d))"
  using assms
proof (induction ds arbitrary: s)
  case Nil
  then show ?case by simp
next
  case (Cons d ds)
  obtain t where t: "row_time d = Some t" using history_time [OF Cons.prems(1), of d] by auto
  let ?key = "(field ''logical_time'' d, py_lower (field ''tx_hash'' d))"
  have new: "map_of (sc_seen s) ?key = None"
    using Cons.prems(4) by (fastforce simp: map_of_eq_None_iff row_lt_def)
  have hist: "history ds" "\<forall>y \<in> set ds. row_lt d > row_lt y \<and> t \<ge> the (row_time y)"
    using Cons.prems(1) history_append [of "[d]" ds] t by auto
  let ?s = "s\<lparr> sc_seen := (?key, Some t) # sc_seen s, sc_lt := Some (row_lt d), sc_time := Some t \<rparr>"
  let ?r = "if t < fst b then ?s\<lparr> sc_crossed := True \<rparr> else if t \<ge> snd b then ?s else accept_row d ?s"
  have step: "scan_row (Some b) (d, row_time d) s = Inr ?r"
    using Cons.prems(2,3) new t
    by (cases b) (simp add: scan_row_def Let_def row_lt_def latest_known_def)
  have kept: "sc_seen ?r = sc_seen ?s" "sc_lt ?r = Some (row_lt d)" "sc_time ?r = Some t"
    "sc_duplicates ?r = sc_duplicates s" "sc_crossed ?r = (sc_crossed s \<or> t < fst b)"
    "sc_accepted ?r = sc_accepted s @ (if in_period b d then [d] else [])"
    by (auto simp: accept_row_def in_period_def t)
  have later: "\<forall>y \<in> set ds. \<not> known_later (row_time y) (Some t)"
    using hist history_time [OF hist(1)] by (fastforce simp: known_later_def)
  have "\<exists>c. scan_rows (Some b) (map (\<lambda>d. (d, row_time d)) ds) ?r = Inr c \<and>
    sc_accepted c = sc_accepted ?r @ filter (in_period b) ds \<and> sc_duplicates c = sc_duplicates ?r \<and>
    (sc_crossed c \<longleftrightarrow> sc_crossed ?r \<or> (\<exists>d \<in> set ds. the (row_time d) < fst b)) \<and>
    sc_lt c = (if ds = [] then sc_lt ?r else Some (row_lt (last ds))) \<and>
    sc_time c = (if ds = [] then sc_time ?r else row_time (last ds)) \<and>
    (\<forall>x \<in> set (sc_seen c). x \<in> set (sc_seen ?r) \<or> (\<exists>d \<in> set ds. lt_of (fst (fst x)) = row_lt d))"
  proof (rule Cons.IH [OF hist(1)])
    show "\<forall>y \<in> set ds. \<not> not_below (row_lt y) (sc_lt ?r)"
      unfolding kept using hist(2) by (auto simp: not_below_def)
    show "\<forall>y \<in> set ds. \<not> known_later (row_time y) (sc_time ?r)" unfolding kept by (rule later)
    show "\<forall>x \<in> set (sc_seen ?r). \<forall>y \<in> set ds. row_lt y < lt_of (fst (fst x))"
      unfolding kept using hist(2) Cons.prems(4) by (auto simp: row_lt_def)
  qed
  then obtain c where c: "scan_rows (Some b) (map (\<lambda>d. (d, row_time d)) ds) ?r = Inr c"
    "sc_accepted c = sc_accepted ?r @ filter (in_period b) ds" "sc_duplicates c = sc_duplicates ?r"
    "sc_crossed c \<longleftrightarrow> sc_crossed ?r \<or> (\<exists>d \<in> set ds. the (row_time d) < fst b)"
    "sc_lt c = (if ds = [] then sc_lt ?r else Some (row_lt (last ds)))"
    "sc_time c = (if ds = [] then sc_time ?r else row_time (last ds))"
    "\<forall>x \<in> set (sc_seen c). x \<in> set (sc_seen ?r) \<or> (\<exists>d \<in> set ds. lt_of (fst (fst x)) = row_lt d)"
    by blast
  have "scan_rows (Some b) (map (\<lambda>d. (d, row_time d)) (d # ds)) s = Inr c"
    by (simp add: step c(1) del: scan_row_def)
  moreover have "\<forall>x \<in> set (sc_seen c). x \<in> set (sc_seen s) \<or> (\<exists>y \<in> set (d # ds). lt_of (fst (fst x)) = row_lt y)"
    using c(7) unfolding kept by (auto simp: row_lt_def)
  ultimately show ?case
    using c(2-6) unfolding kept by (intro exI [of _ c]) (auto simp: t)
qed

section \<open>The loop\<close>

text \<open>
  Where a bounded acquisition stands: \<open>P\<close> are the rows it has read, \<open>R\<close> those of the history that are
  left below its starting cursor.
\<close>

definition standing ::
  "int \<times> int \<Rightarrow> string option \<Rightarrow> py_dict list \<Rightarrow> py_dict list \<Rightarrow> tx_state \<Rightarrow> bool" where
  "standing b start P R s \<longleftrightarrow>
     tx_accepted s = filter (in_period b) P \<and>
     (\<forall>d \<in> set R. \<not> not_below (row_lt d) (tx_lt s) \<and> \<not> known_later (row_time d) (tx_time s)) \<and>
     (\<forall>x \<in> set (tx_seen s). \<exists>d \<in> set P. lt_of (fst (fst x)) = row_lt d) \<and>
     tx_cursor s = (if P = [] then start else Some (field ''logical_time'' (last P)))"

definition cursor_text :: "string option \<Rightarrow> bool" where
  "cursor_text c \<longleftrightarrow> (case c of None \<Rightarrow> True | Some s \<Rightarrow> lt_text s \<and> lt_of s \<le> max_lt)"

definition bounded_env :: "tx_env \<Rightarrow> int \<times> int \<Rightarrow> string option \<Rightarrow> py_dict list \<Rightarrow> bool" where
  "bounded_env e b start D \<longleftrightarrow>
     xe_bounds e = Some b \<and> xe_mode e = Ingest \<and> \<not> ta_mock (xe_tonapi e) \<and>
     normal_account (xe_tonapi e) \<noteq> [] \<and> 1 \<le> xe_page_size e \<and> xe_page_size e \<le> 1000 \<and>
     serves (xe_tonapi e) (xe_net e) start D \<and> history D \<and> cursor_text start"

lemma split_history:
  "history D \<Longrightarrow> filter (below start) D = P @ R \<Longrightarrow> history (P @ R)"
  by (metis history_filter)

text \<open>Reading the next rows moves the standing of an acquisition.\<close>

lemma standing_extend:
  assumes at: "standing b start P R s" and hist: "history (P @ ds @ R')" and R: "R = ds @ R'"
    and c: "sc_accepted c = filter (in_period b) ds"
      "sc_lt c = (if ds = [] then tx_lt s else Some (row_lt (last ds)))"
      "sc_time c = (if ds = [] then tx_time s else row_time (last ds))"
      "\<forall>x \<in> set (sc_seen c). x \<in> set (tx_seen s) \<or> (\<exists>d \<in> set ds. lt_of (fst (fst x)) = row_lt d)"
    and low: "ds \<noteq> [] \<Longrightarrow> cp_cursor p = Some (field ''logical_time'' (last ds))"
  shows "standing b start (P @ ds) R'
    ((tx_extend e k p c s)\<lparr> tx_cursor := if ds = [] then tx_cursor s else cp_cursor p \<rparr>)"
proof -
  have rest: "\<not> not_below (row_lt d) (sc_lt c) \<and> \<not> known_later (row_time d) (sc_time c)"
    if d: "d \<in> set R'" for d
  proof (cases "ds = []")
    case True
    then show ?thesis using at c(2,3) d by (simp add: standing_def R)
  next
    case False
    then have "row_lt d < row_lt (last ds)" "the (row_time d) \<le> the (row_time (last ds))"
      "\<exists>t. row_time d = Some t" "\<exists>t. row_time (last ds) = Some t"
      using d hist by (auto simp: history_append intro: history_time)
    then show ?thesis using False c(2,3) by (auto simp: not_below_def known_later_def)
  qed
  have "\<exists>d \<in> set (P @ ds). lt_of (fst (fst x)) = row_lt d" if "x \<in> set (sc_seen c)" for x
  proof -
    from that c(4) consider "x \<in> set (tx_seen s)" | "\<exists>d \<in> set ds. lt_of (fst (fst x)) = row_lt d" by blast
    then show ?thesis
    proof cases
      case 1
      then have "\<exists>d \<in> set P. lt_of (fst (fst x)) = row_lt d" using at by (simp add: standing_def)
      then show ?thesis by auto
    qed auto
  qed
  moreover have "tx_accepted s = filter (in_period b) P" using at by (simp add: standing_def)
  moreover have "(if ds = [] then tx_cursor s else cp_cursor p) =
      (if P @ ds = [] then start else Some (field ''logical_time'' (last (P @ ds))))"
    using low at by (simp add: standing_def)
  ultimately show ?thesis
    using c(1) rest unfolding standing_def tx_extend_def by simp
qed

text \<open>One page of an honest provider: the next rows are read, or the request failed.\<close>

lemma honest_page:
  assumes env: "bounded_env e b start D" and split: "filter (below start) D = P @ R"
    and at: "standing b start P R s" and first: "k = 0 \<or> P \<noteq> []"
  shows "(\<exists>code. tx_request e k (tx_cursor s) = Provider_Failed code \<and>
      (\<exists>c x. xe_net e k x c = Fetch_Failed code)) \<or>
    (\<exists>v p c. tx_request e k (tx_cursor s) = Provider_Ok v \<and> tx_page e (tx_data e v) s = Inr (p, c) \<and>
      cp_raw p = int (length (take (nat (xe_page_size e)) R)) \<and>
      (sc_crossed c \<longleftrightarrow> (\<exists>d \<in> set (take (nat (xe_page_size e)) R). the (row_time d) < fst b)) \<and>
      standing b start (P @ take (nat (xe_page_size e)) R) (drop (nat (xe_page_size e)) R)
        ((tx_extend e k p c s)\<lparr> tx_cursor := if take (nat (xe_page_size e)) R = [] then tx_cursor s else cp_cursor p \<rparr>) \<and>
      (take (nat (xe_page_size e)) R = [] \<longrightarrow> cp_cursor p = None))"
proof -
  let ?ta = "xe_tonapi e" and ?n = "xe_page_size e" and ?cursor = "tx_cursor s"
  define ds where "ds = take (nat ?n) R"
  have b: "xe_bounds e = Some b" and n: "1 \<le> ?n" "?n \<le> 1000"
    using env by (simp_all add: bounded_env_def)
  have cursor: "?cursor = (if P = [] then start else Some (field ''logical_time'' (last P)))"
    using at by (simp add: standing_def)
  have hist: "history (P @ R)" using env split by (auto simp: bounded_env_def intro: split_history)
  have canonical: "?cursor = None \<or> (\<exists>c. ?cursor = Some c \<and> lt_text c \<and> lt_of c \<le> max_lt)"
    using env cursor history_cursor [OF hist, of "last P"]
    by (auto simp: bounded_env_def cursor_text_def row_lt_def split: option.splits if_splits)
  have "xe_net e k ?n ?cursor = Fetch_Failed code \<Longrightarrow> tx_request e k ?cursor = Provider_Failed code" for code
    using env canonical by (auto simp: tx_request_def get_account_transactions_page_def bounded_env_def
      optional_string_def py_text_def normal_account_def Let_def checked_before_def strict_lt_def lt_of_def
      split: option.splits)
  moreover
  {
    assume "\<not> (\<exists>code. xe_net e k ?n ?cursor = Fetch_Failed code)"
    then have "answers_from ?ta start D k ?n ?cursor (xe_net e k ?n ?cursor)"
      using env unfolding bounded_env_def serves_def by blast
    then obtain newer raws where served: "history (newer @ D)" "k = 0 \<and> start = None \<longrightarrow> newer = []"
      "\<forall>d \<in> set newer. start = None \<or> \<not> below start d"
      "xe_net e k ?n ?cursor = Fetched (PDict [(''transactions'', PList (map PDict raws))])"
      "list_all2 (normalizes ?ta) raws (take (nat ?n) (filter (below ?cursor) (newer @ D)))"
      by (auto simp: answers_from_def)
    have rest: "filter (below ?cursor) (newer @ D) = R"
      by (rule served_rest [OF served(1,3) _ split cursor]) (use served(2) first in auto)
    have ds: "history ds" "int (length ds) \<le> ?n"
      using hist n unfolding ds_def by (auto simp: history_append intro: take_history)
    have below: "\<forall>d \<in> set ds. below ?cursor d"
    proof
      fix d assume "d \<in> set ds"
      then have "d \<in> set (filter (below ?cursor) (newer @ D))" unfolding rest ds_def by (rule in_set_takeD)
      then show "below ?cursor d" by auto
    qed
    have "tx_request e k ?cursor = get_account_transactions_page ?ta (xe_net e k) ?n ?cursor"
      by (simp add: tx_request_def b)
    also have "\<dots> = Provider_Ok (transaction_page (normal_account ?ta) ?n ?cursor ds)"
    proof (rule request_served [where fetch = "xe_net e k" and raws = raws])
      show "\<not> ta_mock ?ta" "normal_account ?ta \<noteq> []" using env by (simp_all add: bounded_env_def)
      show "list_all2 (normalizes ?ta) raws ds" using served(5) by (simp only: rest ds_def)
    qed (fact n canonical served(4) ds below)+
    finally have req: "tx_request e k ?cursor = Provider_Ok (transaction_page (normal_account ?ta) ?n ?cursor ds)" .
    let ?v = "transaction_page (normal_account ?ta) ?n ?cursor ds" and ?low = "fst (low_high (map row_lt ds))"
    let ?p = "page_of_rows (xe_digest e) ?v ?low ?low (snd (low_high (map row_lt ds))) (map (\<lambda>d. (d, row_time d)) ds)"
    have page: "validate_transaction_page (xe_digest e) ?v ?cursor ?n True = Inr ?p"
      by (rule good_page_accepted) (use ds below in \<open>auto simp: history_def below_def\<close>)
    have sub: "set ds \<subseteq> set R" unfolding ds_def by (rule set_take_subset)
    define s0 where "s0 = \<lparr> sc_seen = tx_seen s, sc_lt = tx_lt s, sc_time = tx_time s, sc_duplicates = 0,
      sc_accepted = [], sc_crossed = False \<rparr>"
    have s0: "sc_seen s0 = tx_seen s" "sc_lt s0 = tx_lt s" "sc_time s0 = tx_time s" "sc_accepted s0 = []"
      "sc_crossed s0 = False" by (simp_all add: s0_def)
    have new: "\<forall>d \<in> set ds. \<not> not_below (row_lt d) (tx_lt s)" "\<forall>d \<in> set ds. \<not> known_later (row_time d) (tx_time s)"
      using at sub by (auto simp: standing_def)
    have unseen: "\<forall>x \<in> set (tx_seen s). \<forall>d \<in> set ds. row_lt d < lt_of (fst (fst x))"
    proof (intro ballI)
      fix x d assume "x \<in> set (tx_seen s)" and d: "d \<in> set ds"
      then obtain y where "y \<in> set P" "lt_of (fst (fst x)) = row_lt y" using at by (auto simp: standing_def)
      moreover have "d \<in> set R" using d sub by blast
      ultimately show "row_lt d < lt_of (fst (fst x))" using hist by (simp add: history_append)
    qed
    obtain c where c: "scan_rows (Some b) (map (\<lambda>d. (d, row_time d)) ds) s0 = Inr c"
      "sc_accepted c = filter (in_period b) ds" "sc_crossed c \<longleftrightarrow> (\<exists>d \<in> set ds. the (row_time d) < fst b)"
      "sc_lt c = (if ds = [] then tx_lt s else Some (row_lt (last ds)))"
      "sc_time c = (if ds = [] then tx_time s else row_time (last ds))"
      "\<forall>x \<in> set (sc_seen c). x \<in> set (tx_seen s) \<or> (\<exists>d \<in> set ds. lt_of (fst (fst x)) = row_lt d)"
      using scan_new_rows [OF ds(1), of s0 b] new unseen unfolding s0 append_Nil simp_thms by blast
    have tp: "tx_page e (tx_data e ?v) s = Inr (?p, c)"
      by (simp add: tx_page_def tx_data_def b page page_of_rows_def Let_def s0_def [symmetric] c(1))
    have raw: "cp_raw ?p = int (length ds)" and cur: "cp_cursor ?p = ?low"
      by (simp_all add: page_of_rows_def Let_def)
    have st: "standing b start (P @ ds) (drop (nat ?n) R)
        ((tx_extend e k ?p c s)\<lparr> tx_cursor := if ds = [] then ?cursor else cp_cursor ?p \<rparr>)"
    proof (rule standing_extend [OF at])
      show "history (P @ ds @ drop (nat ?n) R)" using hist by (simp add: ds_def)
      show "R = ds @ drop (nat ?n) R" by (simp add: ds_def)
      show "cp_cursor ?p = Some (field ''logical_time'' (last ds))" if "ds \<noteq> []"
        unfolding cur using last_lowest [OF ds(1) that] .
    qed (fact c)+
    have low: "ds = [] \<longrightarrow> cp_cursor ?p = None" unfolding cur by (simp add: low_high_def)
    have ?thesis unfolding ds_def [symmetric]
      by (intro disjI2 exI [of _ ?v] exI [of _ ?p] exI [of _ c] conjI; fact req tp raw c(3) st low)
  }
  ultimately show ?thesis by blast
qed

text \<open>How the loop of an honest provider ends.\<close>

definition settled ::
  "int \<times> int \<Rightarrow> string option \<Rightarrow> py_dict list \<Rightarrow> loop_end \<Rightarrow> tx_state \<Rightarrow> bool" where
  "settled b start D r s \<longleftrightarrow>
    (\<exists>P R. filter (below start) D = P @ R \<and> tx_accepted s = filter (in_period b) P \<and>
      (le_completion r = ''complete'' \<longrightarrow> (\<forall>d \<in> set R. \<not> in_period b d)) \<and>
      (le_completion r \<noteq> ''complete'' \<longrightarrow>
        tx_cursor s = (if P = [] then start else Some (field ''logical_time'' (last P)))))"

lemma standing_settled:
  "filter (below start) D = P @ R \<Longrightarrow> standing b start P R s \<Longrightarrow> le_completion r \<noteq> ''complete'' \<Longrightarrow>
   settled b start D r s"
  by (auto simp: settled_def standing_def)

lemma standing_error_page: "standing b start P R (tx_error_page e k v code s) = standing b start P R s"
  by (simp add: standing_def tx_error_page_def)

lemma failed_incomplete: "le_completion (failed_loop fatal reason code) \<noteq> ''complete''"
  by (simp add: failed_loop_def)

lemma honest_loop:
  assumes env: "bounded_env e b start D"
    and "filter (below start) D = P @ R" "standing b start P R s" "k = 0 \<or> P \<noteq> []"
    and "\<forall>d \<in> set P. fst b \<le> the (row_time d)"
  shows "settled b start D (fst (tx_loop e m k s)) (snd (tx_loop e m k s))"
  using assms(2-)
proof (induction m arbitrary: k P R s)
  case 0
  then show ?case by (auto intro: standing_settled simp: finished_def)
next
  case (Suc m)
  have b: "xe_bounds e = Some b" "xe_mode e = Ingest" and n: "1 \<le> xe_page_size e"
    using env by (simp_all add: bounded_env_def)
  define ds where "ds = take (nat (xe_page_size e)) R"
  define R' where "R' = drop (nat (xe_page_size e)) R"
  have split: "filter (below start) D = (P @ ds) @ R'" using Suc.prems(1) by (simp add: ds_def R'_def)
  have hist: "history ((P @ ds) @ R')"
    using env split split_history [of D] unfolding bounded_env_def by metis
  from honest_page [OF env Suc.prems(1,2,3), folded ds_def R'_def] show ?case
  proof (elim disjE exE conjE)
    fix code assume "tx_request e k (tx_cursor s) = Provider_Failed code"
    then show ?case
      using standing_settled [OF Suc.prems(1), of b "tx_error_page e k PNone _ s"] Suc.prems(2)
      by (auto simp: Let_def standing_error_page failed_incomplete)
  next
    fix v p c
    assume page: "tx_request e k (tx_cursor s) = Provider_Ok v" "tx_page e (tx_data e v) s = Inr (p, c)"
      and raw: "cp_raw p = int (length ds)" and crossed: "sc_crossed c \<longleftrightarrow> (\<exists>d \<in> set ds. the (row_time d) < fst b)"
      and at: "standing b start (P @ ds) R' ((tx_extend e k p c s)\<lparr> tx_cursor := if ds = [] then tx_cursor s else cp_cursor p \<rparr>)"
    have accepted: "tx_accepted (tx_extend e k p c s) = filter (in_period b) (P @ ds)"
      using at by (simp add: standing_def)
    show ?case
    proof (cases "ds = [] \<or> sc_crossed c")
      case True
      have "\<not> in_period b d" if d: "d \<in> set R'" for d
      proof (cases "ds = []")
        case True
        then have "R = []" using n by (simp add: ds_def)
        then show ?thesis using d by (simp add: R'_def)
      next
        case False
        then obtain x where x: "x \<in> set ds" "the (row_time x) < fst b" using True crossed by auto
        have "the (row_time d) \<le> the (row_time x)" using hist x(1) d by (simp add: history_append)
        then show ?thesis using x(2) by (auto simp: in_period_def split: option.splits)
      qed
      then have "settled b start D (finished ''complete'' reason) ((tx_extend e k p c s)\<lparr> tx_cursor := cur \<rparr>)" for reason cur
        using split accepted unfolding settled_def finished_def by (intro exI [of _ "P @ ds"] exI [of _ R']) simp
      then show ?thesis using True page raw b by (auto simp: tx_decide_def Let_def)
    next
      case False
      then have "tx_loop e (Suc m) k s = tx_loop e m (Suc k) ((tx_extend e k p c s)\<lparr> tx_cursor := cp_cursor p \<rparr>)"
        using page raw b by (simp add: tx_decide_def Let_def)
      moreover have "\<forall>d \<in> set (P @ ds). fst b \<le> the (row_time d)" using False crossed Suc.prems(4) by auto
      ultimately show ?thesis using Suc.IH [OF split, of _ "Suc k"] at False by simp
    qed
  qed
qed

text \<open>Pages enough, and no request that fails: the loop completes.\<close>

lemma honest_loop_completes:
  assumes env: "bounded_env e b start D" and ok: "never_fails (xe_net e)"
    and "filter (below start) D = P @ R" "standing b start P R s" "k = 0 \<or> P \<noteq> []"
    and "(if R = [] then 1 else length (filter (\<lambda>d. fst b \<le> the (row_time d)) R) div nat (xe_page_size e) + 2) \<le> m"
  shows "le_completion (fst (tx_loop e m k s)) = ''complete''"
  using assms(3-)
proof (induction m arbitrary: k P R s)
  case 0
  then show ?case by (simp split: if_splits)
next
  case (Suc m)
  have b: "xe_bounds e = Some b" "xe_mode e = Ingest" and n: "1 \<le> xe_page_size e"
    using env by (simp_all add: bounded_env_def)
  let ?n = "nat (xe_page_size e)" and ?recent = "\<lambda>d. fst b \<le> the (row_time d)"
  define ds where "ds = take ?n R"
  define R' where "R' = drop ?n R"
  have split: "filter (below start) D = (P @ ds) @ R'" using Suc.prems(1) by (simp add: ds_def R'_def)
  from honest_page [OF env Suc.prems(1,2,3), folded ds_def R'_def] ok obtain v p c where
    page: "tx_request e k (tx_cursor s) = Provider_Ok v" "tx_page e (tx_data e v) s = Inr (p, c)"
      and raw: "cp_raw p = int (length ds)" and crossed: "sc_crossed c \<longleftrightarrow> (\<exists>d \<in> set ds. the (row_time d) < fst b)"
      and at: "standing b start (P @ ds) R' ((tx_extend e k p c s)\<lparr> tx_cursor := if ds = [] then tx_cursor s else cp_cursor p \<rparr>)"
    by (auto simp: never_fails_def)
  show ?case
  proof (cases "ds = [] \<or> sc_crossed c")
    case True
    then show ?thesis using page raw b by (auto simp: tx_decide_def Let_def finished_def)
  next
    case False
    then have step: "tx_loop e (Suc m) k s = tx_loop e m (Suc k) ((tx_extend e k p c s)\<lparr> tx_cursor := cp_cursor p \<rparr>)"
      using page raw b by (simp add: tx_decide_def Let_def)
    have recent: "filter ?recent ds = ds" using False crossed by (auto simp: filter_id_conv)
    have count: "length (filter ?recent R) = length ds + length (filter ?recent R')"
      using recent append_take_drop_id [of ?n R] by (metis ds_def R'_def filter_append length_append)
    have "(if R' = [] then 1 else length (filter ?recent R') div ?n + 2) \<le> m"
    proof (cases "length ds = ?n")
      case True
      moreover have "(?n + x) div ?n = Suc (x div ?n)" for x using n by (simp add: div_add_self1)
      ultimately have "length (filter ?recent R) div ?n = Suc (length (filter ?recent R') div ?n)"
        using count by simp
      moreover have "R \<noteq> []" using False by (auto simp: ds_def)
      ultimately show ?thesis using Suc.prems(4) by simp
    next
      case False
      then have "R' = []" by (simp add: ds_def R'_def)
      moreover have "R \<noteq> []" using \<open>\<not> (ds = [] \<or> sc_crossed c)\<close> by (auto simp: ds_def)
      ultimately show ?thesis using Suc.prems(4) by simp
    qed
    then show ?thesis using Suc.IH [OF split, of _ "Suc k"] at False step by simp
  qed
qed

section \<open>The acquisition\<close>

lemma clamp_range: "1 \<le> m \<Longrightarrow> 1 \<le> clamp m v \<and> clamp m v \<le> m"
  by (simp add: clamp_def)

lemma resume_cursor_text: "resume_position q key = Inr (start, first) \<Longrightarrow> cursor_text start"
  by (auto simp: resume_position_def cursor_text_def strict_logical_time_iff Let_def
      split: option.splits if_splits)

text \<open>A bounded acquisition for a live account that an honest provider answers.\<close>

definition honest_acquisition ::
  "tonapi \<Rightarrow> (nat \<Rightarrow> int \<Rightarrow> string option \<Rightarrow> fetched) \<Rightarrow> acquisition_request \<Rightarrow> int \<times> int \<Rightarrow>
   string option \<Rightarrow> py_dict list \<Rightarrow> bool" where
  "honest_acquisition ta net q b start D \<longleftrightarrow>
     resolved_transaction_bounds q = Inr (Some b) \<and>
     (\<exists>first. resume_position q ''transactions'' = Inr (start, first)) \<and>
     \<not> ta_mock ta \<and> normal_account ta \<noteq> [] \<and> history D \<and> serves ta net start D"

definition tx_page_budget :: "live_settings \<Rightarrow> acquisition_request \<Rightarrow> nat" where
  "tx_page_budget lv q = nat (effective_resume_page_cap q (clamp 100 (lv_tx_pages lv)))"

lemma honest_fetch:
  assumes "honest_acquisition ta net q b start D"
  obtains e first where "bounded_env e b start D" "xe_page_size e = clamp 1000 (lv_tx_limit lv)" "xe_net e = net"
    "fetch_transaction_acquisition lv ta net digest q Ingest =
      (let (r, s) = tx_loop e (tx_page_budget lv q) 0 (fresh_tx start) in
       tx_outcome_of (Some b) (clamp 1000 (lv_tx_limit lv))
         (effective_resume_page_cap q (clamp 100 (lv_tx_pages lv))) Ingest r s)"
proof -
  obtain first where first: "resume_position q ''transactions'' = Inr (start, first)"
    using assms by (auto simp: honest_acquisition_def)
  show ?thesis
    by (rule that [of "\<lparr> xe_tonapi = ta, xe_net = net, xe_digest = digest, xe_mode = Ingest, xe_bounds = Some b,
        xe_page_size = clamp 1000 (lv_tx_limit lv), xe_first = first \<rparr>"])
      (use assms first resume_cursor_text [OF first] clamp_range [of 1000 "lv_tx_limit lv"] in
        \<open>auto simp: honest_acquisition_def bounded_env_def fetch_transaction_acquisition_def Let_def
          page_cap_of_def tx_page_budget_def split_beta\<close>)
qed

lemma fresh_standing: "standing b start [] R (fresh_tx start)"
  by (simp add: standing_def fresh_tx_def not_below_def known_later_def split: option.split)

text \<open>What every such acquisition leaves behind.\<close>

lemma honest_outcome:
  assumes "honest_acquisition ta net q b start D"
    and out: "out = fetch_transaction_acquisition lv ta net digest q Ingest"
  shows "\<exists>P R. filter (below start) D = P @ R \<and> to_rows out = filter (in_period b) P \<and>
    (se_completion (to_stream out) = ''complete'' \<longrightarrow> (\<forall>d \<in> set R. \<not> in_period b d)) \<and>
    (se_completion (to_stream out) \<noteq> ''complete'' \<longrightarrow>
      se_terminal_cursor (to_stream out) = (if P = [] then start else Some (field ''logical_time'' (last P))))"
proof -
  obtain e where e: "bounded_env e b start D"
    "out = (let (r, s) = tx_loop e (tx_page_budget lv q) 0 (fresh_tx start) in
       tx_outcome_of (Some b) (clamp 1000 (lv_tx_limit lv))
         (effective_resume_page_cap q (clamp 100 (lv_tx_pages lv))) Ingest r s)"
    using honest_fetch [OF assms(1), of lv digest] out by metis
  have "settled b start D (fst (tx_loop e (tx_page_budget lv q) 0 (fresh_tx start)))
      (snd (tx_loop e (tx_page_budget lv q) 0 (fresh_tx start)))"
    by (rule honest_loop [OF e(1) _ fresh_standing]) simp_all
  then show ?thesis
    unfolding e(2) settled_def
    by (simp add: split_beta tx_outcome_of_def transaction_stream_def)
qed

text \<open>C7: an acquisition that reports itself complete is complete.  When the provider answers from the
  account's history (it may fail requests, and newer transactions may appear between two pages), a
  bounded acquisition that ends as \<open>complete\<close> has accepted exactly the transactions of the history
  that lie in the requested period, below the cursor it started from, each once and newest first.
\<close>

theorem acquisition_complete_exact:
  assumes "honest_acquisition ta net q b start D"
    and "se_completion (to_stream (fetch_transaction_acquisition lv ta net digest q Ingest)) = ''complete''"
  shows "to_rows (fetch_transaction_acquisition lv ta net digest q Ingest) =
    filter (in_period b) (filter (below start) D)"
proof -
  obtain P R where "filter (below start) D = P @ R"
    "to_rows (fetch_transaction_acquisition lv ta net digest q Ingest) = filter (in_period b) P"
    "filter (in_period b) R = []"
    using honest_outcome [OF assms(1) refl, of lv digest] assms(2) by (auto simp only: filter_empty_conv)
  then show ?thesis by simp
qed

text \<open>interrupting an acquisition loses nothing.  When an acquisition stops before the end, at its
  page cap or because the provider failed, and a later one resumes from the cursor the first left
  behind and completes, the two together have accepted exactly the transactions of the period, in
  order, none lost and none twice, although the second starts without the state of the first.
\<close>

theorem resumed_acquisition_exact:
  assumes first: "honest_acquisition ta net q b start D"
      "out = fetch_transaction_acquisition lv ta net digest q Ingest"
      "se_completion (to_stream out) \<noteq> ''complete''"
    and second: "honest_acquisition ta net' q' b (se_terminal_cursor (to_stream out)) D"
      "out' = fetch_transaction_acquisition lv' ta net' digest q' Ingest"
      "se_completion (to_stream out') = ''complete''"
  shows "to_rows out @ to_rows out' = filter (in_period b) (filter (below start) D)"
proof -
  obtain P R where 1: "filter (below start) D = P @ R" "to_rows out = filter (in_period b) P"
    "se_terminal_cursor (to_stream out) = (if P = [] then start else Some (field ''logical_time'' (last P)))"
    using honest_outcome [OF first(1,2)] first(3) by blast
  have "to_rows out' = filter (in_period b) (filter (below (se_terminal_cursor (to_stream out))) D)"
    using acquisition_complete_exact [OF second(1), of lv' digest] second(2,3) by simp
  also have "filter (below (se_terminal_cursor (to_stream out))) D = R"
    using served_rest [of "[]" D start P R "se_terminal_cursor (to_stream out)"] first(1) 1
    by (simp add: honest_acquisition_def)
  finally show ?thesis using 1 by simp
qed

text \<open>C8: an acquisition terminates with the whole period when its page budget allows it: two pages
  more than the full pages of transactions at or after the start of the period are enough, provided
  no request fails.
\<close>

theorem acquisition_completes:
  assumes "honest_acquisition ta net q b start D" "never_fails net"
    and "length (filter (\<lambda>d. fst b \<le> the (row_time d)) (filter (below start) D)) div nat (clamp 1000 (lv_tx_limit lv)) + 2
      \<le> tx_page_budget lv q"
  shows "se_completion (to_stream (fetch_transaction_acquisition lv ta net digest q Ingest)) = ''complete'' \<and>
    se_verified (to_stream (fetch_transaction_acquisition lv ta net digest q Ingest))"
proof -
  obtain e where e: "bounded_env e b start D" "xe_page_size e = clamp 1000 (lv_tx_limit lv)" "xe_net e = net"
    "fetch_transaction_acquisition lv ta net digest q Ingest =
      (let (r, s) = tx_loop e (tx_page_budget lv q) 0 (fresh_tx start) in
       tx_outcome_of (Some b) (clamp 1000 (lv_tx_limit lv))
         (effective_resume_page_cap q (clamp 100 (lv_tx_pages lv))) Ingest r s)"
    using honest_fetch [OF assms(1), of lv digest] by metis
  have "le_completion (fst (tx_loop e (tx_page_budget lv q) 0 (fresh_tx start))) = ''complete''"
    by (rule honest_loop_completes [OF e(1) _ _ fresh_standing]) (use assms(2,3) e(2,3) in auto)
  then show ?thesis by (simp add: e(4) split_beta tx_outcome_of_def transaction_stream_def)
qed

section \<open>Concrete acquisitions\<close>

text \<open>A provider that answers every request from two transactions, one to a page.\<close>

definition net_of :: "(py_dict \<times> py_dict) list \<Rightarrow> nat \<Rightarrow> int \<Rightarrow> string option \<Rightarrow> fetched" where
  "net_of rows k limit cursor = Fetched (PDict [(''transactions'',
     PList (map PDict (map fst (take (nat limit) (filter (\<lambda>r. below cursor (snd r)) rows)))))])"

lemma net_of_serves:
  assumes "history (map snd rows)" "list_all (\<lambda>(raw, d). normalizes ta raw d) rows"
  shows "serves ta (net_of rows) start (map snd rows)"
proof -
  have "list_all2 (normalizes ta) (map fst xs) (map snd xs)" if "set xs \<subseteq> set rows" for xs
    using assms(2) that by (induction xs) (auto simp: list_all_iff)
  moreover have "take (nat n) (filter (below c) (map snd rows)) = map snd (take (nat n) (filter (\<lambda>r. below c (snd r)) rows))" for n c
    by (simp add: filter_map comp_def take_map)
  ultimately have "answers_from ta start (map snd rows) k n c (net_of rows k n c)" for k n c
    using assms(1) set_take_subset [of "nat n" "filter (\<lambda>r. below c (snd r)) rows"] unfolding answers_from_def net_of_def
    by (intro exI [of _ "[]"] exI [of _ "map fst (take (nat n) (filter (\<lambda>r. below c (snd r)) rows))"]) auto
  then show ?thesis by (simp add: serves_def)
qed

definition sample_raw :: "string \<Rightarrow> int \<Rightarrow> py_dict" where
  "sample_raw lt utime = [(''hash'', PStr (replicate 64 CHR ''a'')), (''lt'', PStr lt), (''utime'', PInt utime)]"

definition sample_adapter :: tonapi where
  "sample_adapter = \<lparr> ta_mock = False, ta_account = ''0:ab'', ta_repr = (\<lambda>_. []) \<rparr>"

definition sample_row :: "string \<Rightarrow> int \<Rightarrow> py_dict" where
  "sample_row lt utime = (case normalize_transaction (ta_repr sample_adapter) ''0:ab'' (sample_raw lt utime) of
     Inr d \<Rightarrow> d | Inl _ \<Rightarrow> [])"

definition sample_rows :: "(py_dict \<times> py_dict) list" where
  "sample_rows = [(sample_raw ''20'' 5, sample_row ''20'' 5), (sample_raw ''10'' 3, sample_row ''10'' 3)]"

lemma sample_normalizes: "list_all (\<lambda>(raw, d). normalizes sample_adapter raw d) sample_rows"
  by code_simp

lemma sample_history: "history (map snd sample_rows)"
  by code_simp

definition sample_settings :: "int \<Rightarrow> live_settings" where
 "sample_settings n = \<lparr> lv_tx_limit = 1, lv_tx_pages = n, lv_event_limit = 1, lv_event_pages = n \<rparr>"

definition sample_request :: "acquisition_request" where
 "sample_request = \<lparr> aq_start = Some 1000000, aq_end = Some 10000000, aq_resume_key = None, aq_resume_cursor = None,
   aq_resume_index = None, aq_resume_budget = None \<rparr>"

lemma show_20 [code_unfold]: "show_int 20 = ''20''" "show_int 10 = ''10''"
  by (simp_all add: show_int_def show_nat.simps digit_char_def dec_digits_def)


definition resumed_request :: "string \<Rightarrow> acquisition_request" where
  "resumed_request cursor = sample_request\<lparr> aq_resume_key := Some ''transactions'',
     aq_resume_cursor := Some cursor, aq_resume_index := Some 2 \<rparr>"

abbreviation sample_acquisition :: "int \<Rightarrow> acquisition_request \<Rightarrow> tx_outcome" where
  "sample_acquisition pages q \<equiv>
     fetch_transaction_acquisition (sample_settings pages) sample_adapter (net_of sample_rows) (\<lambda>_. []) q Ingest"

lemma sample_honest:
  "honest_acquisition sample_adapter (net_of sample_rows) sample_request (1000000, 10000000) None (map snd sample_rows)"
  "honest_acquisition sample_adapter (net_of sample_rows) (resumed_request ''20'') (1000000, 10000000) (Some ''20'')
     (map snd sample_rows)"
proof -
  have "resolved_transaction_bounds sample_request = Inr (Some (1000000, 10000000))"
    "resolved_transaction_bounds (resumed_request ''20'') = Inr (Some (1000000, 10000000))"
    "resume_position sample_request ''transactions'' = Inr (None, 1)"
    "resume_position (resumed_request ''20'') ''transactions'' = Inr (Some ''20'', 2)"
    "\<not> ta_mock sample_adapter" "normal_account sample_adapter \<noteq> []" by code_simp+
  then show
    "honest_acquisition sample_adapter (net_of sample_rows) sample_request (1000000, 10000000) None (map snd sample_rows)"
    "honest_acquisition sample_adapter (net_of sample_rows) (resumed_request ''20'') (1000000, 10000000) (Some ''20'')
       (map snd sample_rows)"
    using net_of_serves [OF sample_history sample_normalizes] sample_history
    unfolding honest_acquisition_def by simp_all
qed

theorem acquisition_complete_exact_witness:
  "to_rows (sample_acquisition 3 sample_request) =
     filter (in_period (1000000, 10000000)) (filter (below None) (map snd sample_rows))"
proof -
  have "se_completion (to_stream (sample_acquisition 3 sample_request)) = ''complete''" by code_simp
  then show ?thesis using acquisition_complete_exact [OF sample_honest(1)] by simp
qed

theorem resumed_acquisition_exact_witness:
  "se_completion (to_stream (sample_acquisition 1 sample_request)) = ''incomplete'' \<and>
   to_rows (sample_acquisition 1 sample_request) @ to_rows (sample_acquisition 3 (resumed_request ''20'')) =
     filter (in_period (1000000, 10000000)) (filter (below None) (map snd sample_rows))"
proof -
  have 1: "se_completion (to_stream (sample_acquisition 1 sample_request)) = ''incomplete''"
    "se_terminal_cursor (to_stream (sample_acquisition 1 sample_request)) = Some ''20''" by code_simp+
  have "se_completion (to_stream (sample_acquisition 3 (resumed_request ''20''))) = ''complete''" by code_simp
  then show ?thesis
    using 1 resumed_acquisition_exact [OF sample_honest(1) refl _ _ refl, of "sample_settings 1" "\<lambda>_. []"
      "net_of sample_rows" "resumed_request ''20''" "sample_settings 3"] sample_honest(2) by simp
qed

theorem acquisition_completes_witness:
  "se_completion (to_stream (sample_acquisition 4 sample_request)) = ''complete'' \<and>
   se_verified (to_stream (sample_acquisition 4 sample_request))"
proof (rule acquisition_completes [OF sample_honest(1)])
  show "never_fails (net_of sample_rows)" by (simp add: never_fails_def net_of_def)
  have "filter (\<lambda>d. fst (1000000, 10000000 :: int) \<le> the (row_time d)) (filter (below None) (map snd sample_rows)) =
      map snd sample_rows" by code_simp
  moreover have "clamp 1000 (lv_tx_limit (sample_settings 4)) = 1" by (simp add: clamp_def sample_settings_def)
  moreover have "tx_page_budget (sample_settings 4) sample_request = 4"
    by (simp add: tx_page_budget_def effective_resume_page_cap_def sample_request_def clamp_def sample_settings_def)
  moreover have "length (map snd sample_rows) = 2" by (simp add: sample_rows_def)
  ultimately show "length (filter (\<lambda>d. fst (1000000, 10000000 :: int) \<le> the (row_time d)) (filter (below None) (map snd sample_rows)))
      div nat (clamp 1000 (lv_tx_limit (sample_settings 4))) + 2 \<le> tx_page_budget (sample_settings 4) sample_request"
    by simp
qed

end
