(* ===== verification/Acquisition_Checkpoints.thy ===== *)
theory Acquisition_Checkpoints
  imports Stored_Streams Acquisition_Results
begin

text \<open>
  What the checkpoint of an acquisition says: the state and the cursor it publishes are those of the
  acquisition, so the acquisition that resumes from it continues where the first stopped.
\<close>

section \<open>Streams a checkpoint can be built of\<close>

definition named_error :: "page_evidence \<Rightarrow> bool" where
  "named_error p \<longleftrightarrow> (case pe_error p of None \<Rightarrow> True | Some e \<Rightarrow> strip e \<noteq> [])"

definition sound_page :: "page_evidence \<Rightarrow> bool" where
  "sound_page p \<longleftrightarrow>
     named_error p \<and> 0 \<le> pe_index p \<and> (page_succeeded p \<longrightarrow> plain_option 128 (pe_response p))"

definition sound_stream :: "stream_evidence \<Rightarrow> bool" where
  "sound_stream s \<longleftrightarrow>
     plain_label 40 (se_key s) \<and> plain_label 48 (se_contract s) \<and> plain_label 24 (se_completion s) \<and>
     plain_label 48 (se_reason s) \<and> plain_option 128 (se_terminal_cursor s) \<and>
     list_all sound_page (se_pages s) \<and> sorted_wrt (<) (map pe_index (se_pages s))"

definition good_pages :: "stream_evidence \<Rightarrow> page_evidence list" where
  "good_pages s = filter page_succeeded (se_pages s)"

definition evidence_progress :: "stream_evidence \<Rightarrow> stream_progress" where
  "evidence_progress s =
    \<lparr> sp_completion = se_completion s, sp_termination = Some (se_reason s),
      sp_succeeded = int (length (good_pages s)), sp_terminal = se_terminal_cursor s,
      sp_last_response = (if good_pages s = [] then None else pe_response (last (good_pages s))) \<rparr>"

abbreviation stored_page :: "(int \<Rightarrow> string) \<Rightarrow> stream_clock \<Rightarrow> page_evidence \<Rightarrow> py_dict" where
  "stored_page iso_text k p \<equiv> manifest_page (page_response iso_text (page_model k p))"

abbreviation stored_stream :: "(int \<Rightarrow> string) \<Rightarrow> stream_clock \<Rightarrow> stream_evidence \<Rightarrow> py_dict" where
  "stored_stream iso_text k s \<equiv> manifest_stream (stream_response iso_text (stream_model k s))"

lemma dict_rows_dicts [simp]: "dict_rows (map PDict ds) = ds"
  by (induction ds) (simp_all add: dict_rows_def List.map_filter_def)

lemma stored_page_index:
  "0 \<le> pe_index p \<Longrightarrow> dget (stored_page iso_text k p) ''page_index'' = PInt (pe_index p)"
  by (simp add: manifest_page_def page_response_def page_model_def known_count_def dget_cons)

lemma stored_page_succeeded:
  "named_error p \<Longrightarrow> succeeded_page (stored_page iso_text k p) = page_succeeded p"
  by (auto simp: succeeded_page_def manifest_page_def page_response_def page_model_def page_succeeded_def
      named_error_def dget_cons cleaned_text_def of_string_def Let_def split: option.splits)

lemma stored_page_response:
  "plain_option 128 (pe_response p) \<Longrightarrow>
     exact_text 128 (dget (stored_page iso_text k p) ''response_cursor'') = pe_response p"
  by (simp add: manifest_page_def page_response_def page_model_def dget_cons option_kept)

lemma sort_key_sorted: "sorted_wrt (<) (map f xs) \<Longrightarrow> sort_key f xs = xs"
  by (rule sort_key_id_if_sorted) (metis sorted_wrt_mono_rel less_imp_le)

lemma stored_pages:
  assumes "sound_stream s"
  shows "dget (stored_stream iso_text k s) ''pages'' = PList (map PDict (map (stored_page iso_text k) (se_pages s)))"
proof -
  have inner: "sort_key pr_index (map (page_model k) (se_pages s)) = map (page_model k) (se_pages s)"
    by (rule sort_key_sorted) (use assms in \<open>simp add: sound_stream_def comp_def page_model_def\<close>)
  have indexes: "map page_order (map (stored_page iso_text k) (se_pages s)) = map pe_index (se_pages s)"
    using assms by (auto simp: page_order_def stored_page_index sound_stream_def list_all_iff sound_page_def)
  have outer: "sort_key page_order (map (stored_page iso_text k) (se_pages s)) = map (stored_page iso_text k) (se_pages s)"
    by (rule sort_key_sorted, unfold indexes) (use assms in \<open>simp add: sound_stream_def\<close>)
  have "dget (stream_response iso_text (stream_model k s)) ''pages'' =
      PList (map PDict (map (page_response iso_text) (map (page_model k) (se_pages s))))"
    by (simp add: stream_response_def stream_model_def dget_cons inner)
  then have "dget (stored_stream iso_text k s) ''pages'' =
      PList (map PDict (sort_key page_order (map manifest_page (map (page_response iso_text) (map (page_model k) (se_pages s))))))"
    unfolding manifest_stream_def by (simp add: dget_cons list_field_def del: map_map)
  then show ?thesis using outer by (simp add: comp_def)
qed

lemma last_option_map: "last_option (map f xs) = map_option f (last_option xs)"
  by (simp add: last_option_def last_map)

lemma stored_progress:
  assumes s: "sound_stream s"
  shows "progress_of (stored_stream iso_text k s) =
    Inr (evidence_progress s, se_page_count s, map_option (stored_page iso_text k) (last_option (good_pages s)))"
proof -
  have pages: "filter succeeded_page (map (stored_page iso_text k) (se_pages s)) = map (stored_page iso_text k) (good_pages s)"
    using s by (auto simp: filter_map good_pages_def sound_stream_def list_all_iff sound_page_def
        stored_page_succeeded intro!: arg_cong [where f = "map _"] filter_cong)
  have fields: "dget (stored_stream iso_text k s) ''completion_state'' = PStr (se_completion s)"
    "exact_text 48 (dget (stored_stream iso_text k s) ''termination_reason'') = Some (se_reason s)"
    "dget (stored_stream iso_text k s) ''page_count'' = PInt (se_page_count s)"
    "dget (stored_stream iso_text k s) ''pages_succeeded'' = PInt (int (length (good_pages s)))"
    "exact_text 128 (dget (stored_stream iso_text k s) ''terminal_cursor'') = se_terminal_cursor s"
    using s by (simp_all add: sound_stream_def manifest_stream_def stream_response_def stream_model_def dget_cons
        known_plain known_count_def option_kept se_page_count_def good_pages_def)
      (simp_all add: nonempty_text_def plain_label_def of_string_def cleaned_text_def exact_text_def strip_unspaced)
  have "required_text 24 (PStr (se_completion s)) = Inr (se_completion s)"
    using s by (simp add: required_text_def exact_plain sound_stream_def)
  moreover have "int (length (good_pages s)) \<le> se_page_count s"
    by (simp add: good_pages_def se_page_count_def)
  moreover have "pe_response p = exact_text 128 (dget (stored_page iso_text k p) ''response_cursor'')"
    if "p \<in> set (good_pages s)" for p
    using s that by (simp add: stored_page_response good_pages_def sound_stream_def list_all_iff sound_page_def)
  ultimately show ?thesis
    unfolding progress_of_def fields stored_pages [OF s] pyval.case dict_rows_dicts pages Let_def last_option_map
    by (cases "good_pages s = []")
      (simp_all add: required_count_def last_option_def evidence_progress_def se_page_count_def)
qed

section \<open>The pages an acquisition leaves\<close>

definition contiguous :: "int \<Rightarrow> page_evidence list \<Rightarrow> bool" where
  "contiguous first pages \<longleftrightarrow> map pe_index pages = map (\<lambda>i. first + int i) [0..<length pages]"

definition good_page :: "page_evidence \<Rightarrow> bool" where
  "good_page p \<longleftrightarrow> page_succeeded p \<and> cursor_text (pe_response p)"

text \<open>Between two pages: all succeeded, and the cursor is the last one's.\<close>

definition scanned :: "int \<Rightarrow> tx_state \<Rightarrow> bool" where
  "scanned first s \<longleftrightarrow>
     contiguous first (tx_pages s) \<and> list_all good_page (tx_pages s) \<and> cursor_text (tx_cursor s) \<and>
     (tx_pages s \<noteq> [] \<longrightarrow> tx_cursor s \<noteq> None \<and> pe_response (last (tx_pages s)) = tx_cursor s)"

text \<open>At the end: at most one page failed, the last.\<close>

definition loop_closed :: "int \<Rightarrow> loop_end \<Rightarrow> tx_state \<Rightarrow> bool" where
  "loop_closed first r s \<longleftrightarrow>
     (\<exists>good bad. tx_pages s = good @ bad \<and> contiguous first (tx_pages s) \<and> list_all good_page good \<and>
       list_all (\<lambda>p. \<not> page_succeeded p \<and> named_error p) bad \<and> cursor_text (tx_cursor s) \<and>
       (le_completion r \<noteq> ''complete'' \<longrightarrow> good \<noteq> [] \<longrightarrow>
         tx_cursor s \<noteq> None \<and> pe_response (last good) = tx_cursor s) \<and>
       plain_label 24 (le_completion r) \<and> plain_label 48 (le_reason r))"

definition named_failures :: "(nat \<Rightarrow> int \<Rightarrow> string option \<Rightarrow> fetched) \<Rightarrow> bool" where
  "named_failures net \<longleftrightarrow> (\<forall>k limit cursor e. net k limit cursor = Fetch_Failed e \<longrightarrow> strip e \<noteq> [])"

lemma contiguous_snoc:
  "contiguous first pages \<Longrightarrow> pe_index p = first + int (length pages) \<Longrightarrow> contiguous first (pages @ [p])"
  by (simp add: contiguous_def)

lemma low_cursor:
  "strict_logical_time v = fst (low_high ts) \<Longrightarrow> ts \<noteq> [] \<Longrightarrow> cursor_text (fst (low_high ts)) \<and> fst (low_high ts) \<noteq> None"
  by (auto simp: low_high_def cursor_text_def strict_logical_time_iff)

lemma accepted_cursor:
  assumes valid: "validate_transaction_page digest v cursor limit timed = Inr p"
  shows "cursor_text (cp_cursor p) \<and> (cp_raw p \<noteq> 0 \<longrightarrow> cp_cursor p \<noteq> None)"
proof -
  obtain page where page: "as_dict Page_Not_Object v = Inr page"
    using valid by (auto simp: validate_transaction_page_def bind_result_Inr)
  then obtain rows where rows: "dget page ''transactions'' = PList rows"
    using valid by (auto simp: validate_transaction_page_def split: pyval.splits)
  obtain checked where checked: "check_transaction_rows timed 0 None None rows = Inr checked"
    using valid page rows by (auto simp: validate_transaction_page_def bind_result_Inr)
  show ?thesis
  proof (cases "checked = []")
    case True
    then show ?thesis
      using valid page rows checked
      by (auto simp: validate_transaction_page_def Let_def split_beta page_of_rows_def cursor_text_def)
  next
    case False
    then show ?thesis
      using valid page rows checked low_cursor [of "dget page ''next_before_lt''"]
      by (auto simp: validate_transaction_page_def Let_def split_beta page_of_rows_def)
  qed
qed

lemma request_failure_named:
  assumes "named_failures (xe_net e)" "tx_request e k cursor = Provider_Failed code"
  shows "strip code \<noteq> []"
proof -
  have fixed: "strip error_provider \<noteq> []" "strip error_protocol \<noteq> []" by code_simp+
  have page: "get_account_transactions_page ta f limit before = Provider_Failed code \<Longrightarrow>
      code \<in> {error_provider, error_protocol} \<or> (\<exists>l c. f l c = Fetch_Failed code)" for ta f limit before
    by (auto simp: get_account_transactions_page_def protocol_failure_def Let_def
        split: option.splits sum.splits if_splits fetched.splits)
  have preview: "get_account_transactions_preview ta f limit = Provider_Failed code \<Longrightarrow>
      code \<in> {error_provider, error_protocol} \<or> (\<exists>l c. f l c = Fetch_Failed code)" for ta f limit
    using page [of ta f limit None]
    by (auto simp: get_account_transactions_preview_def Let_def split: provider_result.splits)
  show ?thesis
    using assms fixed page [of "xe_tonapi e" "xe_net e k" "xe_page_size e" cursor]
      preview [of "xe_tonapi e" "xe_net e k" "xe_page_size e"]
    by (auto simp: tx_request_def named_failures_def split: if_splits)
qed

lemma scanned_fresh: "cursor_text start \<Longrightarrow> scanned first (fresh_tx start)"
  by (simp add: scanned_def fresh_tx_def contiguous_def)

text \<open>A failed page closes the loop; an accepted one closes it or goes on.\<close>

lemma failed_page_closed:
  assumes "scanned (xe_first e) s" "length (tx_pages s) = k" "strip code \<noteq> []"
    and "reason = ''protocol_error'' \<or> reason = ''provider_error''"
  shows "loop_closed (xe_first e) (failed_loop fatal reason code') (tx_error_page e k v code s)"
proof -
  let ?p = "error_page_evidence (xe_digest e) (xe_first e + int k) (tx_cursor s) (xe_page_size e) v code"
  have "contiguous (xe_first e) (tx_pages s @ [?p])"
    using assms(1,2) by (intro contiguous_snoc) (simp_all add: scanned_def error_page_evidence_def Let_def)
  moreover have "\<not> page_succeeded ?p" "named_error ?p"
    using assms(3) by (simp_all add: error_page_evidence_def page_succeeded_def named_error_def Let_def)
  moreover have "plain_label 48 ''protocol_error''" "plain_label 48 ''provider_error''"
    "plain_label 24 ''error''" "plain_label 24 ''incomplete''" by code_simp+
  ultimately show ?thesis
    using assms(1,4) unfolding loop_closed_def tx_error_page_def
    by (intro exI [of _ "tx_pages s"] exI [of _ "[?p]"]) (auto simp: scanned_def failed_loop_def)
qed

lemma accepted_page_scanned:
  assumes "scanned (xe_first e) s" "length (tx_pages s) = k" "tx_page e v s = Inr (p, c)"
  shows "contiguous (xe_first e) (tx_pages (tx_extend e k p c s))" "list_all good_page (tx_pages (tx_extend e k p c s))"
    "tx_pages (tx_extend e k p c s) \<noteq> []" "pe_response (last (tx_pages (tx_extend e k p c s))) = cp_cursor p"
    "cursor_text (cp_cursor p)" "cp_raw p \<noteq> 0 \<Longrightarrow> cp_cursor p \<noteq> None"
    "length (tx_pages (tx_extend e k p c s)) = Suc k"
proof -
  let ?p = "checked_page_evidence (xe_first e + int k) (tx_cursor s) (xe_page_size e) p
      (length (sc_accepted c)) (sc_duplicates c)"
  have cursor: "cursor_text (cp_cursor p) \<and> (cp_raw p \<noteq> 0 \<longrightarrow> cp_cursor p \<noteq> None)"
    using assms(3) by (auto simp: tx_page_def bind_result_Inr dest: accepted_cursor)
  then show "cursor_text (cp_cursor p)" "cp_raw p \<noteq> 0 \<Longrightarrow> cp_cursor p \<noteq> None" by simp_all
  show "contiguous (xe_first e) (tx_pages (tx_extend e k p c s))"
    using assms(1,2) by (simp add: tx_extend_def contiguous_snoc scanned_def checked_page_evidence_def)
  have "good_page ?p" using cursor by (simp add: good_page_def checked_page_evidence_def page_succeeded_def)
  then show "list_all good_page (tx_pages (tx_extend e k p c s))"
    using assms(1) by (simp add: tx_extend_def scanned_def)
qed (use assms(2) in \<open>simp_all add: tx_extend_def checked_page_evidence_def\<close>)

lemma scanned_closed:
  assumes "scanned first s" "le_completion r \<in> {''complete'', ''incomplete''}"
    and "le_reason r \<in> {''page_cap_reached'', ''provider_terminal'', ''requested_start_crossed''}"
  shows "loop_closed first r s"
proof -
  have "plain_label 48 ''page_cap_reached''" "plain_label 48 ''provider_terminal''"
    "plain_label 48 ''requested_start_crossed''" "plain_label 24 ''complete''" "plain_label 24 ''incomplete''"
    by code_simp+
  then show ?thesis
    using assms unfolding loop_closed_def
    by (intro exI [of _ "tx_pages s"] exI [of _ "[]"]) (auto simp: scanned_def)
qed

lemma terminal_closed:
  assumes "contiguous first (tx_pages s)" "list_all good_page (tx_pages s)"
  shows "loop_closed first (finished ''complete'' ''provider_terminal'') (s\<lparr> tx_cursor := None \<rparr>)"
proof -
  have "plain_label 48 ''provider_terminal''" "plain_label 24 ''complete''" by code_simp+
  then show ?thesis
    using assms unfolding loop_closed_def
    by (intro exI [of _ "tx_pages s"] exI [of _ "[]"]) (auto simp: finished_def cursor_text_def)
qed

lemma loop_closes:
  assumes "xe_bounds e \<noteq> None" "xe_mode e = Ingest" "named_failures (xe_net e)"
    and "scanned (xe_first e) s" "length (tx_pages s) = k"
  shows "loop_closed (xe_first e) (fst (tx_loop e n k s)) (snd (tx_loop e n k s))"
  using assms(4,5)
proof (induction n arbitrary: k s)
  case 0
  then show ?case by (simp add: scanned_closed finished_def)
next
  case (Suc n)
  show ?case
  proof (cases "tx_request e k (tx_cursor s)")
    case (Provider_Failed code)
    have "strip code \<noteq> []" by (rule request_failure_named [OF assms(3) Provider_Failed])
    moreover have "strip ''protocol_error'' \<noteq> []" by code_simp
    ultimately show ?thesis
      using Suc.prems Provider_Failed by (auto simp: Let_def intro!: failed_page_closed)
  next
    case (Provider_Ok v)
    have code: "strip ''protocol_error'' \<noteq> []" by code_simp
    show ?thesis
    proof (cases "tx_page e (tx_data e v) s")
      case (Inl f)
      then show ?thesis using Suc.prems Provider_Ok code by (auto intro!: failed_page_closed)
    next
      case (Inr pc)
      then obtain p c where pc: "tx_page e (tx_data e v) s = Inr (p, c)" by (cases pc) auto
      note page = accepted_page_scanned [OF Suc.prems pc]
      define t where "t = tx_extend e k p c s"
      obtain b where b: "xe_bounds e = Some b" using assms(1) by auto
      have t: "scanned (xe_first e) (t\<lparr> tx_cursor := cp_cursor p \<rparr>)" if "cp_raw p \<noteq> 0"
        using page that by (simp add: scanned_def t_def)
      consider "cp_raw p = 0" | "cp_raw p \<noteq> 0" "sc_crossed c" | "cp_raw p \<noteq> 0" "\<not> sc_crossed c" by blast
      then show ?thesis
      proof cases
        case 1
        then have "tx_loop e (Suc n) k s = (finished ''complete'' ''provider_terminal'', t\<lparr> tx_cursor := None \<rparr>)"
          using b assms(2) Provider_Ok pc by (simp add: tx_decide_def t_def)
        then show ?thesis using page terminal_closed [of "xe_first e" t] by (simp add: t_def)
      next
        case 2
        then have "tx_loop e (Suc n) k s =
            (finished ''complete'' ''requested_start_crossed'', t\<lparr> tx_cursor := cp_cursor p \<rparr>)"
          using b assms(2) Provider_Ok pc by (simp add: tx_decide_def t_def)
        then show ?thesis using 2 t by (simp add: scanned_closed finished_def)
      next
        case 3
        then have "tx_loop e (Suc n) k s = tx_loop e n (Suc k) (t\<lparr> tx_cursor := cp_cursor p \<rparr>)"
          using b assms(2) Provider_Ok pc by (simp add: tx_decide_def t_def)
        then show ?thesis using 3 t page(7) Suc.IH by (simp add: t_def)
      qed
    qed
  qed
qed

section \<open>The checkpoint of an acquisition\<close>

definition recorded_pages :: "tx_outcome \<Rightarrow> page_evidence list" where
  "recorded_pages out = good_pages (to_stream out)"

lemma resume_first: "resume_position q key = Inr (start, first) \<Longrightarrow> 1 \<le> first"
  by (auto simp: resume_position_def Let_def split: option.splits if_splits)

lemma cursor_plain: "cursor_text v \<Longrightarrow> plain_option 128 v"
proof -
  have "\<not> is_space c" if "is_digit c" for c
    using that by (auto simp: is_space_def is_digit_def dec_digits_def)
  then show "cursor_text v \<Longrightarrow> plain_option 128 v"
    by (auto simp: cursor_text_def plain_option_def plain_label_def lt_text_def list_all_iff split: option.splits)
qed

lemma contiguous_sorted: "contiguous first pages \<Longrightarrow> sorted_wrt (<) (map pe_index pages)"
  by (simp add: contiguous_def sorted_wrt_map sorted_wrt_upt)

lemma contiguous_index:
  "contiguous first pages \<Longrightarrow> i < length pages \<Longrightarrow> pe_index (pages ! i) = first + int i"
  by (metis (no_types, lifting) contiguous_def nth_map nth_upt add_0 length_map length_upt diff_zero)

text \<open>What the evidence of a bounded acquisition satisfies.\<close>

lemma acquisition_evidence:
  assumes "resolved_transaction_bounds q = Inr (Some b)" "resume_position q ''transactions'' = Inr (start, first)"
    and "named_failures net" "out = fetch_transaction_acquisition lv ta net digest q Ingest"
  shows "sound_stream (to_stream out)" "cursor_text (se_terminal_cursor (to_stream out))"
    "se_completion (to_stream out) \<noteq> ''complete'' \<Longrightarrow> recorded_pages out \<noteq> [] \<Longrightarrow>
       se_terminal_cursor (to_stream out) \<noteq> None \<and>
       pe_response (last (recorded_pages out)) = se_terminal_cursor (to_stream out)"
    "recorded_pages out \<noteq> [] \<Longrightarrow> pe_index (last (recorded_pages out)) = first + int (length (recorded_pages out)) - 1"
proof -
  define e where "e = \<lparr> xe_tonapi = ta, xe_net = net, xe_digest = digest, xe_mode = Ingest, xe_bounds = Some b,
        xe_page_size = clamp 1000 (lv_tx_limit lv), xe_first = first \<rparr>"
  define cap where "cap = page_cap_of Ingest (Some b) q (clamp 100 (lv_tx_pages lv))"
  define n where "n = nat cap"
  obtain r s where loop: "tx_loop e n 0 (fresh_tx start) = (r, s)" by (cases "tx_loop e n 0 (fresh_tx start)")
  have out: "to_stream out = transaction_stream (Some b) (clamp 1000 (lv_tx_limit lv)) cap r s"
    using assms(1,2) loop
    by (simp add: assms(4) fetch_transaction_acquisition_def e_def n_def cap_def tx_outcome_of_def)
  have "loop_closed first r s"
    using loop_closes [of e "fresh_tx start" 0 n] loop assms(3) scanned_fresh [OF resume_cursor_text [OF assms(2)], of first]
    by (simp add: e_def fresh_tx_def)
  then obtain good bad where g: "tx_pages s = good @ bad" "contiguous first (tx_pages s)" "list_all good_page good"
    "list_all (\<lambda>p. \<not> page_succeeded p \<and> named_error p) bad" "cursor_text (tx_cursor s)"
    "le_completion r \<noteq> ''complete'' \<longrightarrow> good \<noteq> [] \<longrightarrow> tx_cursor s \<noteq> None \<and> pe_response (last good) = tx_cursor s"
    "plain_label 24 (le_completion r)" "plain_label 48 (le_reason r)"
    unfolding loop_closed_def by (elim exE conjE)
  have recorded: "recorded_pages out = good"
    using g(3,4) by (simp add: recorded_pages_def good_pages_def out transaction_stream_def g(1) filter_id_conv
        filter_empty_conv list_all_iff good_page_def)
  have "0 \<le> pe_index p" if "p \<in> set (tx_pages s)" for p
    using that contiguous_index [OF g(2)] resume_first [OF assms(2)] by (auto simp: in_set_conv_nth)
  then have "list_all sound_page (tx_pages s)"
    using g(3,4) unfolding g(1)
    by (auto simp: list_all_iff sound_page_def good_page_def named_error_def page_succeeded_def cursor_plain)
  moreover have "plain_label 40 ''transactions''" "plain_label 48 transaction_contract" by code_simp+
  ultimately show "sound_stream (to_stream out)"
    using g(5,7,8) contiguous_sorted [OF g(2)] by (simp add: sound_stream_def out transaction_stream_def cursor_plain)
  show "cursor_text (se_terminal_cursor (to_stream out))" using g(5) by (simp add: out transaction_stream_def)
  show "se_completion (to_stream out) \<noteq> ''complete'' \<Longrightarrow> recorded_pages out \<noteq> [] \<Longrightarrow>
       se_terminal_cursor (to_stream out) \<noteq> None \<and>
       pe_response (last (recorded_pages out)) = se_terminal_cursor (to_stream out)"
    using g(6) recorded by (simp add: out transaction_stream_def)
  show "pe_index (last (recorded_pages out)) = first + int (length (recorded_pages out)) - 1"
    if "recorded_pages out \<noteq> []"
    using that contiguous_index [OF g(2), of "length good - 1"] unfolding recorded
    by (cases good rule: rev_cases) (simp_all add: g(1) nth_append)
qed

lemma evidence_ready:
  assumes "sound_stream s" "build_checkpoint sha256 m (stored_stream iso_text k s) = Inr c"
  shows "bc_state c = resume_state (evidence_progress s)" "bc_stream_key c = se_key s"
    "bc_cursor c = (if continuation_ready (evidence_progress s) then se_terminal_cursor s else None)"
    "bc_page_index c = (if continuation_ready (evidence_progress s) \<and> good_pages s \<noteq> []
       then Some (pe_index (last (good_pages s)) + 1) else None)"
proof -
  have key: "dget (stored_stream iso_text k s) ''stream_key'' = PStr (se_key s)"
    using assms(1) by (simp add: sound_stream_def manifest_stream_def stream_response_def stream_model_def dget_cons
        known_plain)
  have key': "required_text 40 (PStr (se_key s)) = Inr (se_key s)"
    using assms(1) by (simp add: required_text_def exact_plain sound_stream_def)
  have index: "dget (stored_page iso_text k (last (good_pages s))) ''page_index'' = PInt (pe_index (last (good_pages s)))"
    "0 \<le> pe_index (last (good_pages s))" if some: "good_pages s \<noteq> []"
  proof -
    have "last (good_pages s) \<in> set (se_pages s)" using last_in_set [OF some] by (simp add: good_pages_def)
    then show "0 \<le> pe_index (last (good_pages s))" using assms(1) by (simp add: sound_stream_def list_all_iff sound_page_def)
    then show "dget (stored_page iso_text k (last (good_pages s))) ''page_index'' = PInt (pe_index (last (good_pages s)))"
      by (rule stored_page_index)
  qed
  obtain document p index where doc: "checkpoint_document m (stored_stream iso_text k s) = Inr (document, p, index)"
    using assms(2) by (auto simp: build_checkpoint_def bind_result_Inr)
  have parts: "p = evidence_progress s" "dget document ''stream_key'' = PStr (se_key s)"
    "continuation_index p (map_option (stored_page iso_text k) (last_option (good_pages s))) = Inr index"
    using doc key' unfolding checkpoint_document_def stored_progress [OF assms(1)] key
    by (auto simp: bind_result_Inr dget_cons)
  have c: "bc_state c = resume_state p" "bc_stream_key c = field ''stream_key'' document" "bc_page_index c = index"
    "bc_cursor c = (if continuation_ready p then sp_terminal p else None)"
    using assms(2) doc by (auto simp: build_checkpoint_def Let_def)
  show "bc_state c = resume_state (evidence_progress s)" "bc_stream_key c = se_key s"
    "bc_cursor c = (if continuation_ready (evidence_progress s) then se_terminal_cursor s else None)"
    using c parts by (simp_all add: field_def evidence_progress_def)
  show "bc_page_index c = (if continuation_ready (evidence_progress s) \<and> good_pages s \<noteq> []
       then Some (pe_index (last (good_pages s)) + 1) else None)"
    using c(3) parts(1,3) index
    by (auto simp: continuation_index_def last_option_def required_count_def split: if_splits)
qed

text \<open>C10: the checkpoint of an acquisition says what the acquisition did.  Stored, answered, recorded in
  a manifest and read back from it, the evidence of a bounded acquisition gives a checkpoint that is
  \<open>complete\<close> if the acquisition is, \<open>ready\<close> if it stopped at its page cap or because the provider
  failed after at least one page and one transaction, and \<open>blocked\<close> otherwise; a ready one names the
  cursor of the acquisition and the index of the page after its last.
\<close>

theorem checkpoint_of_acquisition:
  assumes "resolved_transaction_bounds q = Inr (Some b)" "resume_position q ''transactions'' = Inr (start, first)"
    and "named_failures net" "out = fetch_transaction_acquisition lv ta net digest q Ingest"
    and "build_checkpoint sha256 m (stored_stream iso_text k (to_stream out)) = Inr c"
  shows "bc_state c =
      (if se_completion (to_stream out) = ''complete'' then ''complete''
       else if se_completion (to_stream out) = ''incomplete'' \<and>
           se_reason (to_stream out) \<in> {''page_cap_reached'', ''provider_error''} \<and> recorded_pages out \<noteq> []
       then ''ready'' else ''blocked'') \<and>
    (bc_state c = ''ready'' \<longrightarrow>
      bc_cursor c = se_terminal_cursor (to_stream out) \<and> bc_cursor c \<noteq> None \<and>
      bc_page_index c = Some (first + int (length (recorded_pages out))))"
proof -
  note ev = acquisition_evidence [OF assms(1-4)]
  note c = evidence_ready [OF ev(1) assms(5)]
  have "continuation_ready (evidence_progress (to_stream out)) \<longleftrightarrow>
      se_completion (to_stream out) = ''incomplete'' \<and>
      se_reason (to_stream out) \<in> {''page_cap_reached'', ''provider_error''} \<and> recorded_pages out \<noteq> []"
    using ev(3) by (auto simp: continuation_ready_def evidence_progress_def resumable_terminations_def recorded_pages_def)
  then show ?thesis
    using ev(3,4) by (auto simp: c resume_state_def evidence_progress_def recorded_pages_def split: if_splits)
qed

text \<open>A request that resumes from a checkpoint: the same interval, from the checkpoint's position.\<close>

definition resumes_from :: "built_checkpoint \<Rightarrow> acquisition_request \<Rightarrow> acquisition_request \<Rightarrow> bool" where
  "resumes_from c q q' \<longleftrightarrow>
     aq_start q' = aq_start q \<and> aq_end q' = aq_end q \<and> aq_resume_key q' = Some (bc_stream_key c) \<and>
     aq_resume_cursor q' = bc_cursor c \<and> aq_resume_index q' = bc_page_index c \<and>
     (case aq_resume_budget q' of None \<Rightarrow> True | Some n \<Rightarrow> 1 \<le> n \<and> n \<le> 10)"

text \<open>C9: what a checkpoint promises is kept.  When an acquisition's checkpoint is \<open>ready\<close>, a request
  built from it is accepted and starts at the page after the last; if the provider still answers from
  the account's history and that second acquisition completes, the two together accept exactly the
  transactions of the period, in order, none lost and none twice.
\<close>

theorem resume_from_checkpoint:
  assumes first: "honest_acquisition ta net q b start D" "named_failures net"
      "out = fetch_transaction_acquisition lv ta net digest q Ingest"
    and checkpoint: "build_checkpoint sha256 m (stored_stream iso_text k (to_stream out)) = Inr c" "bc_state c = ''ready''"
    and second: "resumes_from c q q'" "serves ta net' (bc_cursor c) D"
      "out' = fetch_transaction_acquisition lv' ta net' digest q' Ingest"
      "se_completion (to_stream out') = ''complete''"
  shows "resume_position q' ''transactions'' = Inr (bc_cursor c, the (bc_page_index c)) \<and>
    to_rows out @ to_rows out' = filter (in_period b) (filter (below start) D)"
proof -
  obtain n where q: "resolved_transaction_bounds q = Inr (Some b)" "resume_position q ''transactions'' = Inr (start, n)"
    using first(1) by (auto simp: honest_acquisition_def)
  note ev = acquisition_evidence [OF q first(2,3)]
  note c = evidence_ready [OF ev(1) checkpoint(1)]
  have ready: "continuation_ready (evidence_progress (to_stream out))"
    using c(1) checkpoint(2) by (auto simp: resume_state_def split: if_splits)
  then have incomplete: "se_completion (to_stream out) \<noteq> ''complete''" and some: "recorded_pages out \<noteq> []"
    by (auto simp: continuation_ready_def evidence_progress_def recorded_pages_def)
  obtain cursor where cursor: "bc_cursor c = Some cursor" "se_terminal_cursor (to_stream out) = Some cursor"
      "lt_text cursor \<and> lt_of cursor \<le> max_lt"
    using ev(2,3) c(3) ready incomplete some by (auto simp: cursor_text_def)
  have index: "bc_page_index c = Some (n + int (length (recorded_pages out)))"
    using c(4) ready some ev(4) by (auto simp: recorded_pages_def)
  have key: "bc_stream_key c = ''transactions''"
    using c(2) first(3) q by (simp add: fetch_transaction_acquisition_def tx_outcome_of_def transaction_stream_def
        split_beta Let_def)
  have position: "resume_position q' ''transactions'' = Inr (bc_cursor c, the (bc_page_index c))"
    using second(1) cursor index key resume_first [OF q(2)]
    by (auto simp: resumes_from_def resume_position_def strict_logical_time_def of_string_def split: option.splits)
  have "resolved_transaction_bounds q' = Inr (Some b)"
    using q(1) second(1) by (simp add: resolved_transaction_bounds_def resumes_from_def)
  then have "honest_acquisition ta net' q' b (se_terminal_cursor (to_stream out)) D"
    using first(1) second(2) position cursor by (simp add: honest_acquisition_def)
  then have "to_rows out @ to_rows out' = filter (in_period b) (filter (below start) D)"
    using resumed_acquisition_exact [OF first(1,3) incomplete] second(3,4) by blast
  then show ?thesis using position by simp
qed

end
