(* ===== verification/Checkpoint_Examples.thy ===== *)
theory Checkpoint_Examples
  imports Acquisition_Checkpoints
begin

text \<open>
  A concrete acquisition, its manifest and its checkpoint, at which the theorems on manifests and
  checkpoints are applied.
\<close>

section \<open>Documents with small numbers\<close>

primrec small_ints :: "pyval \<Rightarrow> bool" where
  "small_ints PNone = True"
| "small_ints (PBool b) = True"
| "small_ints (PInt i) = (\<bar>i\<bar> < 100000000000000000000)"
| "small_ints (PStr s) = True"
| "small_ints (PList vs) = list_all id (map small_ints vs)"
| "small_ints (PDict d) = list_all snd (map (map_prod id small_ints) d)"
| "small_ints (POther n) = False"

lemma small_int_fits: "\<bar>i\<bar> < 100000000000000000000 \<Longrightarrow> int_fits i"
proof -
  assume "\<bar>i\<bar> < 100000000000000000000"
  then have "nat \<bar>i\<bar> < 10 ^ 20" by (simp add: nat_less_iff)
  then have "length (show_nat (nat \<bar>i\<bar>)) \<le> 20" by (rule show_nat_length) simp
  then show "int_fits i" by (simp add: int_fits_def max_str_digits_def)
qed

lemma small_json_ok: "small_ints v \<Longrightarrow> json_ok to_text v"
proof (induction v)
  case (PDict d)
  then have "json_ok to_text (snd e)" if "e \<in> set d" for e
    using that by (cases e) (fastforce simp: list_all_iff)
  then show ?case by (auto simp: list_all_iff)
qed (auto simp: list_all_iff small_int_fits)

section \<open>A stored acquisition\<close>

definition sample_clock :: stream_clock where
  "sample_clock = \<lparr> sk_started = 0, sk_finished = 0, sk_fetched = (\<lambda>_. 0) \<rparr>"

definition sample_iso :: "int \<Rightarrow> string" where "sample_iso t = ''2026-01-01T00:00:00Z''"

definition sample_sha :: "string \<Rightarrow> string" where "sample_sha s = replicate 64 CHR ''a''"

definition sample_source :: "stream_evidence \<Rightarrow> manifest_source" where
  "sample_source s =
    \<lparr> ms_case = ''case'', ms_sync = ''sync'', ms_network = ''mainnet'', ms_data_mode = ''live'',
      ms_provider = ''tonapi'', ms_state = ''partial'', ms_start = ''2026-01-01T00:00:00Z'',
      ms_end = ''2026-01-02T00:00:00Z'', ms_plan = [(''mode'', PStr ''full'')], ms_surfaces = [''transactions''],
      ms_run = [(''acquisition_streams'', run_streams sample_iso [(sample_clock, s)])] \<rparr>"

abbreviation first_stream :: stream_evidence where
  "first_stream \<equiv> to_stream (sample_acquisition 1 sample_request)"

definition sample_manifest :: built_manifest where
  "sample_manifest =
    (case build_manifest sample_sha (sample_source first_stream) of
       Inr b \<Rightarrow> b
     | Inl _ \<Rightarrow> \<lparr> bm_document = [], bm_json = [], bm_hash = [], bm_public_id = [], bm_stream_count = 0,
         bm_page_count = 0, bm_digest_count = 0 \<rparr>)"

lemma sample_sha_ascii: "\<forall>s. list_all (\<lambda>c. (of_char c :: nat) < 128) (sample_sha s)"
  by (simp add: sample_sha_def list_all_iff)

lemma sample_document_small: "small_ints (PDict (manifest_document (sample_source first_stream)))"
  by code_simp

lemma sample_built: "build_manifest sample_sha (sample_source first_stream) = Inr sample_manifest"
  using small_json_ok [OF sample_document_small] by (simp add: sample_manifest_def build_manifest_def Let_def)

lemma manifest_fields:
  "build_manifest sha256 m = Inr b \<Longrightarrow>
     bm_document b = manifest_document m \<and> bm_hash b = sha256 (bm_json b) \<and> bm_public_id b = ''smf_'' @ bm_hash b"
  by (auto simp: build_manifest_def Let_def)

lemma sample_manifest_fields:
  "bm_document sample_manifest = manifest_document (sample_source first_stream)"
  "bm_hash sample_manifest = replicate 64 CHR ''a''" "bm_public_id sample_manifest = ''smf_'' @ replicate 64 CHR ''a''"
  using manifest_fields [OF sample_built] by (simp_all add: sample_sha_def)

theorem manifest_verifies_witness:
  "\<exists>b d. build_manifest sample_sha (sample_source first_stream) = Inr b \<and>
    verify_document (\<lambda>_. 0) no_floats sample_sha manifest_contract (bm_json b) (bm_hash b) = Inr d \<and>
    py_eq (PDict d) (PDict (bm_document b)) \<and> bm_public_id b = ''smf_'' @ bm_hash b"
  using manifest_verifies [OF sample_built sample_sha_ascii, of "\<lambda>_. 0" no_floats] sample_built by blast

section \<open>Its checkpoint\<close>

lemma checkpoint_document_cong:
  "bm_document b = bm_document b' \<Longrightarrow> bm_hash b = bm_hash b' \<Longrightarrow> bm_public_id b = bm_public_id b' \<Longrightarrow>
     checkpoint_document b d = checkpoint_document b' d"
  by (simp add: checkpoint_document_def)

definition sample_header :: built_manifest where
  "sample_header =
    \<lparr> bm_document = manifest_document (sample_source first_stream), bm_json = [],
      bm_hash = replicate 64 CHR ''a'', bm_public_id = ''smf_'' @ replicate 64 CHR ''a'', bm_stream_count = 0,
      bm_page_count = 0, bm_digest_count = 0 \<rparr>"

definition checkpoint_builds :: "built_manifest \<Rightarrow> py_dict \<Rightarrow> bool" where
  "checkpoint_builds b d =
    (case checkpoint_document b d of Inr (document, p, index) \<Rightarrow> small_ints (PDict document) | Inl _ \<Rightarrow> False)"

lemma checkpoint_builds_Inr:
  assumes "checkpoint_builds b d"
  shows "\<exists>c. build_checkpoint sha256 b d = Inr c"
proof -
  obtain document p index where "checkpoint_document b d = Inr (document, p, index)" "small_ints (PDict document)"
    using assms by (auto simp: checkpoint_builds_def split: sum.splits)
  then show ?thesis using small_json_ok [of "PDict document" no_floats] by (simp add: build_checkpoint_def Let_def)
qed

lemma sample_checkpoint_builds:
  "checkpoint_builds sample_header (stored_stream sample_iso sample_clock first_stream)"
  by code_simp

lemma sample_checkpoint:
  obtains c where "build_checkpoint sample_sha sample_manifest (stored_stream sample_iso sample_clock first_stream) = Inr c"
proof -
  have "checkpoint_builds sample_manifest (stored_stream sample_iso sample_clock first_stream)"
    using sample_checkpoint_builds checkpoint_document_cong [of sample_manifest sample_header]
    by (simp add: checkpoint_builds_def sample_manifest_fields sample_header_def)
  then show thesis using that checkpoint_builds_Inr by blast
qed

theorem checkpoint_verifies_witness:
  "\<exists>c e. build_checkpoint sample_sha sample_manifest (stored_stream sample_iso sample_clock first_stream) = Inr c \<and>
    verify_document (\<lambda>_. 0) no_floats sample_sha checkpoint_contract (bc_json c) (bc_hash c) = Inr e \<and>
    py_eq (PDict e) (PDict (bc_document c)) \<and> bc_public_id c = ''scp_'' @ bc_hash c"
proof -
  obtain c where c: "build_checkpoint sample_sha sample_manifest (stored_stream sample_iso sample_clock first_stream) = Inr c"
    by (rule sample_checkpoint)
  then show ?thesis using checkpoint_verifies [OF c sample_sha_ascii, of "\<lambda>_. 0" no_floats] by blast
qed

section \<open>Resuming from it\<close>

lemma sample_positions:
  "resolved_transaction_bounds sample_request = Inr (Some (1000000, 10000000))"
  "resume_position sample_request ''transactions'' = Inr (None, 1)"
  by code_simp+

lemma sample_evidence:
  "se_completion first_stream = ''incomplete''" "se_reason first_stream = ''page_cap_reached''"
  "se_terminal_cursor first_stream = Some ''20''" "se_key first_stream = ''transactions''"
  "good_pages first_stream \<noteq> []" "pe_index (last (good_pages first_stream)) = 1"
  "recorded_pages (sample_acquisition 1 sample_request) \<noteq> []"
  "length (recorded_pages (sample_acquisition 1 sample_request)) = 1"
  by code_simp+

lemma sample_named: "named_failures (net_of rows)"
  by (simp add: named_failures_def net_of_def)

theorem checkpoint_of_acquisition_witness:
  "\<exists>c. build_checkpoint sample_sha sample_manifest (stored_stream sample_iso sample_clock first_stream) = Inr c \<and>
    bc_state c = ''ready'' \<and> bc_cursor c = Some ''20'' \<and> bc_page_index c = Some 2"
proof -
  obtain c where c: "build_checkpoint sample_sha sample_manifest (stored_stream sample_iso sample_clock first_stream) = Inr c"
    by (rule sample_checkpoint)
  show ?thesis
    using checkpoint_of_acquisition [OF sample_positions sample_named refl c] c sample_evidence by auto
qed

theorem resume_from_checkpoint_witness:
  "\<exists>c. build_checkpoint sample_sha sample_manifest (stored_stream sample_iso sample_clock first_stream) = Inr c \<and>
    resume_position (resumed_request ''20'') ''transactions'' = Inr (bc_cursor c, the (bc_page_index c)) \<and>
    to_rows (sample_acquisition 1 sample_request) @ to_rows (sample_acquisition 3 (resumed_request ''20'')) =
      filter (in_period (1000000, 10000000)) (filter (below None) (map snd sample_rows))"
proof -
  obtain c where c: "build_checkpoint sample_sha sample_manifest (stored_stream sample_iso sample_clock first_stream) = Inr c"
    by (rule sample_checkpoint)
  note ev = acquisition_evidence [OF sample_positions sample_named refl, of "sample_settings 1" sample_adapter sample_rows
      "\<lambda>_. []"]
  have ready: "continuation_ready (evidence_progress first_stream)" by code_simp
  then have state: "bc_state c = ''ready''" "bc_cursor c = Some ''20''"
    using evidence_ready [OF ev(1) c] sample_evidence by (simp_all add: resume_state_def continuation_ready_def)
  have position: "bc_stream_key c = ''transactions''" "bc_page_index c = Some 2"
    using evidence_ready [OF ev(1) c] ready sample_evidence by simp_all
  have "resumes_from c sample_request (resumed_request ''20'')"
    unfolding resumes_from_def position state(2) by (simp add: resumed_request_def sample_request_def)
  moreover have "se_completion (to_stream (sample_acquisition 3 (resumed_request ''20''))) = ''complete''" by code_simp
  moreover have "serves sample_adapter (net_of sample_rows) (bc_cursor c) (map snd sample_rows)"
    by (rule net_of_serves [OF sample_history sample_normalizes])
  ultimately show ?thesis
    using resume_from_checkpoint [OF sample_honest(1) sample_named refl c state(1) _ _ refl, of "resumed_request ''20''"] c
    by blast
qed

section \<open>Two answers with the same streams\<close>

definition example_stream :: "string \<Rightarrow> int list \<Rightarrow> py_dict" where
  "example_stream k indexes =
    [(''provider'', PStr ''tonapi''), (''stream_key'', PStr k),
     (''pages'', PList (map (\<lambda>i. PDict [(''page_index'', PInt i)]) indexes))]"

definition example_run :: "py_dict list \<Rightarrow> py_dict" where
  "example_run streams = [(''acquisition_streams'', PList (map PDict streams))]"

lemma example_rows: "run_rows (example_run ds) = ds"
  by (simp add: run_rows_def example_run_def list_field_def dget_cons)

theorem manifest_order_independent_witness:
  "build_manifest sample_sha ((sample_source first_stream)\<lparr> ms_run := example_run [example_stream ''b'' [], example_stream ''a'' [2, 1]] \<rparr>) =
   build_manifest sample_sha ((sample_source first_stream)\<lparr> ms_run := example_run [example_stream ''a'' [1, 2], example_stream ''b'' []] \<rparr>)"
proof -
  have dicts: "dict_rows (map (\<lambda>i. PDict [(''page_index'', PInt i)]) is) = map (\<lambda>i. [(''page_index'', PInt i)]) is" for "is"
    using dict_rows_dicts [of "map (\<lambda>i. [(''page_index'', PInt i)]) is"] by (simp add: comp_def)
  have "same_stream (example_stream ''a'' [1, 2]) (example_stream ''a'' [2, 1])"
    by (simp add: same_stream_def example_stream_def dget_cons list_field_def dicts [of "[1, 2]", simplified]
        dicts [of "[2, 1]", simplified] page_order_def manifest_page_def known_count_def)
  moreover have "same_stream (example_stream ''b'' []) (example_stream ''b'' [])"
    by (simp add: same_stream_def example_stream_def dget_cons list_field_def dicts [of "[]", simplified])
  moreover have "stream_order (manifest_stream (example_stream ''a'' [1, 2])) \<noteq> stream_order (manifest_stream (example_stream ''b'' []))"
    by code_simp
  ultimately have "same_run (example_run [example_stream ''a'' [1, 2], example_stream ''b'' []])
      (example_run [example_stream ''b'' [], example_stream ''a'' [2, 1]])"
    unfolding same_run_def example_rows
    by (intro conjI exI [of _ "[example_stream ''a'' [2, 1], example_stream ''b'' []]"]) simp_all
  then show ?thesis
    using manifest_order_independent [of "(sample_source first_stream)\<lparr> ms_run := example_run [example_stream ''a'' [1, 2], example_stream ''b'' []] \<rparr>"]
    by simp
qed

end
