(* ===== verification/Event_Resumption.thy ===== *)
theory Event_Resumption
  imports Acquisition_Checkpoints
begin

text \<open>
  An account whose older events are settled and whose newest is in progress, read one event to a page:
  in one acquisition, and in two with a checkpoint between them.
\<close>

definition provider_event :: "char \<Rightarrow> string \<Rightarrow> int \<Rightarrow> bool \<Rightarrow> pyval" where
  "provider_event c lt seconds pending = PDict
    [(''event_id'', PStr (replicate 64 c)), (''lt'', PStr lt), (''timestamp'', PInt seconds),
     (''actions'', PList []), (''in_progress'', PBool pending)]"

definition provider_events :: "(string \<times> pyval) list" where
  "provider_events = [(''20'', provider_event CHR ''a'' ''20'' 5 True), (''10'', provider_event CHR ''b'' ''10'' 0 False)]"

text \<open>Answers one event below the cursor.\<close>

definition event_net :: "nat \<Rightarrow> int \<Rightarrow> string option \<Rightarrow> int option \<Rightarrow> int option \<Rightarrow> fetched" where
  "event_net k limit cursor start end' =
    (let rest = filter (\<lambda>(lt, _). case cursor of None \<Rightarrow> True | Some c \<Rightarrow> lt_of lt < lt_of c) provider_events in
     Fetched (PDict [(''events'', PList (map snd (take 1 rest))),
       (''next_from'', (case rest of [] \<Rightarrow> PInt 0 | (lt, _) # _ \<Rightarrow> PStr lt))]))"

definition event_resume_request :: "string \<Rightarrow> acquisition_request" where
  "event_resume_request cursor = sample_request\<lparr> aq_resume_key := Some ''account_events'',
     aq_resume_cursor := Some cursor, aq_resume_index := Some 2 \<rparr>"

abbreviation event_acquisition :: "int \<Rightarrow> acquisition_request \<Rightarrow> stream_evidence" where
  "event_acquisition pages q \<equiv>
     oo_stream (fetch_event_acquisition (sample_settings pages) sample_adapter event_net (\<lambda>_. []) q Ingest True True)"

definition how_ended :: "stream_evidence \<Rightarrow> string \<times> string \<times> bool \<times> string option \<times> int" where
  "how_ended s = (se_completion s, se_reason s, se_verified s, se_terminal_cursor s, se_normalized s)"

lemma whole_ending: "how_ended (event_acquisition 3 sample_request) =
    (''incomplete'', ''provider_event_in_progress'', False, Some ''10'', 0)"
  by code_simp

lemma first_ending: "how_ended (event_acquisition 1 sample_request) = (''incomplete'', ''page_cap_reached'', False, Some ''20'', 0)"
  by code_simp

lemma first_ready: "continuation_ready (evidence_progress (event_acquisition 1 sample_request))"
  by code_simp

lemma second_ending: "how_ended (event_acquisition 3 (event_resume_request ''20'')) =
    (''complete'', ''requested_start_crossed'', True, Some ''10'', 0)"
  by code_simp

text \<open>C14: an event in progress is forgotten when an acquisition is resumed.  Read in one acquisition, an
  interval with an event in progress ends as incomplete for that reason, unverified.  Read up to the
  page cap and resumed from the checkpoint, which is ready, the same interval ends as complete with
  verified bounds, although the event was never accepted.
\<close>

theorem resume_forgets_in_progress:
  "se_completion (event_acquisition 3 sample_request) = ''incomplete'' \<and>
   se_reason (event_acquisition 3 sample_request) = ''provider_event_in_progress'' \<and>
   \<not> se_verified (event_acquisition 3 sample_request) \<and>
   continuation_ready (evidence_progress (event_acquisition 1 sample_request)) \<and>
   se_terminal_cursor (event_acquisition 1 sample_request) = Some ''20'' \<and>
   se_normalized (event_acquisition 1 sample_request) = 0 \<and>
   se_completion (event_acquisition 3 (event_resume_request ''20'')) = ''complete'' \<and>
   se_verified (event_acquisition 3 (event_resume_request ''20''))"
  using whole_ending first_ending first_ready second_ending by (simp add: how_ended_def)

end
