(* ===== verification/Spec2Isabelle.thy ===== *)
theory Spec2Isabelle
  imports Ton_Identity Interval_Coverage Case_Sync_Liveness Case_Evidence_Requests
    Case_Evidence_Scope Case_Catalog_Races Live_Activity Checkpoint_Examples Event_Resumption
begin

text \<open>
  A verification development for the backend of the TON wallet tracker (\<^verbatim>\<open>src/backend\<close>).

  \<^bold>\<open>The program.\<close>  A Wallet Case is a wallet under investigation.  Requests enqueue synchronization
  jobs and evidence verification jobs; one worker per table claims them under a lease, drives them
  through stages, and publishes results that later reads revalidate.  Wallets, transactions and
  event actions are named by canonical identities.  Proofs rest on a liteserver configuration whose
  trust root the application pins.

  \<^bold>\<open>The theories, in the order of their imports.\<close>

  \<^item> \<open>Prelude\<close>: what the components share.  Dynamically typed Python values (\<open>pyval\<close>) with their
    equality, results (\<open>bind_result\<close>, \<open>ensure\<close>, \<open>each\<close>), decimal and hexadecimal text with the
    4300-digit limit of \<open>int\<close>, Latin-1 white space.
  \<^item> \<open>Ton_Address\<close> (\<^verbatim>\<open>services/ton_address_identity.py\<close>) and \<open>Ton_Identity\<close>
    (\<^verbatim>\<open>services/ton_transaction_identity.py\<close>, \<^verbatim>\<open>services/ton_event_action_identity.py\<close>): parsing
    and CRC16, the scoped keys, and that keys agree exactly when the identities do.
  \<^item> \<open>Interval_Coverage\<close> (\<^verbatim>\<open>services/wallet_interval_coverage.py\<close>): the cells, unions, overlaps and
    gaps of acquisition intervals.  The lemmas show that they cover exactly the instants they name,
    that durations add up, and that the report ignores the order of its inputs.
  \<^item> \<open>Liteclient_Config\<close> (\<^verbatim>\<open>services/ton_liteclient_config.py\<close>): fetching, bounding, validating and
    pinning the configuration.
  \<^item> \<open>Case_Store\<close> (\<^verbatim>\<open>models.py\<close>): the rows of the tables the jobs share, their CHECK constraints, and
    the world a worker runs in.  \<open>Leased_Jobs\<close>: the locale \<open>leased_rows\<close>, the contract of a durable
    job table (rows keep their identity, closed rows stay, tokens are only drawn by claims), with
    the monotonicity and fencing lemmas every job table inherits.
  \<^item> \<open>Case_Sync_Jobs\<close> (\<^verbatim>\<open>services/case_sync_jobs.py\<close>, and enqueueing and cancelling of
    \<^verbatim>\<open>services/wallet_cases.py\<close>): every transaction of the worker and one whole iteration,
    \<open>run_once\<close>.  \<open>Case_Sync_Steps\<close>: the state machine of the rows (\<open>sync_row_step\<close>), the
    interpretation \<open>sync\<close> of \<open>leased_rows\<close>, the invariant of the store and the refinement of the
    worker.  \<open>Case_Sync_Progress\<close>: claiming, recovery and timing.  \<open>Case_Sync_Liveness\<close>: an
    undisturbed iteration leaves no job running.
  \<^item> \<open>Case_Lifecycle\<close> (\<^verbatim>\<open>services/wallet_cases.py\<close>, \<^verbatim>\<open>repositories/wallet_cases.py\<close> and the
    request models of \<^verbatim>\<open>wallet_case_schemas.py\<close>): creating, reopening, editing, archiving, restoring
    and deleting a Case, each a program of several sessions (\<open>create_or_open_case\<close> ...
    \<open>delete_case\<close>) over named transactions.  \<open>Case_Lifecycle_Steps\<close>: the steps they commit
    (\<open>case_step\<close>) and the invariant \<open>cases_ok\<close>: identities are unique, references are valid, and a
    Case's last catalog event is visible exactly while it is not archived.
    \<open>Case_Lifecycle_Results\<close>: every operation keeps it under any interference, edits are never
    lost, a deletion removes exactly what belongs to the named Case.
  \<^item> \<open>Case_Catalog\<close>: the listing at a frozen position, its text filter, its bounds and cursors.
    \<open>Case_Catalog_Results\<close>: following the cursors yields the owner's Cases in order.
    \<open>Case_Catalog_Races\<close>: two histories in which the catalog goes wrong, and the concrete worlds
    the witnesses of the lifecycle theorems use.
  \<^item> \<open>Case_Sync_Requests\<close> (\<^verbatim>\<open>services/wallet_cases.py\<close>, \<^verbatim>\<open>services/wallet_acquisition_bounds.py\<close>):
    validating a synchronization request, its fingerprint, the interval it acquires and
    \<open>enqueue_sync\<close>.
  \<^item> \<open>Case_Evidence_Artifacts\<close> (\<^verbatim>\<open>services/wallet_case_evidence.py\<close>): the checks that bind a job to
    its stored proof artifacts.  \<open>Case_Evidence_Jobs\<close> (\<^verbatim>\<open>services/case_evidence_jobs.py\<close>): the
    worker, from recovery to publication (\<open>ev_run_once\<close>).  \<open>Case_Evidence_Service\<close>: enqueueing and
    cancelling.  \<open>Case_Evidence_Steps\<close>: the state machine of the rows, the interpretation
    \<open>evidence\<close> of \<open>leased_rows\<close> and the invariant \<open>evidence_ok\<close> (CHECK constraints and unique
    indexes).  \<open>Case_Evidence_Progress\<close>: the worker and the service only commit such steps.
    \<open>Case_Evidence_Results\<close>: what a publication means, and that reads accept it.
    \<open>Case_Evidence_Requests\<close>: replayed requests, the cancellation flag, the classification of
    provider codes.  \<open>Case_Evidence_Scope\<close>: the scope validation of reads and its LRU cache.
  \<^item> \<open>Provider_Pages\<close>, \<open>Provider_Actions\<close> (\<^verbatim>\<open>adapters/tonapi.py\<close>) and \<open>Provider_Amounts\<close>
    (\<^verbatim>\<open>adapters/wallet_activity.py\<close>): which answers of the provider are accepted, how its
    transactions, events, transfers, swaps and balances are normalized, and the decimal arithmetic
    of amounts.
  \<^item> \<open>Transaction_Acquisition\<close>, \<open>Event_Acquisition\<close>, \<open>Live_Activity\<close>
    (\<^verbatim>\<open>adapters/wallet_activity.py\<close>): the paging loops over a resolved interval, from the start or
    from a stored cursor, with the evidence they leave.  \<open>Acquisition_Pages\<close> and
    \<open>Acquisition_Results\<close>: against a provider that answers from a history, an acquisition that says
    it is complete is complete, resuming loses nothing, and a stated page budget is enough.
  \<^item> \<open>Canonical_Json\<close>: \<open>json.dumps\<close> and \<open>json.loads\<close> as the documents use them, with the round
    trip.  \<open>Sync_Manifests\<close> (\<^verbatim>\<open>services/wallet_case_sync_manifests.py\<close>) and \<open>Stream_Checkpoints\<close>
    (\<^verbatim>\<open>services/wallet_case_stream_checkpoints.py\<close>): the documents, and that they verify.
    \<open>Stored_Streams\<close> (\<^verbatim>\<open>services/wallet_activity_ingestion.py\<close>): the rows between an acquisition
    and its manifest.  \<open>Acquisition_Checkpoints\<close>: the checkpoint at the end of that pipeline
    describes the acquisition at its start, and resuming from it completes the period.
    \<open>Checkpoint_Examples\<close>: a concrete run of the pipeline.  \<open>Event_Resumption\<close>: a concrete
    account for which resuming goes wrong.

  \<^bold>\<open>State and operations.\<close>  The database is the record \<open>store\<close>, one list of rows per table in the
  order of their primary keys.  A session up to its commit is a function on the store, so sessions
  are taken to be serializable; an exception before the commit leaves the store as it was.  Between
  any two sessions of a worker or a request other sessions may commit anything: the schedule of a
  \<open>world\<close> holds, for every turn, what others did, the clocks, the stop flag, the token drawn and
  whether the database refuses.  The refinement and safety theorems hold for all schedules whose
  other sessions also commit only steps of the modelled tables (\<open>sched_keeps\<close>), which is what the
  theorems establish for every modelled program; the liveness theorem is about a schedule without
  interference.  Instants are microseconds.

  \<^bold>\<open>Arguments of the model.\<close>  For the workers, the provider crawl and the four proof operations (their
  outcome, and how many heartbeat intervals they outlive); for an acquisition, the answer to each of
  its HTTP requests; the readers of stored artifacts (the column
  \<open>st_artifacts\<close>), the Activity service's resolution of a selection, SHA-256 digests and
  fingerprints, JSON decoding, the HTTP client, and ISO 8601 text.  No law is assumed of any of them
  except where a theorem names it: \<open>published_results_readable\<close> asks that the ledger reader returns
  the entries the result copies, and the theorems on acquisitions ask that the provider answers a
  request, when it does not fail, with the next transactions of the account's history (\<open>serves\<close>).

  \<^bold>\<open>Bounds and fuel.\<close>  Every loop is structural or terminates by a measure.  \<open>cancel_loop\<close> counts the
  eight attempts of the source; the waiting loops count the heartbeat intervals an operation
  outlives, which is an argument; the paging loops count the page cap of the source.  The JSON reader
  has fuel, twice the length of the text, and \<open>parse_fuel\<close> shows that more changes nothing.

  \<^bold>\<open>Not modelled.\<close>  Routers, schemas and rendering (declarations and presentation); the other provider
  adapters, cell and liteserver proofs (third-party libraries and network protocols); migrations and
  settings; the polling threads of the runners and their wake-ups; columns that hold messages for
  people; the base64 and HMAC text of cursors (a cursor is its signed document).  Pure or
  transactional, and not modelled for want of time: the chains of checkpoints and the plans over
  them in \<^verbatim>\<open>services/wallet_cases.py\<close>, the Activity feed, history readiness, findings and PnL.
\<close>

end
